theory Spec2Isabelle
  imports Complex_Main
begin

section \<open>Arrays, errors and loops\<close>

text \<open>
  The layer kernels of \<^verbatim>\<open>unveiler/layers.py\<close> work on numpy arrays. The convolution
  and the pooling kernel index their arrays with three indices (channel, row, column);
  Keras gives such layers inputs and outputs of rank three per sample, and an array of
  rank three is a list of channels, each a list of rows. The weights of a convolution
  have rank four (kernel row, kernel column, input channel, output channel). The other
  kernels work on arrays of any rank: there an array is its shape together with its cells
  in row-major order (\<open>ndarray\<close> below). Cells are real numbers: the rounding of 32-bit
  floats and signed zeros are outside this development, which is about which cells are
  read and written and by what formula. Where the source divides and takes square roots,
  in the batch normalization, cells can also be infinite or NaN. All indices of the
  source are non-negative, so Python's wrap-around of negative indices never applies and
  indices are natural numbers.
\<close>

type_synonym vec = "real list"
type_synonym mat = "real list list"
type_synonym tensor3 = "real list list list"
type_synonym tensor4 = "real list list list list"

text \<open>The exceptions the source can raise, by their Python class.\<close>

datatype error =
    IndexError
  | ValueError string
  | ZeroDivisionError
  | AttributeError string
  | TypeError string

text \<open>
  A method call on a layer object mutates the object in place. It either returns, leaving
  the object in a new state, or raises part-way, leaving the object in the state reached
  before the failing statement.
\<close>

datatype 's outcome = Done 's | Raised error 's

fun state_of :: "'s outcome \<Rightarrow> 's" where
  "state_of (Done s) = s"
| "state_of (Raised err s) = s"

fun map_outcome :: "('s \<Rightarrow> 't) \<Rightarrow> 's outcome \<Rightarrow> 't outcome" where
  "map_outcome f (Done s) = Done (f s)"
| "map_outcome f (Raised err s) = Raised err (f s)"

fun returns :: "'s outcome \<Rightarrow> bool" where
  "returns (Done s) = True"
| "returns (Raised err s) = False"

text \<open>\<^verbatim>\<open>for i in xs: body\<close>, the body updating the state or raising.\<close>

fun for_loop :: "'i list \<Rightarrow> ('i \<Rightarrow> 's \<Rightarrow> 's outcome) \<Rightarrow> 's \<Rightarrow> 's outcome" where
  "for_loop [] body s = Done s"
| "for_loop (i # rest) body s =
     (case body i s of
        Raised err s' \<Rightarrow> Raised err s'
      | Done s' \<Rightarrow> for_loop rest body s')"

text \<open>
  Evaluating an expression that may raise, inside a statement: on an error the statement
  is abandoned with the state as it stands.
\<close>

definition attempt :: "error + 'a \<Rightarrow> 's \<Rightarrow> ('a \<Rightarrow> 's outcome) \<Rightarrow> 's outcome" where
  "attempt r s k = (case r of Inl err \<Rightarrow> Raised err s | Inr a \<Rightarrow> k a)"

definition bind_err :: "error + 'a \<Rightarrow> ('a \<Rightarrow> error + 'b) \<Rightarrow> error + 'b" where
  "bind_err r k = (case r of Inl err \<Rightarrow> Inl err | Inr a \<Rightarrow> k a)"

text \<open>
  \<^verbatim>\<open>range(0, stop, step)\<close> for a stop that is not negative: the multiples of the step
  below the stop; a step of zero raises.
\<close>

definition py_range :: "nat \<Rightarrow> nat \<Rightarrow> error + nat list" where
  "py_range stop step =
     (if step = 0 then Inl (ValueError ''range() arg 3 must not be zero'')
      else Inr (map (\<lambda>n. n * step) [0..<(stop + step - 1) div step]))"

definition py_floordiv :: "nat \<Rightarrow> nat \<Rightarrow> error + nat" where
  "py_floordiv a d = (if d = 0 then Inl ZeroDivisionError else Inr (a div d))"

subsection \<open>Shapes\<close>

text \<open>
  \<^verbatim>\<open>a.shape\<close> of a rank-three array. An array with no channel (or no row) has no
  inner list to measure; the source reads those extents only inside a loop over the
  channels, so the value chosen here for the empty case is never used by a loop body.
\<close>

definition shape0 :: "'a list \<Rightarrow> nat" where
  "shape0 a = length a"

definition shape1 :: "'a list list \<Rightarrow> nat" where
  "shape1 a = (case a of [] \<Rightarrow> 0 | c # _ \<Rightarrow> length c)"

definition shape2 :: "'a list list list \<Rightarrow> nat" where
  "shape2 a = (case a of [] \<Rightarrow> 0 | c # _ \<Rightarrow> shape1 c)"

definition shaped2 :: "nat \<times> nat \<Rightarrow> 'a list list \<Rightarrow> bool" where
  "shaped2 d a = (length a = fst d \<and> list_all (\<lambda>r. length r = snd d) a)"

definition shaped3 :: "nat \<times> nat \<times> nat \<Rightarrow> 'a list list list \<Rightarrow> bool" where
  "shaped3 d a = (length a = fst d \<and> list_all (shaped2 (snd d)) a)"

definition zeros2 :: "nat \<times> nat \<Rightarrow> mat" where
  "zeros2 d = replicate (fst d) (replicate (snd d) 0)"

definition zeros3 :: "nat \<times> nat \<times> nat \<Rightarrow> tensor3" where
  "zeros3 d = replicate (fst d) (zeros2 (snd d))"

subsection \<open>Reading and writing cells\<close>

definition get1 :: "'a list \<Rightarrow> nat \<Rightarrow> error + 'a" where
  "get1 a i = (if i < length a then Inr (a ! i) else Inl IndexError)"

definition get3 :: "'a list list list \<Rightarrow> nat \<Rightarrow> nat \<Rightarrow> nat \<Rightarrow> error + 'a" where
  "get3 a i j k =
     (if i < length a \<and> j < length (a ! i) \<and> k < length (a ! i ! j)
      then Inr (a ! i ! j ! k) else Inl IndexError)"

definition set3 :: "'a list list list \<Rightarrow> nat \<Rightarrow> nat \<Rightarrow> nat \<Rightarrow> 'a \<Rightarrow> error + 'a list list list" where
  "set3 a i j k x =
     (if i < length a \<and> j < length (a ! i) \<and> k < length (a ! i ! j)
      then Inr (a[i := (a ! i)[j := (a ! i ! j)[k := x]]]) else Inl IndexError)"

text \<open>
  \<^verbatim>\<open>x[c, r:r+nr, q:q+nq]\<close>: the channel is indexed and raises out of range, the two
  slices are clipped to the array without an error.
\<close>

definition window :: "tensor3 \<Rightarrow> nat \<Rightarrow> nat \<Rightarrow> nat \<Rightarrow> nat \<Rightarrow> nat \<Rightarrow> error + mat" where
  "window x c r nr q nq =
     (if c < length x
      then Inr (map (\<lambda>row. take nq (drop q row)) (take nr (drop r (x ! c))))
      else Inl IndexError)"

section \<open>Arguments that are the layer's own buffer\<close>

text \<open>
  A method returns the buffer it has written, not a copy, so a caller can pass that
  buffer back to the method. An argument is therefore either an array of its own, which
  shares no memory with the buffer the method writes and is given by its value, or that
  very buffer, which the method then reads while it writes it. Views that share a part
  of the buffer's memory are outside this development. Where a method computes its whole
  right-hand side before it assigns, or reads a channel only before it writes that
  channel (dense, flatten, dropout, batch normalization), passing the buffer itself is
  passing its value, and the argument is a value.
\<close>

datatype 'a arg = Array 'a | Own_buffer

fun arg_value :: "'a arg \<Rightarrow> 'a \<Rightarrow> 'a" where
  "arg_value (Array a) buf = a"
| "arg_value Own_buffer buf = buf"

text \<open>
  The module \<^verbatim>\<open>unveiler.activations\<close> is not part of the sources. The resolver
  \<^verbatim>\<open>Activation\<close>, which may reject a name, is a parameter of the constructors, and an
  activation is a function from arrays to arrays that either returns a new array or
  returns its argument itself (as a linear activation may). An activation that changes
  its argument in place is outside this development.
\<close>

datatype 'a activation = Returns_argument | Returns_new "'a \<Rightarrow> 'a"

fun activate :: "'a activation \<Rightarrow> 'a \<Rightarrow> 'a" where
  "activate Returns_argument a = a"
| "activate (Returns_new f) a = f a"

section \<open>The layer base class\<close>

text \<open>
  \<^verbatim>\<open>Layer.__init__\<close> keeps the name and allocates the output buffer; the subclasses add
  their own fields. The buffer's rank depends on the layer, so it is a type parameter.
\<close>

record 'buf Layer =
  name :: string
  "output" :: 'buf

text \<open>
  The source layer description is a Keras layer object. The kernels read its name, its
  \<^verbatim>\<open>input_shape\<close> and \<^verbatim>\<open>output_shape\<close> (the batch entry first, dropped by
  \<^verbatim>\<open>[1:]\<close>) and, by class, its weights, the name of its activation, kernel size,
  strides, pool size and epsilon. The shapes of a convolution or pooling layer have four
  entries (batch, channels, rows, columns), since Keras accepts only inputs of that rank
  for these classes; the shapes of the other classes are lists of any length.
  \<^verbatim>\<open>get_weights()\<close> of a dense or convolution layer is the kernel followed by the bias
  when the layer has one; of a batch normalization layer it is the list of its
  per-channel vectors. A layer of any other class is described by
  \<^verbatim>\<open>str(type(keras_layer))\<close>.
\<close>

record 'shape keras_config =
  keras_name :: string
  input_shape :: 'shape
  output_shape :: 'shape

type_synonym shape4 = "nat \<times> nat \<times> nat \<times> nat"

datatype keras_layer =
    Keras_Dense "nat list keras_config" mat "vec option" string
  | Keras_Conv2D "shape4 keras_config" tensor4 "vec option" string "nat \<times> nat" "nat \<times> nat"
  | Keras_MaxPooling2D "shape4 keras_config" "nat \<times> nat" "nat \<times> nat"
  | Keras_Flatten "nat list keras_config"
  | Keras_BatchNormalization "nat list keras_config" "vec list" real
  | Keras_Dropout "nat list keras_config"
  | Keras_InputLayer "nat list keras_config"
  | Keras_Other string "nat list keras_config"

text \<open>\<^verbatim>\<open>keras_layer.get_weights()[1]\<close> of a dense or convolution layer.\<close>

definition bias_of :: "vec option \<Rightarrow> error + vec" where
  "bias_of bias = (case bias of None \<Rightarrow> Inl IndexError | Some v \<Rightarrow> Inr v)"

section \<open>MaxPooling2D\<close>

record MaxPooling2D = "tensor3 Layer" +
  pool_size :: "nat \<times> nat"
  pool_strides :: "nat \<times> nat"
  indices :: "(nat \<times> nat) list list list"
  deconvolutional_output :: tensor3

text \<open>
  \<^verbatim>\<open>MaxPooling2D.__init__\<close>. \<^verbatim>\<open>indices\<close> has the output's shape with one more axis
  of length two: a pair of coordinates per output cell, zero at first.
\<close>

definition MaxPooling2D_init :: "shape4 keras_config \<Rightarrow> nat \<times> nat \<Rightarrow> nat \<times> nat \<Rightarrow> MaxPooling2D" where
  "MaxPooling2D_init keras_layer pool pstrides =
     \<lparr>name = keras_name keras_layer,
      output = zeros3 (snd (output_shape keras_layer)),
      pool_size = pool,
      pool_strides = pstrides,
      indices = map (map (map (\<lambda>_. (0, 0)))) (zeros3 (snd (output_shape keras_layer))),
      deconvolutional_output = zeros3 (snd (input_shape keras_layer))\<rparr>"

text \<open>\<^verbatim>\<open>a.max()\<close> raises on an array without elements.\<close>

definition amax :: "mat \<Rightarrow> error + real" where
  "amax a =
     (case concat a of
        [] \<Rightarrow> Inl (ValueError ''zero-size array to reduction operation maximum which has no identity'')
      | x # xs \<Rightarrow> Inr (fold max xs x))"

text \<open>\<^verbatim>\<open>a.argmax()\<close>: the first position of the maximum in row-major order.\<close>

primrec first_index :: "'a \<Rightarrow> 'a list \<Rightarrow> nat" where
  "first_index y [] = 0"
| "first_index y (x # xs) = (if x = y then 0 else Suc (first_index y xs))"

definition argmax :: "mat \<Rightarrow> error + nat" where
  "argmax a =
     (case concat a of
        [] \<Rightarrow> Inl (ValueError ''attempt to get argmax of an empty sequence'')
      | x # xs \<Rightarrow> Inr (first_index (fold max xs x) (x # xs)))"

text \<open>\<^verbatim>\<open>np.unravel_index(n, a.shape)\<close> for a rank-two shape.\<close>

definition unravel_index :: "nat \<Rightarrow> nat \<times> nat \<Rightarrow> error + nat \<times> nat" where
  "unravel_index n d =
     (if n < fst d * snd d then Inr (n div snd d, n mod snd d)
      else Inl (ValueError ''index is out of bounds for array''))"

text \<open>
  The body of the three loops of \<^verbatim>\<open>MaxPooling2D.feedforward\<close> (lines 105 to 111): the
  window is cut out of the input, its maximum goes to the output cell and the position of
  the maximum, moved by the window's corner, to the same cell of \<^verbatim>\<open>indices\<close>.
\<close>

definition pool_cell :: "tensor3 \<Rightarrow> nat \<Rightarrow> nat \<Rightarrow> nat \<Rightarrow> MaxPooling2D \<Rightarrow> MaxPooling2D outcome" where
  "pool_cell x idx_in idx_ih idx_iw s =
     attempt (window x idx_in idx_ih (fst (pool_size s)) idx_iw (snd (pool_size s))) s (\<lambda>slice_of_input.
     attempt (amax slice_of_input) s (\<lambda>max_value.
     attempt (bind_err (argmax slice_of_input)
            (\<lambda>n. unravel_index n (shape0 slice_of_input, shape1 slice_of_input))) s (\<lambda>max_index.
     attempt (py_floordiv idx_ih (fst (pool_size s))) s (\<lambda>idx_oh.
     attempt (py_floordiv idx_iw (snd (pool_size s))) s (\<lambda>idx_ow.
     attempt (set3 (output s) idx_in idx_oh idx_ow max_value) s (\<lambda>out.
     let s1 = s\<lparr>output := out\<rparr> in
     attempt (set3 (indices s1) idx_in idx_oh idx_ow (fst max_index + idx_ih, snd max_index + idx_iw)) s1 (\<lambda>ind.
     Done (s1\<lparr>indices := ind\<rparr>))))))))"

text \<open>
  \<^verbatim>\<open>MaxPooling2D.feedforward\<close>. The bounds of the two inner ranges are computed when the
  loop is entered, so a zero pool size or stride raises only if there is a channel. The
  method writes \<^verbatim>\<open>self.output\<close>: an argument that is this buffer is read as the buffer
  stands at each step.
\<close>

definition MaxPooling2D_feedforward :: "MaxPooling2D \<Rightarrow> tensor3 arg \<Rightarrow> MaxPooling2D outcome" where
  "MaxPooling2D_feedforward self x =
     for_loop [0..<shape0 (arg_value x (output self))] (\<lambda>idx_in s.
       attempt (bind_err (py_floordiv (shape1 (arg_value x (output s))) (fst (pool_size s)))
              (\<lambda>n. py_range (n * fst (pool_size s)) (fst (pool_strides s)))) s (\<lambda>rows.
       for_loop rows (\<lambda>idx_ih s.
         attempt (bind_err (py_floordiv (shape2 (arg_value x (output s))) (snd (pool_size s)))
                (\<lambda>n. py_range (n * snd (pool_size s)) (snd (pool_strides s)))) s (\<lambda>cols.
         for_loop cols (\<lambda>idx_iw s.
           pool_cell (arg_value x (output s)) idx_in idx_ih idx_iw s) s)) s)) self"

text \<open>
  \<^verbatim>\<open>MaxPooling2D.deconvolve\<close>: every cell of \<^verbatim>\<open>x\<close> is written to the recorded
  position of the buffer. The buffer is not cleared first. The method writes
  \<^verbatim>\<open>self.deconvolutional_output\<close>: an argument that is this buffer is read as the
  buffer stands at each step.
\<close>

definition unpool_cell :: "tensor3 \<Rightarrow> nat \<Rightarrow> nat \<Rightarrow> nat \<Rightarrow> MaxPooling2D \<Rightarrow> MaxPooling2D outcome" where
  "unpool_cell x i j k s =
     attempt (get3 (indices s) i j k) s (\<lambda>jk.
     attempt (get3 x i j k) s (\<lambda>value.
     attempt (set3 (deconvolutional_output s) i (fst jk) (snd jk) value) s (\<lambda>buf.
     Done (s\<lparr>deconvolutional_output := buf\<rparr>))))"

definition MaxPooling2D_deconvolve :: "MaxPooling2D \<Rightarrow> tensor3 arg \<Rightarrow> MaxPooling2D outcome" where
  "MaxPooling2D_deconvolve self x =
     for_loop [0..<shape0 (arg_value x (deconvolutional_output self))] (\<lambda>i s.
       for_loop [0..<shape1 (arg_value x (deconvolutional_output s))] (\<lambda>j s.
         for_loop [0..<shape2 (arg_value x (deconvolutional_output s))] (\<lambda>k s.
           unpool_cell (arg_value x (deconvolutional_output s)) i j k s) s) s) self"

text \<open>
  What the calls keep true of a pooling layer built for inputs of shape \<^verbatim>\<open>din\<close> and
  outputs of shape \<^verbatim>\<open>dout\<close>: the buffers have their declared shapes and every recorded
  pair of coordinates lies inside the input's rows and columns.
\<close>

definition indices_in_bounds :: "nat \<times> nat \<Rightarrow> (nat \<times> nat) list list list \<Rightarrow> bool" where
  "indices_in_bounds d ind = list_all (list_all (list_all (\<lambda>p. fst p < fst d \<and> snd p < snd d))) ind"

definition pool_ok :: "MaxPooling2D \<Rightarrow> nat \<times> nat \<times> nat \<Rightarrow> nat \<times> nat \<times> nat \<Rightarrow> bool" where
  "pool_ok s din dout =
     (shaped3 dout (output s) \<and> shaped3 dout (indices s) \<and>
      shaped3 din (deconvolutional_output s) \<and> indices_in_bounds (snd din) (indices s) \<and>
      fst din = fst dout)"

section \<open>Conv2D\<close>

text \<open>
  The fields \<^verbatim>\<open>self.w\<close>, \<^verbatim>\<open>self.b\<close> and \<^verbatim>\<open>self.activation\<close> are \<open>conv_w\<close>,
  \<open>conv_b\<close> and \<open>conv_activation\<close>.
\<close>

record Conv2D = "tensor3 Layer" +
  conv_w :: tensor4
  conv_b :: vec
  conv_activation :: "tensor3 activation"
  kernel_size :: "nat \<times> nat"
  strides :: "nat \<times> nat"
  deconv_output :: tensor3

definition Conv2D_init ::
  "(string \<Rightarrow> error + tensor3 activation) \<Rightarrow> shape4 keras_config \<Rightarrow> tensor4 \<Rightarrow> vec option \<Rightarrow>
   string \<Rightarrow> nat \<times> nat \<Rightarrow> nat \<times> nat \<Rightarrow> error + Conv2D" where
  "Conv2D_init Activation keras_layer kern bias activation_name ksize kstrides =
     bind_err (bias_of bias) (\<lambda>b.
     bind_err (Activation activation_name) (\<lambda>act.
     Inr \<lparr>name = keras_name keras_layer,
          output = zeros3 (snd (output_shape keras_layer)),
          conv_w = kern,
          conv_b = b,
          conv_activation = act,
          kernel_size = ksize,
          strides = kstrides,
          deconv_output = zeros3 (snd (input_shape keras_layer))\<rparr>))"

text \<open>\<^verbatim>\<open>a.fill(0)\<close> keeps the shape.\<close>

definition fill0 :: "tensor3 \<Rightarrow> tensor3" where
  "fill0 a = map (map (map (\<lambda>_. 0))) a"

text \<open>\<^verbatim>\<open>w[:, :, j, i]\<close>: the two indexed axes raise out of range.\<close>

definition kernel_slice :: "tensor4 \<Rightarrow> nat \<Rightarrow> nat \<Rightarrow> error + mat" where
  "kernel_slice wt j i =
     (if list_all (list_all (\<lambda>cell. j < length cell \<and> i < length (cell ! j))) wt
      then Inr (map (map (\<lambda>cell. cell ! j ! i)) wt)
      else Inl IndexError)"

text \<open>
  Broadcasting: two extents agree when they are equal or one of them is 1, and an axis
  of extent 1 is repeated. An array that is assigned or added in place to a buffer must
  fit the buffer's extents, which do not change.
\<close>

definition broadcast_dim :: "nat \<Rightarrow> nat \<Rightarrow> error + nat" where
  "broadcast_dim m n =
     (if m = n then Inr m else if m = 1 then Inr n else if n = 1 then Inr m
      else Inl (ValueError ''operands could not be broadcast together''))"

definition stretch :: "nat \<Rightarrow> 'a list \<Rightarrow> 'a list" where
  "stretch n xs = (if length xs = n then xs else replicate n (hd xs))"

definition mul2 :: "mat \<Rightarrow> mat \<Rightarrow> error + mat" where
  "mul2 a b =
     bind_err (broadcast_dim (shape0 a) (shape0 b)) (\<lambda>rows.
     bind_err (broadcast_dim (shape1 a) (shape1 b)) (\<lambda>cols.
     Inr (map2 (\<lambda>ra rb. map2 (*) (stretch cols ra) (stretch cols rb))
            (stretch rows a) (stretch rows b))))"

definition asum :: "mat \<Rightarrow> real" where
  "asum a = sum_list (concat a)"

definition fit :: "nat \<Rightarrow> 'a list \<Rightarrow> error + 'a list" where
  "fit n xs =
     (if length xs = n then Inr xs
      else if length xs = 1 then Inr (replicate n (hd xs))
      else Inl (ValueError ''could not broadcast''))"

fun sequence_err :: "(error + 'a) list \<Rightarrow> error + 'a list" where
  "sequence_err [] = Inr []"
| "sequence_err (r # rs) = bind_err r (\<lambda>a. bind_err (sequence_err rs) (\<lambda>as. Inr (a # as)))"

definition fit2 :: "'b list list \<Rightarrow> 'a list list \<Rightarrow> error + 'a list list" where
  "fit2 buf v =
     bind_err (fit (length buf) v) (\<lambda>rows. sequence_err (map2 (\<lambda>b r. fit (length b) r) buf rows))"

definition fit3 :: "'b list list list \<Rightarrow> 'a list list list \<Rightarrow> error + 'a list list list" where
  "fit3 buf v =
     bind_err (fit (length buf) v) (\<lambda>chans. sequence_err (map2 fit2 buf chans))"

text \<open>
  One step of the innermost loop of \<^verbatim>\<open>Conv2D.feedforward\<close> (lines 61 to 63), on the
  output buffer: the cell is read, the window of the input is multiplied cell by cell
  with the kernel of the channel pair, and the sum is added to the cell.
\<close>

definition conv_cell :: "Conv2D \<Rightarrow> tensor3 \<Rightarrow> nat \<Rightarrow> nat \<Rightarrow> nat \<Rightarrow> nat \<Rightarrow> tensor3 \<Rightarrow> tensor3 outcome" where
  "conv_cell self x i j k l out =
     attempt (py_floordiv k (fst (strides self))) out (\<lambda>r.
     attempt (py_floordiv l (snd (strides self))) out (\<lambda>c.
     attempt (get3 out i r c) out (\<lambda>old.
     attempt (window x j k (fst (kernel_size self)) l (snd (kernel_size self))) out (\<lambda>win.
     attempt (kernel_slice (conv_w self) j i) out (\<lambda>ker.
     attempt (mul2 win ker) out (\<lambda>prod.
     attempt (set3 out i r c (old + asum prod)) out Done))))))"

text \<open>\<^verbatim>\<open>self.output[i, :, :] += self.b[i]\<close> (line 64).\<close>

definition add_bias :: "Conv2D \<Rightarrow> nat \<Rightarrow> tensor3 \<Rightarrow> tensor3 outcome" where
  "add_bias self i out =
     attempt (get1 out i) out (\<lambda>chan.
     attempt (get1 (conv_b self) i) out (\<lambda>bi.
     Done (out[i := map (map (\<lambda>v. v + bi)) chan])))"

definition then_do :: "'s outcome \<Rightarrow> ('s \<Rightarrow> 's outcome) \<Rightarrow> 's outcome" where
  "then_do r k = (case r of Raised err s \<Rightarrow> Raised err s | Done s \<Rightarrow> k s)"

text \<open>
  \<^verbatim>\<open>Conv2D.feedforward\<close>. The stop of a range, \<^verbatim>\<open>x.shape[1] - kernel_size[0] + 1\<close>, is
  negative or zero when the kernel is larger than the input, and the range is then
  empty; the subtraction on natural numbers is written so that it gives 0 there. The
  method writes \<^verbatim>\<open>self.output\<close>, and fills it with zeros before it reads \<^verbatim>\<open>x\<close>: an
  argument that is this buffer is read as the buffer stands at each step.
\<close>

definition Conv2D_feedforward :: "Conv2D \<Rightarrow> tensor3 arg \<Rightarrow> Conv2D outcome" where
  "Conv2D_feedforward self x =
     map_outcome (\<lambda>out. self\<lparr>output := out\<rparr>)
       (then_do
          (for_loop [0..<shape0 (output self)] (\<lambda>i out.
             then_do
               (for_loop [0..<shape0 (arg_value x out)] (\<lambda>j out.
                  attempt (py_range (shape1 (arg_value x out) + 1 - fst (kernel_size self))
                             (fst (strides self))) out (\<lambda>rows.
                  for_loop rows (\<lambda>k out.
                    attempt (py_range (shape2 (arg_value x out) + 1 - snd (kernel_size self))
                               (snd (strides self))) out (\<lambda>cols.
                    for_loop cols (\<lambda>l out. conv_cell self (arg_value x out) i j k l out) out)) out)) out)
               (add_bias self i))
             (fill0 (output self)))
          (\<lambda>out. attempt (fit3 out (activate (conv_activation self) out)) out Done))"

text \<open>
  \<^verbatim>\<open>buf[j, k:k+nr, l:l+nc] += rhs\<close>: the view is cut out, the right-hand side must fit
  it, and the cells of the view are replaced by the sums.
\<close>

definition add_window :: "tensor3 \<Rightarrow> nat \<Rightarrow> nat \<Rightarrow> nat \<Rightarrow> nat \<Rightarrow> nat \<Rightarrow> mat \<Rightarrow> error + tensor3" where
  "add_window buf j k nr l nc rhs =
     bind_err (window buf j k nr l nc) (\<lambda>view.
     bind_err (fit2 view rhs) (\<lambda>rhs'.
     Inr (buf[j := map (\<lambda>r.
            if k \<le> r \<and> r < k + length view
            then map (\<lambda>c. if l \<le> c \<and> c < l + length (view ! (r - k))
                          then buf ! j ! r ! c + rhs' ! (r - k) ! (c - l)
                          else buf ! j ! r ! c) [0..<length (buf ! j ! r)]
            else buf ! j ! r) [0..<length (buf ! j)]])))"

definition scale :: "real \<Rightarrow> mat \<Rightarrow> mat" where
  "scale a m = map (map (\<lambda>v. a * v)) m"

text \<open>One step of the innermost loop of \<^verbatim>\<open>Conv2D.deconvolve\<close> (lines 82 and 83).\<close>

definition deconv_cell :: "Conv2D \<Rightarrow> tensor3 \<Rightarrow> tensor4 \<Rightarrow> nat \<Rightarrow> nat \<Rightarrow> nat \<Rightarrow> nat \<Rightarrow> tensor3 \<Rightarrow> tensor3 outcome" where
  "deconv_cell self x wt i j k l buf =
     attempt (py_floordiv k (fst (strides self))) buf (\<lambda>r.
     attempt (py_floordiv l (snd (strides self))) buf (\<lambda>c.
     attempt (get3 x i r c) buf (\<lambda>xv.
     attempt (kernel_slice wt j i) buf (\<lambda>ker.
     attempt (add_window buf j k (fst (kernel_size self)) l (snd (kernel_size self))
                (scale xv (transpose ker))) buf Done))))"

text \<open>
  \<^verbatim>\<open>x = self.activation(x)\<close> (line 76), for the \<^verbatim>\<open>x\<close> of a call of
  \<^verbatim>\<open>Conv2D.deconvolve\<close>: an omitted \<^verbatim>\<open>x\<close> is the layer's output buffer, which the
  method does not write. The method writes \<^verbatim>\<open>self.deconv_output\<close>: given that buffer,
  an activation that returns its argument leaves \<^verbatim>\<open>x\<close> to be the buffer, and any other
  activation computes a new array from the buffer as it is when the method is called.
\<close>

definition activated :: "Conv2D \<Rightarrow> tensor3 arg option \<Rightarrow> tensor3 arg" where
  "activated self x_arg =
     (case x_arg of
        None \<Rightarrow> Array (activate (conv_activation self) (output self))
      | Some (Array x) \<Rightarrow> Array (activate (conv_activation self) x)
      | Some Own_buffer \<Rightarrow>
          (case conv_activation self of
             Returns_argument \<Rightarrow> Own_buffer
           | Returns_new f \<Rightarrow> Array (f (deconv_output self))))"

text \<open>
  \<^verbatim>\<open>Conv2D.deconvolve(x=None, w=None)\<close>: an omitted \<^verbatim>\<open>w\<close> is the layer's weights.
  The buffer is filled with zeros before \<^verbatim>\<open>x\<close> is read.
\<close>

definition Conv2D_deconvolve :: "Conv2D \<Rightarrow> tensor3 arg option \<Rightarrow> tensor4 option \<Rightarrow> Conv2D outcome" where
  "Conv2D_deconvolve self x_arg w_arg =
     (let wt = (case w_arg of None \<Rightarrow> conv_w self | Some wt \<Rightarrow> wt);
          x = activated self x_arg
      in map_outcome (\<lambda>buf. self\<lparr>deconv_output := buf\<rparr>)
           (for_loop [0..<shape0 (arg_value x (fill0 (deconv_output self)))] (\<lambda>i buf.
              for_loop [0..<shape0 buf] (\<lambda>j buf.
                attempt (py_range (shape1 buf + 1 - fst (kernel_size self)) (fst (strides self))) buf (\<lambda>rows.
                for_loop rows (\<lambda>k buf.
                  attempt (py_range (shape2 buf + 1 - snd (kernel_size self)) (snd (strides self))) buf (\<lambda>cols.
                  for_loop cols (\<lambda>l buf. deconv_cell self (arg_value x buf) wt i j k l buf) buf)) buf)) buf)
              (fill0 (deconv_output self))))"

subsection \<open>What a convolution layer is built for\<close>

text \<open>
  A convolution layer built for inputs of shape \<^verbatim>\<open>din\<close> and outputs of shape
  \<^verbatim>\<open>dout\<close>, channels first: the buffers have the declared shapes, the weights have
  the shape (kernel rows, kernel columns, input channels, output channels), there is one
  bias per output channel, and kernel sizes and strides are positive, as Keras has them.
\<close>

definition shaped4 :: "nat \<times> nat \<times> nat \<times> nat \<Rightarrow> 'a list list list list \<Rightarrow> bool" where
  "shaped4 d a = (length a = fst d \<and> list_all (shaped3 (snd d)) a)"

definition conv_ok :: "Conv2D \<Rightarrow> nat \<times> nat \<times> nat \<Rightarrow> nat \<times> nat \<times> nat \<Rightarrow> bool" where
  "conv_ok self din dout =
     (shaped3 dout (output self) \<and> shaped3 din (deconv_output self) \<and>
      shaped4 (fst (kernel_size self), snd (kernel_size self), fst din, fst dout) (conv_w self) \<and>
      length (conv_b self) = fst dout \<and> 0 < fst (strides self) \<and> 0 < snd (strides self) \<and>
      0 < fst (kernel_size self) \<and> 0 < snd (kernel_size self))"

text \<open>
  The activation comes from a module that is not part of the sources; what the kernels
  need of it is that its result has the shape of its argument.
\<close>

definition keeps_shape :: "nat \<times> nat \<times> nat \<Rightarrow> tensor3 activation \<Rightarrow> bool" where
  "keeps_shape d a = (\<forall>t. shaped3 d t \<longrightarrow> shaped3 d (activate a t))"

subsection \<open>The convolution as the specification words it\<close>

text \<open>
  The number of window positions along an axis, \<open>floor((input_dim - kernel_dim) / stride) + 1\<close>
  when the kernel fits and none otherwise; the sum over a window of the cell-wise
  product with \<^verbatim>\<open>W[:, :, j, i]\<close>; and the value of output cell \<open>(i, r, c)\<close> before the
  activation: the window sums over all input channels at the window position
  \<open>(r * stride, c * stride)\<close> when there is such a position, plus the bias of channel \<open>i\<close>.
\<close>

definition out_dim :: "nat \<Rightarrow> nat \<Rightarrow> nat \<Rightarrow> nat" where
  "out_dim n kd st = (if n < kd then 0 else (n - kd) div st + 1)"

definition window_sum :: "tensor3 \<Rightarrow> tensor4 \<Rightarrow> nat \<times> nat \<Rightarrow> nat \<Rightarrow> nat \<Rightarrow> nat \<Rightarrow> nat \<Rightarrow> real" where
  "window_sum x wt ks j i r0 c0 =
     (\<Sum>a\<leftarrow>[0..<fst ks]. \<Sum>b\<leftarrow>[0..<snd ks]. x ! j ! (r0 + a) ! (c0 + b) * wt ! a ! b ! j ! i)"

definition conv_value :: "Conv2D \<Rightarrow> tensor3 \<Rightarrow> nat \<Rightarrow> nat \<Rightarrow> nat \<Rightarrow> real" where
  "conv_value self x i r c =
     (if r < out_dim (shape1 x) (fst (kernel_size self)) (fst (strides self)) \<and>
         c < out_dim (shape2 x) (snd (kernel_size self)) (snd (strides self))
      then \<Sum>j\<leftarrow>[0..<shape0 x].
             window_sum x (conv_w self) (kernel_size self) j i (r * fst (strides self)) (c * snd (strides self))
      else 0) + conv_b self ! i"

definition tabulate3 :: "nat \<times> nat \<times> nat \<Rightarrow> (nat \<Rightarrow> nat \<Rightarrow> nat \<Rightarrow> 'a) \<Rightarrow> 'a list list list" where
  "tabulate3 d f =
     map (\<lambda>i. map (\<lambda>r. map (\<lambda>c. f i r c) [0..<snd (snd d)]) [0..<fst (snd d)]) [0..<fst d]"


subsection \<open>The deconvolution as the specification words it\<close>

text \<open>
  What the window at position \<open>(n, m)\<close> of channel pair \<open>(i, j)\<close> adds to cell
  \<open>(r, c)\<close> of the accumulator: inside the window, \<^verbatim>\<open>x[i, n, m]\<close> times the cell of the
  transposed kernel, that is the kernel cell with row and column exchanged; outside,
  nothing. A cell of the result is the sum of these over all channels of \<^verbatim>\<open>x\<close> and all
  window positions, so overlapping windows add up.
\<close>

definition deconv_term :: "Conv2D \<Rightarrow> tensor3 \<Rightarrow> tensor4 \<Rightarrow> nat \<Rightarrow> nat \<Rightarrow> nat \<Rightarrow> nat \<Rightarrow> nat \<Rightarrow> nat \<Rightarrow> real" where
  "deconv_term self x wt i j n m r c =
     (if n * fst (strides self) \<le> r \<and> r < n * fst (strides self) + fst (kernel_size self) \<and>
         m * snd (strides self) \<le> c \<and> c < m * snd (strides self) + snd (kernel_size self)
      then x ! i ! n ! m * wt ! (c - m * snd (strides self)) ! (r - n * fst (strides self)) ! j ! i
      else 0)"

definition deconv_value :: "Conv2D \<Rightarrow> tensor3 \<Rightarrow> tensor4 \<Rightarrow> nat \<Rightarrow> nat \<Rightarrow> nat \<Rightarrow> real" where
  "deconv_value self x wt j r c =
     (\<Sum>i\<leftarrow>[0..<shape0 x].
      \<Sum>n\<leftarrow>[0..<out_dim (shape1 (deconv_output self)) (fst (kernel_size self)) (fst (strides self))].
      \<Sum>m\<leftarrow>[0..<out_dim (shape2 (deconv_output self)) (snd (kernel_size self)) (snd (strides self))].
        deconv_term self x wt i j n m r c)"

section \<open>Arrays of any rank\<close>

text \<open>
  The dense, flatten, dropout and batch normalization kernels never index an array with
  more than one index, and work at any rank. An array is its shape and its cells in
  row-major order; it has as many cells as the product of its extents (\<open>is_array\<close>).
  A numpy scalar is an array of rank zero.
\<close>

record 'a ndarray =
  shape :: "nat list"
  cells :: "'a list"

definition is_array :: "'a ndarray \<Rightarrow> bool" where
  "is_array a = (length (cells a) = prod_list (shape a))"

definition np_zeros :: "nat list \<Rightarrow> real ndarray" where
  "np_zeros d = \<lparr>shape = d, cells = replicate (prod_list d) 0\<rparr>"

definition nd_map :: "('a \<Rightarrow> 'b) \<Rightarrow> 'a ndarray \<Rightarrow> 'b ndarray" where
  "nd_map f a = \<lparr>shape = shape a, cells = map f (cells a)\<rparr>"

text \<open>\<^verbatim>\<open>a.shape[0]\<close> raises on an array of rank zero, whose shape is the empty tuple.\<close>

definition extent0 :: "'a ndarray \<Rightarrow> error + nat" where
  "extent0 a = (case shape a of [] \<Rightarrow> Inl IndexError | n # ds \<Rightarrow> Inr n)"

text \<open>
  \<^verbatim>\<open>a[i]\<close>: the \<open>i\<close>-th sub-array along the first axis, whose cells are consecutive.
\<close>

definition slice_at :: "nat list \<Rightarrow> nat \<Rightarrow> 'a list \<Rightarrow> 'a list" where
  "slice_at ds i xs = take (prod_list ds) (drop (i * prod_list ds) xs)"

definition index0 :: "'a ndarray \<Rightarrow> nat \<Rightarrow> error + 'a ndarray" where
  "index0 a i =
     (case shape a of
        [] \<Rightarrow> Inl IndexError
      | n # ds \<Rightarrow> if i < n then Inr \<lparr>shape = ds, cells = slice_at ds i (cells a)\<rparr> else Inl IndexError)"

text \<open>
  Assignment to a buffer, or to a part of it, broadcasts the value to the shape of the
  target. Leading axes of extent 1 that the value has beyond the rank of the target are
  dropped; the shape that is left must not be longer than the target's and is filled up
  with axes of extent 1 in front; then every extent of the value must be the target's or
  1. The cell at a position of the target is the cell of the value at the same position,
  with 0 along the axes where the value has extent 1.
\<close>

fun strip_ones :: "nat \<Rightarrow> nat list \<Rightarrow> nat list" where
  "strip_ones r [] = []"
| "strip_ones r (d # ds) = (if r < length (d # ds) \<and> d = 1 then strip_ones r ds else d # ds)"

definition aligned :: "nat list \<Rightarrow> nat list \<Rightarrow> nat list" where
  "aligned ts vs =
     (let vs' = strip_ones (length ts) vs in replicate (length ts - length vs') 1 @ vs')"

definition broadcasts :: "nat list \<Rightarrow> nat list \<Rightarrow> bool" where
  "broadcasts ts vs =
     (length (strip_ones (length ts) vs) \<le> length ts \<and>
      list_all2 (\<lambda>t v. v = t \<or> v = 1) ts (aligned ts vs))"

fun source_index :: "nat list \<Rightarrow> nat list \<Rightarrow> nat \<Rightarrow> nat" where
  "source_index (t # ts) (v # vs) k =
     (if v = 1 then 0 else (k div prod_list ts) * prod_list vs) + source_index ts vs (k mod prod_list ts)"
| "source_index ts vs k = 0"

definition broadcast_to :: "nat list \<Rightarrow> 'a ndarray \<Rightarrow> error + 'a list" where
  "broadcast_to ts v =
     (if broadcasts ts (shape v)
      then Inr (map (\<lambda>k. cells v ! source_index ts (aligned ts (shape v)) k) [0..<prod_list ts])
      else Inl (ValueError ''could not broadcast input array''))"

text \<open>
  \<^verbatim>\<open>a[:] = v\<close>; an array of rank zero cannot be sliced.
\<close>

definition assign_all :: "'a ndarray \<Rightarrow> 'a ndarray \<Rightarrow> error + 'a ndarray" where
  "assign_all a v =
     (case shape a of
        [] \<Rightarrow> Inl IndexError
      | n # ds \<Rightarrow> bind_err (broadcast_to (shape a) v) (\<lambda>new. Inr (a\<lparr>cells := new\<rparr>)))"

text \<open>
  \<^verbatim>\<open>a[i] = v\<close>: the index is checked first, then the value is broadcast to the shape of
  \<^verbatim>\<open>a[i]\<close>, whose cells are replaced.
\<close>

definition assign_index0 :: "'a ndarray \<Rightarrow> nat \<Rightarrow> 'a ndarray \<Rightarrow> error + 'a ndarray" where
  "assign_index0 a i v =
     (case shape a of
        [] \<Rightarrow> Inl IndexError
      | n # ds \<Rightarrow>
          if i < n
          then bind_err (broadcast_to ds v) (\<lambda>new.
               Inr (a\<lparr>cells := take (i * prod_list ds) (cells a) @ new @
                                  drop (Suc i * prod_list ds) (cells a)\<rparr>))
          else Inl IndexError)"

section \<open>Cells that may be infinite or NaN\<close>

text \<open>
  numpy's division and square root do not raise: a division by zero gives an infinity, or
  NaN for \<open>0 / 0\<close>, and the square root of a negative number gives NaN, which every later
  operation hands on. The arithmetic of the batch normalization is therefore on reals
  extended by the two infinities and NaN, without rounding; a zero has no sign, so a
  division by zero takes its sign from the dividend alone.
\<close>

datatype float = Finite real | PosInf | NegInf | NaN

fun fneg :: "float \<Rightarrow> float" where
  "fneg (Finite a) = Finite (- a)"
| "fneg PosInf = NegInf"
| "fneg NegInf = PosInf"
| "fneg NaN = NaN"

fun fadd :: "float \<Rightarrow> float \<Rightarrow> float" where
  "fadd (Finite a) (Finite b) = Finite (a + b)"
| "fadd NaN y = NaN"
| "fadd x NaN = NaN"
| "fadd PosInf NegInf = NaN"
| "fadd NegInf PosInf = NaN"
| "fadd PosInf y = PosInf"
| "fadd x PosInf = PosInf"
| "fadd NegInf y = NegInf"
| "fadd x NegInf = NegInf"

definition fsub :: "float \<Rightarrow> float \<Rightarrow> float" where
  "fsub x y = fadd x (fneg y)"

definition signed_inf :: "real \<Rightarrow> float" where
  "signed_inf a = (if 0 < a then PosInf else if a < 0 then NegInf else NaN)"

fun fmul :: "float \<Rightarrow> float \<Rightarrow> float" where
  "fmul (Finite a) (Finite b) = Finite (a * b)"
| "fmul NaN y = NaN"
| "fmul x NaN = NaN"
| "fmul (Finite a) PosInf = signed_inf a"
| "fmul (Finite a) NegInf = signed_inf (- a)"
| "fmul PosInf (Finite b) = signed_inf b"
| "fmul NegInf (Finite b) = signed_inf (- b)"
| "fmul PosInf PosInf = PosInf"
| "fmul NegInf NegInf = PosInf"
| "fmul PosInf NegInf = NegInf"
| "fmul NegInf PosInf = NegInf"

fun fdiv :: "float \<Rightarrow> float \<Rightarrow> float" where
  "fdiv (Finite a) (Finite b) = (if b = 0 then signed_inf a else Finite (a / b))"
| "fdiv NaN y = NaN"
| "fdiv x NaN = NaN"
| "fdiv (Finite a) PosInf = Finite 0"
| "fdiv (Finite a) NegInf = Finite 0"
| "fdiv PosInf (Finite b) = (if b < 0 then NegInf else PosInf)"
| "fdiv NegInf (Finite b) = (if b < 0 then PosInf else NegInf)"
| "fdiv PosInf PosInf = NaN"
| "fdiv PosInf NegInf = NaN"
| "fdiv NegInf PosInf = NaN"
| "fdiv NegInf NegInf = NaN"

fun fsqrt :: "float \<Rightarrow> float" where
  "fsqrt (Finite a) = (if a < 0 then NaN else Finite (sqrt a))"
| "fsqrt PosInf = PosInf"
| "fsqrt NegInf = NaN"
| "fsqrt NaN = NaN"

section \<open>BatchNormalization\<close>

text \<open>
  The fields \<^verbatim>\<open>g\<close>, \<^verbatim>\<open>b\<close>, \<^verbatim>\<open>m\<close>, \<^verbatim>\<open>v\<close> and \<^verbatim>\<open>e\<close> (gamma, beta, mean, variance and
  epsilon) are \<open>bn_g\<close>, \<open>bn_b\<close>, \<open>bn_m\<close>, \<open>bn_v\<close> and \<open>bn_e\<close>: vectors with one real
  entry per channel, and a real. The buffer, allocated by \<^verbatim>\<open>np.zeros\<close>, and the input
  have extended cells.
\<close>

record BatchNormalization = "float ndarray Layer" +
  bn_g :: vec
  bn_b :: vec
  bn_m :: vec
  bn_v :: vec
  bn_e :: real

definition BatchNormalization_init ::
  "nat list keras_config \<Rightarrow> vec list \<Rightarrow> real \<Rightarrow> error + BatchNormalization" where
  "BatchNormalization_init keras_layer weights eps =
     bind_err (get1 weights 0) (\<lambda>g.
     bind_err (get1 weights 1) (\<lambda>b.
     bind_err (get1 weights 2) (\<lambda>m.
     bind_err (get1 weights 3) (\<lambda>v.
     Inr \<lparr>name = keras_name keras_layer,
          output = nd_map Finite (np_zeros (tl (output_shape keras_layer))),
          bn_g = g, bn_b = b, bn_m = m, bn_v = v, bn_e = eps\<rparr>))))"

text \<open>
  The body of the loop of \<^verbatim>\<open>BatchNormalization.feedforward\<close> (line 142): the right-hand
  side is computed from sub-array \<open>i\<close> of the input, cell by cell, then assigned to
  sub-array \<open>i\<close> of the buffer, to which it is broadcast.
\<close>

definition bn_channel :: "BatchNormalization \<Rightarrow> float ndarray \<Rightarrow> nat \<Rightarrow> float ndarray \<Rightarrow> float ndarray outcome" where
  "bn_channel self x i out =
     attempt (get1 (bn_g self) i) out (\<lambda>gi.
     attempt (index0 x i) out (\<lambda>xi.
     attempt (get1 (bn_m self) i) out (\<lambda>mi.
     attempt (get1 (bn_v self) i) out (\<lambda>vi.
     attempt (get1 (bn_b self) i) out (\<lambda>bi.
     attempt (assign_index0 out i
                (nd_map (\<lambda>xv. fadd (fdiv (fmul (Finite gi) (fsub xv (Finite mi)))
                                          (fsqrt (Finite (vi + bn_e self))))
                                    (Finite bi)) xi)) out Done)))))"

definition BatchNormalization_feedforward ::
  "BatchNormalization \<Rightarrow> float ndarray \<Rightarrow> BatchNormalization outcome" where
  "BatchNormalization_feedforward self x =
     map_outcome (\<lambda>out. self\<lparr>output := out\<rparr>)
       (attempt (extent0 x) (output self) (\<lambda>n.
        for_loop [0..<n] (\<lambda>i out. bn_channel self x i out) (output self)))"

text \<open>
  The normalization as the specification words it: in channel \<open>i\<close>, every cell \<open>x\<close>
  becomes \<open>g[i] * (x - m[i]) / sqrt(v[i] + e) + b[i]\<close>. In extended arithmetic the
  formula has a value for all parameters; it is the real number of the formula when \<open>x\<close>
  is finite and \<open>v[i] + e\<close> is positive.
\<close>

definition bn_formula :: "real \<Rightarrow> real \<Rightarrow> real \<Rightarrow> real \<Rightarrow> real \<Rightarrow> float \<Rightarrow> float" where
  "bn_formula g b m v e x =
     fadd (fdiv (fmul (Finite g) (fsub x (Finite m))) (fsqrt (Finite (v + e)))) (Finite b)"

definition batch_norm :: "BatchNormalization \<Rightarrow> float ndarray \<Rightarrow> float ndarray" where
  "batch_norm self x =
     \<lparr>shape = shape x,
      cells = concat (map (\<lambda>i. map (bn_formula (bn_g self ! i) (bn_b self ! i) (bn_m self ! i)
                                          (bn_v self ! i) (bn_e self))
                                (slice_at (tl (shape x)) i (cells x)))
                       [0..<hd (shape x)])\<rparr>"

text \<open>
  A batch normalization layer built for arrays of shape \<open>d\<close>, of rank one at least, with
  one parameter of each kind per channel.
\<close>

definition bn_ok :: "BatchNormalization \<Rightarrow> nat list \<Rightarrow> bool" where
  "bn_ok self d =
     (d \<noteq> [] \<and> shape (output self) = d \<and> is_array (output self) \<and>
      length (bn_g self) = hd d \<and> length (bn_b self) = hd d \<and>
      length (bn_m self) = hd d \<and> length (bn_v self) = hd d)"

section \<open>Dense, Flatten and Dropout\<close>

text \<open>
  \<^verbatim>\<open>x.dot(w)\<close> for weights of rank two: an \<^verbatim>\<open>x\<close> of rank zero multiplies every weight;
  otherwise the last axis of \<^verbatim>\<open>x\<close> must be as long as \<open>w\<close> has rows, and every row of
  \<^verbatim>\<open>x\<close> along its last axis is multiplied with the matrix. The weights are a list of
  rows.
\<close>

record Dense = "real ndarray Layer" +
  dense_w :: mat
  dense_b :: vec
  dense_activation :: "real ndarray activation"

definition Dense_init ::
  "(string \<Rightarrow> error + real ndarray activation) \<Rightarrow> nat list keras_config \<Rightarrow> mat \<Rightarrow> vec option \<Rightarrow>
   string \<Rightarrow> error + Dense" where
  "Dense_init Activation keras_layer kern bias activation_name =
     bind_err (bias_of bias) (\<lambda>b.
     bind_err (Activation activation_name) (\<lambda>act.
     Inr \<lparr>name = keras_name keras_layer,
          output = np_zeros (tl (output_shape keras_layer)),
          dense_w = kern,
          dense_b = b,
          dense_activation = act\<rparr>))"

definition rows_of :: "'a ndarray \<Rightarrow> 'a list list" where
  "rows_of a =
     map (\<lambda>r. take (last (shape a)) (drop (r * last (shape a)) (cells a)))
       [0..<prod_list (butlast (shape a))]"

definition dot :: "real ndarray \<Rightarrow> mat \<Rightarrow> error + real ndarray" where
  "dot x wt =
     (if shape x = []
      then Inr \<lparr>shape = [shape0 wt, shape1 wt], cells = map (\<lambda>v. hd (cells x) * v) (concat wt)\<rparr>
      else if last (shape x) = length wt
      then Inr \<lparr>shape = butlast (shape x) @ [shape1 wt],
                cells = concat (map (\<lambda>row. map (\<lambda>j. \<Sum>k\<leftarrow>[0..<length wt]. row ! k * wt ! k ! j)
                                              [0..<shape1 wt])
                                  (rows_of x))\<rparr>
      else Inl (ValueError ''shapes not aligned''))"

text \<open>
  \<^verbatim>\<open>a + b\<close> for an array \<open>a\<close> of rank one at least and a vector \<open>b\<close>: the last axis of
  \<open>a\<close> and the vector are broadcast against each other.
\<close>

definition add_vector :: "real ndarray \<Rightarrow> vec \<Rightarrow> error + real ndarray" where
  "add_vector a b =
     bind_err (broadcast_dim (last (shape a)) (length b)) (\<lambda>n.
     Inr \<lparr>shape = butlast (shape a) @ [n],
          cells = concat (map (\<lambda>row. map2 (+) (stretch n row) (stretch n b)) (rows_of a))\<rparr>)"

text \<open>
  \<^verbatim>\<open>Dense.feedforward\<close> (line 39): the right-hand side is computed first, then
  assigned to the whole buffer.
\<close>

definition Dense_feedforward :: "Dense \<Rightarrow> real ndarray \<Rightarrow> Dense outcome" where
  "Dense_feedforward self x =
     attempt (bind_err (dot x (dense_w self)) (\<lambda>xw.
              bind_err (add_vector xw (dense_b self)) (\<lambda>z.
              assign_all (output self) (activate (dense_activation self) z)))) self (\<lambda>new.
     Done (self\<lparr>output := new\<rparr>))"

text \<open>
  \<^verbatim>\<open>Flatten.feedforward\<close>: \<^verbatim>\<open>x.flatten()\<close> is the cells of \<^verbatim>\<open>x\<close> in row-major order,
  \<^verbatim>\<open>reshape((1, -1))\<close> makes them one row, and the row is assigned to the whole buffer.
\<close>

definition Flatten_init :: "nat list keras_config \<Rightarrow> real ndarray Layer" where
  "Flatten_init keras_layer =
     \<lparr>name = keras_name keras_layer, output = np_zeros (tl (output_shape keras_layer))\<rparr>"

definition Flatten_feedforward :: "real ndarray Layer \<Rightarrow> real ndarray \<Rightarrow> real ndarray Layer outcome" where
  "Flatten_feedforward self x =
     attempt (assign_all (output self) \<lparr>shape = [1, length (cells x)], cells = cells x\<rparr>) self (\<lambda>new.
     Done (self\<lparr>output := new\<rparr>))"

text \<open>\<^verbatim>\<open>Dropout.feedforward\<close> assigns its input to the whole buffer.\<close>

definition Dropout_init :: "nat list keras_config \<Rightarrow> real ndarray Layer" where
  "Dropout_init keras_layer =
     \<lparr>name = keras_name keras_layer, output = np_zeros (tl (output_shape keras_layer))\<rparr>"

definition Dropout_feedforward :: "real ndarray Layer \<Rightarrow> real ndarray \<Rightarrow> real ndarray Layer outcome" where
  "Dropout_feedforward self x =
     attempt (assign_all (output self) x) self (\<lambda>new.
     Done (self\<lparr>output := new\<rparr>))"

section \<open>The factory and the methods of a kernel\<close>

datatype kernel =
    Dense_kernel Dense
  | Conv2D_kernel Conv2D
  | MaxPooling2D_kernel MaxPooling2D
  | Flatten_kernel "real ndarray Layer"
  | BatchNormalization_kernel BatchNormalization
  | Dropout_kernel "real ndarray Layer"

text \<open>
  \<^verbatim>\<open>Layer.factory\<close>: the chain of \<^verbatim>\<open>isinstance\<close> tests in the order of the source. The
  result for an input layer, \<^verbatim>\<open>(None, None)\<close>, is \<open>None\<close>. A constructor that raises
  makes the factory raise. The two resolvers are the missing \<^verbatim>\<open>Activation\<close> at the two
  kinds of array used.
\<close>

definition factory ::
  "(string \<Rightarrow> error + real ndarray activation) \<Rightarrow> (string \<Rightarrow> error + tensor3 activation) \<Rightarrow>
   keras_layer \<Rightarrow> error + (kernel \<times> string) option" where
  "factory Activation1 Activation3 keras_layer =
     (case keras_layer of
        Keras_Dense cfg kern bias act \<Rightarrow>
          bind_err (Dense_init Activation1 cfg kern bias act) (\<lambda>layer.
          Inr (Some (Dense_kernel layer, ''other'')))
      | Keras_Conv2D cfg kern bias act ksize kstrides \<Rightarrow>
          bind_err (Conv2D_init Activation3 cfg kern bias act ksize kstrides) (\<lambda>layer.
          Inr (Some (Conv2D_kernel layer, ''conv'')))
      | Keras_MaxPooling2D cfg pool pstrides \<Rightarrow>
          Inr (Some (MaxPooling2D_kernel (MaxPooling2D_init cfg pool pstrides), ''maxpool''))
      | Keras_Flatten cfg \<Rightarrow>
          Inr (Some (Flatten_kernel (Flatten_init cfg), ''other''))
      | Keras_BatchNormalization cfg weights eps \<Rightarrow>
          bind_err (BatchNormalization_init cfg weights eps) (\<lambda>layer.
          Inr (Some (BatchNormalization_kernel layer, ''other'')))
      | Keras_Dropout cfg \<Rightarrow>
          Inr (Some (Dropout_kernel (Dropout_init cfg), ''other''))
      | Keras_InputLayer cfg \<Rightarrow> Inr None
      | Keras_Other type_name cfg \<Rightarrow>
          Inl (ValueError (''Layer '' @ type_name @ '' is not supported'')))"

text \<open>
  \<^verbatim>\<open>layer.deconvolve(x)\<close> on a kernel: Python looks the method up in the object's class
  and its base class \<^verbatim>\<open>Layer\<close>. Only \<^verbatim>\<open>Conv2D\<close> and \<^verbatim>\<open>MaxPooling2D\<close> define it; for the
  other classes the lookup raises \<^verbatim>\<open>AttributeError\<close> before anything is computed.
\<close>

fun class_name :: "kernel \<Rightarrow> string" where
  "class_name (Dense_kernel _) = ''Dense''"
| "class_name (Conv2D_kernel _) = ''Conv2D''"
| "class_name (MaxPooling2D_kernel _) = ''MaxPooling2D''"
| "class_name (Flatten_kernel _) = ''Flatten''"
| "class_name (BatchNormalization_kernel _) = ''BatchNormalization''"
| "class_name (Dropout_kernel _) = ''Dropout''"

fun has_deconvolve :: "kernel \<Rightarrow> bool" where
  "has_deconvolve (Conv2D_kernel _) = True"
| "has_deconvolve (MaxPooling2D_kernel _) = True"
| "has_deconvolve _ = False"

fun deconvolve :: "kernel \<Rightarrow> tensor3 arg \<Rightarrow> kernel outcome" where
  "deconvolve (Conv2D_kernel layer) x = map_outcome Conv2D_kernel (Conv2D_deconvolve layer (Some x) None)"
| "deconvolve (MaxPooling2D_kernel layer) x = map_outcome MaxPooling2D_kernel (MaxPooling2D_deconvolve layer x)"
| "deconvolve layer x =
     Raised (AttributeError (class_name layer @ '' object has no attribute deconvolve'')) layer"


section \<open>Results of calls and states of buffers\<close>

text \<open>
  What the caller of a method sees: the returned buffer or the exception. Two buffers
  have the same shape when their channels have rows of the same lengths.
\<close>

fun result :: "('s \<Rightarrow> 'a) \<Rightarrow> 's outcome \<Rightarrow> error + 'a" where
  "result f (Done s) = Inr (f s)"
| "result f (Raised err s) = Inl err"

definition same_shape3 :: "'a list list list \<Rightarrow> 'b list list list \<Rightarrow> bool" where
  "same_shape3 a b = (map (map length) a = map (map length) b)"

subsection \<open>The pooling as the specification words it\<close>

text \<open>
  With strides equal to the pool size the windows tile the input: window \<open>(n, m)\<close> of
  channel \<open>i\<close> has its corner at \<open>(n * pool rows, m * pool columns)\<close>. Its maximum, and
  the position in the input of the first cell, in row-major order, that holds it.
  \<open>pool_inv\<close> describes a pooling layer with that pool size, strides equal to it, and
  output and index buffers of shape \<open>d\<close>.
\<close>

definition pool_window :: "tensor3 \<Rightarrow> nat \<times> nat \<Rightarrow> nat \<Rightarrow> nat \<Rightarrow> nat \<Rightarrow> mat" where
  "pool_window x ps i n m =
     map (\<lambda>row. take (snd ps) (drop (m * snd ps) row)) (take (fst ps) (drop (n * fst ps) (x ! i)))"

definition pool_max :: "tensor3 \<Rightarrow> nat \<times> nat \<Rightarrow> nat \<Rightarrow> nat \<Rightarrow> nat \<Rightarrow> real" where
  "pool_max x ps i n m = Max (set (concat (pool_window x ps i n m)))"

definition pool_argmax :: "tensor3 \<Rightarrow> nat \<times> nat \<Rightarrow> nat \<Rightarrow> nat \<Rightarrow> nat \<Rightarrow> nat \<times> nat" where
  "pool_argmax x ps i n m =
     (let flat = concat (pool_window x ps i n m);
          k = first_index (Max (set flat)) flat
      in (k div snd ps + n * fst ps, k mod snd ps + m * snd ps))"

definition pool_inv :: "nat \<times> nat \<Rightarrow> nat \<times> nat \<times> nat \<Rightarrow> MaxPooling2D \<Rightarrow> bool" where
  "pool_inv ps d s =
     (pool_size s = ps \<and> pool_strides s = ps \<and> shaped3 d (output s) \<and> shaped3 d (indices s))"
section \<open>Loops and cells\<close>

lemma attempt_Inl [simp]: "attempt (Inl err) s k = Raised err s"
  by (simp add: attempt_def)

lemma attempt_Inr [simp]: "attempt (Inr a) s k = k a"
  by (simp add: attempt_def)

lemma bind_err_Inl [simp]: "bind_err (Inl err) k = Inl err"
  by (simp add: bind_err_def)

lemma bind_err_Inr [simp]: "bind_err (Inr a) k = k a"
  by (simp add: bind_err_def)

lemma for_loop_invariant:
  assumes "\<And>i s. P s \<Longrightarrow> P (state_of (body i s))" and "P s"
  shows "P (state_of (for_loop xs body s))"
  using assms(2)
proof (induction xs arbitrary: s)
  case Nil
  then show ?case by simp
next
  case (Cons i xs)
  from assms(1)[OF Cons.prems, of i] show ?case
    by (cases "body i s") (auto intro: Cons.IH)
qed

lemma for_loop_returns:
  assumes "\<And>i s. i \<in> set xs \<Longrightarrow> P s \<Longrightarrow> \<exists>s'. body i s = Done s' \<and> P s'" and "P s"
  shows "\<exists>s'. for_loop xs body s = Done s' \<and> P s'"
  using assms
proof (induction xs arbitrary: s)
  case Nil
  then show ?case by simp
next
  case (Cons i xs)
  from Cons.prems(1)[of i s] Cons.prems(2) obtain s1 where s1: "body i s = Done s1" "P s1"
    by auto
  have "\<exists>s'. for_loop xs body s1 = Done s' \<and> P s'"
    by (rule Cons.IH) (use Cons.prems(1) s1 in auto)
  with s1 show ?case by simp
qed

lemma shaped3_set3:
  "shaped3 d a \<Longrightarrow> set3 a i j k v = Inr a' \<Longrightarrow> shaped3 d a'"
  by (auto simp: shaped3_def shaped2_def set3_def list_all_length nth_list_update split: if_splits)

lemma in_bounds_set3:
  "indices_in_bounds d a \<Longrightarrow> set3 a i j k v = Inr a' \<Longrightarrow> fst v < fst d \<Longrightarrow> snd v < snd d
   \<Longrightarrow> indices_in_bounds d a'"
  by (auto simp: indices_in_bounds_def set3_def list_all_length nth_list_update split: if_splits)

lemma unravel_index_bound:
  "unravel_index n d = Inr p \<Longrightarrow> fst p < fst d \<and> snd p < snd d"
  by (auto simp: unravel_index_def less_mult_imp_div_less split: if_splits
      intro!: mod_less_divisor Nat.gr0I)

lemma window_shape0:
  "shaped3 (c, h, wd) x \<Longrightarrow> window x i r nr q nq = Inr sl \<Longrightarrow> shape0 sl \<le> h - r"
  by (auto simp: window_def shape0_def shaped3_def shaped2_def list_all_length split: if_splits)

lemma window_rows:
  assumes "shaped3 (c, h, wd) x" and "window x i r nr q nq = Inr sl" and "row \<in> set sl"
  shows "length row \<le> wd - q"
proof -
  from assms(2) have i: "i < length x"
    and sl: "sl = map (\<lambda>row. take nq (drop q row)) (take nr (drop r (x ! i)))"
    by (auto simp: window_def split: if_splits)
  from assms(3) sl obtain row0 where row0: "row0 \<in> set (x ! i)" "row = take nq (drop q row0)"
    by (auto dest!: in_set_takeD in_set_dropD)
  from assms(1) i row0(1) have "length row0 = wd"
    by (auto simp: shaped3_def shaped2_def list_all_iff)
  with row0(2) show ?thesis by simp
qed

lemma window_shape1:
  "shaped3 (c, h, wd) x \<Longrightarrow> window x i r nr q nq = Inr sl \<Longrightarrow> shape1 sl \<le> wd - q"
  using window_rows[of c h wd x i r nr q nq sl]
  by (cases sl) (auto simp: shape1_def)

lemma pool_cell_ok:
  assumes "pool_ok s (c, h, wd) dout" and "shaped3 (c, h, wd) x"
  shows "pool_ok (state_of (pool_cell x idx_in idx_ih idx_iw s)) (c, h, wd) dout"
proof -
  have *: "pool_ok (s\<lparr>output := out, indices := ind\<rparr>) (c, h, wd) dout"
    if "window x idx_in idx_ih (fst (pool_size s)) idx_iw (snd (pool_size s)) = Inr sl"
      and "unravel_index n (shape0 sl, shape1 sl) = Inr mi"
      and "set3 (output s) idx_in oh ow v = Inr out"
      and "set3 (indices s) idx_in oh ow (fst mi + idx_ih, snd mi + idx_iw) = Inr ind"
    for sl n mi oh ow v out ind
  proof -
    from unravel_index_bound[OF that(2)] window_shape0[OF assms(2) that(1)]
      window_shape1[OF assms(2) that(1)]
    have "fst mi + idx_ih < h" "snd mi + idx_iw < wd" by auto
    with assms(1) that(3,4) show ?thesis
      by (auto simp: pool_ok_def intro: shaped3_set3 in_bounds_set3)
  qed
  have **: "pool_ok (s\<lparr>output := out\<rparr>) (c, h, wd) dout"
    if "set3 (output s) idx_in oh ow v = Inr out" for oh ow v out
    using assms(1) that by (auto simp: pool_ok_def intro: shaped3_set3)
  show ?thesis
    using assms(1)
    by (auto simp: pool_cell_def attempt_def bind_err_def Let_def * ** split: sum.splits)
qed

lemma MaxPooling2D_feedforward_ok:
  assumes "pool_ok self (c, h, wd) dout" and "shaped3 (c, h, wd) x"
  shows "pool_ok (state_of (MaxPooling2D_feedforward self (Array x))) (c, h, wd) dout"
  unfolding MaxPooling2D_feedforward_def
  apply (rule for_loop_invariant[where P = "\<lambda>s. pool_ok s (c, h, wd) dout"])
   apply (auto simp: attempt_def split: sum.splits)[1]
   apply (rule for_loop_invariant[where P = "\<lambda>s. pool_ok s (c, h, wd) dout"])
    apply (auto simp: attempt_def split: sum.splits)[1]
    apply (rule for_loop_invariant[where P = "\<lambda>s. pool_ok s (c, h, wd) dout"])
     apply (rule pool_cell_ok)
      apply (auto simp: assms)
  done

lemma shaped3_nth:
  "shaped3 (c, h, wd) a \<Longrightarrow> i < c \<Longrightarrow> j < h \<Longrightarrow>
   i < length a \<and> j < length (a ! i) \<and> length (a ! i ! j) = wd \<and> length (a ! i) = h"
  by (auto simp: shaped3_def shaped2_def list_all_length)

lemma shaped3_shape1: "shaped3 (c, h, wd) a \<Longrightarrow> 0 < c \<Longrightarrow> shape1 a = h"
  by (cases a) (auto simp: shaped3_def shaped2_def shape1_def)

lemma shaped3_shape2: "shaped3 (c, h, wd) a \<Longrightarrow> 0 < c \<Longrightarrow> 0 < h \<Longrightarrow> shape2 a = wd"
  by (cases a; cases "hd a") (auto simp: shaped3_def shaped2_def shape1_def shape2_def)

lemma in_bounds_nth:
  "indices_in_bounds d a \<Longrightarrow> i < length a \<Longrightarrow> j < length (a ! i) \<Longrightarrow> k < length (a ! i ! j)
   \<Longrightarrow> fst (a ! i ! j ! k) < fst d \<and> snd (a ! i ! j ! k) < snd d"
  by (auto simp: indices_in_bounds_def list_all_length)

lemma unpool_cell_ok:
  assumes "pool_ok s din dout"
  shows "pool_ok (state_of (unpool_cell x i j k s)) din dout"
proof -
  have "pool_ok (s\<lparr>deconvolutional_output := buf\<rparr>) din dout"
    if "set3 (deconvolutional_output s) i r q v = Inr buf" for r q v buf
    using assms shaped3_set3[OF _ that] by (simp add: pool_ok_def)
  with assms show ?thesis
    by (auto simp: unpool_cell_def attempt_def split: sum.splits)
qed

lemma MaxPooling2D_deconvolve_ok:
  assumes "pool_ok self din dout"
  shows "pool_ok (state_of (MaxPooling2D_deconvolve self x)) din dout"
  unfolding MaxPooling2D_deconvolve_def
  apply (rule for_loop_invariant[where P = "\<lambda>s. pool_ok s din dout"])
   apply (rule for_loop_invariant[where P = "\<lambda>s. pool_ok s din dout"])
    apply (rule for_loop_invariant[where P = "\<lambda>s. pool_ok s din dout"])
     apply (rule unpool_cell_ok)
     apply (auto simp: assms)
  done

lemma unpool_cell_returns:
  assumes ok: "pool_ok s (c, h, wd) (c, oh, ow)"
    and d: "shaped3 (c, oh, ow) (arg_value x (deconvolutional_output s))"
    and i: "i < c" and j: "j < oh" and k: "k < ow"
  shows "\<exists>s'. unpool_cell (arg_value x (deconvolutional_output s)) i j k s = Done s' \<and>
           pool_ok s' (c, h, wd) (c, oh, ow) \<and>
           shaped3 (c, oh, ow) (arg_value x (deconvolutional_output s'))"
proof -
  let ?d = "arg_value x (deconvolutional_output s)"
  from ok have ind: "shaped3 (c, oh, ow) (indices s)" and buf: "shaped3 (c, h, wd) (deconvolutional_output s)"
    and inb: "indices_in_bounds (h, wd) (indices s)"
    by (auto simp: pool_ok_def)
  from shaped3_nth[OF ind i j] k have g: "get3 (indices s) i j k = Inr (indices s ! i ! j ! k)"
    by (simp add: get3_def)
  from shaped3_nth[OF d i j] k have gx: "get3 ?d i j k = Inr (?d ! i ! j ! k)"
    by (simp add: get3_def)
  obtain jj kk where jk: "indices s ! i ! j ! k = (jj, kk)" by (cases "indices s ! i ! j ! k")
  from in_bounds_nth[OF inb, of i j k] shaped3_nth[OF ind i j] k jk have b: "jj < h" "kk < wd"
    by auto
  from shaped3_nth[OF buf i b(1)] b(2)
  obtain buf' where s3: "set3 (deconvolutional_output s) i jj kk (?d ! i ! j ! k) = Inr buf'"
    by (auto simp: set3_def)
  from shaped3_set3[OF buf s3] ok have "pool_ok (s\<lparr>deconvolutional_output := buf'\<rparr>) (c, h, wd) (c, oh, ow)"
    by (simp add: pool_ok_def)
  moreover have "shaped3 (c, oh, ow) (arg_value x buf')"
    using d shaped3_set3[OF _ s3, of "(c, oh, ow)"] by (cases x) simp_all
  ultimately show ?thesis
    using g gx jk s3 by (simp add: unpool_cell_def)
qed

lemma MaxPooling2D_deconvolve_returns:
  assumes ok: "pool_ok self (c, h, wd) (c, oh, ow)"
    and d: "shaped3 (c, oh, ow) (arg_value x (deconvolutional_output self))"
  shows "\<exists>s'. MaxPooling2D_deconvolve self x = Done s' \<and> pool_ok s' (c, h, wd) (c, oh, ow)"
proof -
  let ?P = "\<lambda>s. pool_ok s (c, h, wd) (c, oh, ow) \<and>
              shaped3 (c, oh, ow) (arg_value x (deconvolutional_output s))"
  have "\<exists>s'. MaxPooling2D_deconvolve self x = Done s' \<and> ?P s'"
    unfolding MaxPooling2D_deconvolve_def
  proof (rule for_loop_returns[where P = ?P])
    show "?P self" using ok d by simp
  next
    fix i s1 assume i: "i \<in> set [0..<shape0 (arg_value x (deconvolutional_output self))]" and s1: "?P s1"
    from i d have ic: "i < c" by (simp add: shape0_def shaped3_def)
    from s1 have h1: "shape1 (arg_value x (deconvolutional_output s1)) = oh"
      using shaped3_shape1[of c oh ow] ic by auto
    show "\<exists>s'. for_loop [0..<shape1 (arg_value x (deconvolutional_output s1))] (\<lambda>j s.
               for_loop [0..<shape2 (arg_value x (deconvolutional_output s))] (\<lambda>k s.
                 unpool_cell (arg_value x (deconvolutional_output s)) i j k s) s) s1 = Done s' \<and> ?P s'"
    proof (rule for_loop_returns[where P = ?P, OF _ s1])
      fix j s2 assume j: "j \<in> set [0..<shape1 (arg_value x (deconvolutional_output s1))]" and s2: "?P s2"
      from j h1 have jo: "j < oh" by simp
      from s2 have h2: "shape2 (arg_value x (deconvolutional_output s2)) = ow"
        using shaped3_shape2[of c oh ow] ic jo by auto
      show "\<exists>s'. for_loop [0..<shape2 (arg_value x (deconvolutional_output s2))] (\<lambda>k s.
                 unpool_cell (arg_value x (deconvolutional_output s)) i j k s) s2 = Done s' \<and> ?P s'"
      proof (rule for_loop_returns[where P = ?P, OF _ s2])
        fix k s3 assume k: "k \<in> set [0..<shape2 (arg_value x (deconvolutional_output s2))]" and s3: "?P s3"
        from k h2 have "k < ow" by simp
        from unpool_cell_returns[OF _ _ ic jo this, of s3 h wd x] s3
        show "\<exists>s'. unpool_cell (arg_value x (deconvolutional_output s3)) i j k s3 = Done s' \<and> ?P s'"
          by simp
      qed
    qed
  qed
  then show ?thesis by blast
qed

lemma shaped3_zeros3: "shaped3 d (zeros3 d)"
  by (simp add: shaped3_def shaped2_def zeros3_def zeros2_def list_all_length)

lemma MaxPooling2D_init_ok:
  assumes "input_shape cfg = (n, c, h, wd)" and "output_shape cfg = (n', c, oh, ow)"
    and "0 < h" and "0 < wd"
  shows "pool_ok (MaxPooling2D_init cfg pool pstrides) (c, h, wd) (c, oh, ow)"
  using assms
  by (simp add: pool_ok_def MaxPooling2D_init_def shaped3_zeros3)
     (simp add: shaped3_def shaped2_def zeros3_def zeros2_def indices_in_bounds_def list_all_length)

section \<open>The states a pooling layer reaches\<close>

text \<open>
  The states a pooling layer reaches from its construction when \<^verbatim>\<open>feedforward\<close> is
  called on arrays of the declared input shape only, and \<^verbatim>\<open>deconvolve\<close> on anything.
\<close>

inductive pool_used :: "shape4 keras_config \<Rightarrow> nat \<times> nat \<Rightarrow> nat \<times> nat \<Rightarrow> MaxPooling2D \<Rightarrow> bool"
  for cfg pool pstrides where
  "pool_used cfg pool pstrides (MaxPooling2D_init cfg pool pstrides)"
| "pool_used cfg pool pstrides s \<Longrightarrow> shaped3 (snd (input_shape cfg)) x \<Longrightarrow>
     pool_used cfg pool pstrides (state_of (MaxPooling2D_feedforward s (Array x)))"
| "pool_used cfg pool pstrides s \<Longrightarrow>
     pool_used cfg pool pstrides (state_of (MaxPooling2D_deconvolve s y))"

lemma pool_used_ok:
  assumes "pool_used cfg pool pstrides s"
    and "input_shape cfg = (n, c, h, wd)" and "output_shape cfg = (n', c, oh, ow)"
    and "0 < h" and "0 < wd"
  shows "pool_ok s (c, h, wd) (c, oh, ow)"
  using assms(1)
proof induction
  case 1
  show ?case by (rule MaxPooling2D_init_ok[OF assms(2-5)])
next
  case (2 s x)
  from 2(2) assms(2) have "shaped3 (c, h, wd) x" by simp
  from MaxPooling2D_feedforward_ok[OF 2(3) this] show ?case .
next
  case (3 s y)
  from MaxPooling2D_deconvolve_ok[OF 3(2)] show ?case .
qed

section \<open>Unpooling twice\<close>

text \<open>
  C4. A pooling layer over one channel of two by two cells, pooled to one cell. After a
  first pass that finds the maximum at (0, 0) and unpools the value 5 there, a second pass
  finds the maximum at (1, 1) and unpools 7: the 5 of the first call is still in the
  buffer that the second call returns, since nothing clears it.
\<close>

theorem maxpool_deconvolve_keeps_earlier_writes:
  "(let layer = MaxPooling2D_init
         \<lparr>keras_name = ''pool'', input_shape = (1, 1, 2, 2), output_shape = (1, 1, 1, 1)\<rparr>
         (2, 2) (2, 2);
        s1 = state_of (MaxPooling2D_feedforward layer (Array [[[1, 0], [0, 0]]]));
        s2 = state_of (MaxPooling2D_deconvolve s1 (Array [[[5]]]));
        s3 = state_of (MaxPooling2D_feedforward s2 (Array [[[0, 0], [0, 1]]]))
    in map_outcome deconvolutional_output (MaxPooling2D_deconvolve s3 (Array [[[7]]])))
   = Done [[[5, 0], [0, 7]]]"
  by code_simp


section \<open>Pooling with strides other than the pool size\<close>

text \<open>
  C2. A pooling layer with a pool of two by two and strides of one over one channel of
  four by four cells; Keras declares an output of three by three. The loop bounds and the
  output index are computed from the pool size, not from the strides: the loop also
  visits row 3 and column 3, where only a clipped window is left, the window at position
  \<open>k\<close> goes to output cell \<open>k div 2\<close>, so that later windows overwrite earlier ones, and
  the last row and column of the output are never written. The maxima of the nine full
  windows would be 6, 7, 8, 10, 11, 12, 14, 15, 16.
\<close>

theorem maxpool_feedforward_strides_one:
  "map_outcome (\<lambda>s. (output s, indices s))
     (MaxPooling2D_feedforward
        (MaxPooling2D_init
           \<lparr>keras_name = ''pool'', input_shape = (1, 1, 4, 4), output_shape = (1, 1, 3, 3)\<rparr>
           (2, 2) (1, 1))
        (Array [[[1, 2, 3, 4], [5, 6, 7, 8], [9, 10, 11, 12], [13, 14, 15, 16]]]))
   = Done ([[[11, 12, 0], [15, 16, 0], [0, 0, 0]]],
           [[[(2, 2), (2, 3), (0, 0)], [(3, 2), (3, 3), (0, 0)], [(0, 0), (0, 0), (0, 0)]]])"
  by code_simp

section \<open>The convolution loops\<close>

text \<open>
  A step on a buffer of shape \<open>d\<close> that returns and adds \<open>delta i r c\<close> to every cell
  \<open>(i, r, c)\<close>: the loops of the convolution are such steps, and their sums add up.
\<close>

definition adds :: "nat \<times> nat \<times> nat \<Rightarrow> (tensor3 \<Rightarrow> tensor3 outcome) \<Rightarrow> (nat \<Rightarrow> nat \<Rightarrow> nat \<Rightarrow> real) \<Rightarrow> bool" where
  "adds d step delta =
     (\<forall>out. shaped3 d out \<longrightarrow>
        (\<exists>out'. step out = Done out' \<and> shaped3 d out' \<and>
           (\<forall>i<fst d. \<forall>r<fst (snd d). \<forall>c<snd (snd d).
              out' ! i ! r ! c = out ! i ! r ! c + delta i r c)))"

lemma addsI:
  assumes "\<And>out. shaped3 d out \<Longrightarrow> \<exists>out'. step out = Done out' \<and> shaped3 d out' \<and>
           (\<forall>i<fst d. \<forall>r<fst (snd d). \<forall>c<snd (snd d).
              out' ! i ! r ! c = out ! i ! r ! c + delta i r c)"
  shows "adds d step delta"
  using assms unfolding adds_def by blast

lemma addsD:
  assumes "adds d step delta" and "shaped3 d out"
  obtains out' where "step out = Done out'" and "shaped3 d out'"
    and "\<And>i r c. i < fst d \<Longrightarrow> r < fst (snd d) \<Longrightarrow> c < snd (snd d) \<Longrightarrow>
           out' ! i ! r ! c = out ! i ! r ! c + delta i r c"
  using assms unfolding adds_def by blast

lemma adds_cong:
  assumes "adds d step delta"
    and "\<And>i r c. i < fst d \<Longrightarrow> r < fst (snd d) \<Longrightarrow> c < snd (snd d) \<Longrightarrow> delta i r c = delta' i r c"
  shows "adds d step delta'"
proof (rule addsI)
  fix out :: tensor3 assume "shaped3 d out"
  from addsD[OF assms(1) this] obtain out' where o: "step out = Done out'" "shaped3 d out'"
    "\<And>i r c. i < fst d \<Longrightarrow> r < fst (snd d) \<Longrightarrow> c < snd (snd d) \<Longrightarrow>
           out' ! i ! r ! c = out ! i ! r ! c + delta i r c" by blast
  show "\<exists>out'. step out = Done out' \<and> shaped3 d out' \<and>
           (\<forall>i<fst d. \<forall>r<fst (snd d). \<forall>c<snd (snd d).
              out' ! i ! r ! c = out ! i ! r ! c + delta' i r c)"
    using o assms(2) by (intro exI[of _ out']) simp
qed

lemma adds_for_loop:
  assumes "\<And>x. x \<in> set xs \<Longrightarrow> adds d (body x) (delta x)"
  shows "adds d (for_loop xs body) (\<lambda>i r c. \<Sum>x\<leftarrow>xs. delta x i r c)"
  using assms
proof (induction xs)
  case Nil
  show ?case by (rule addsI) simp
next
  case (Cons x xs)
  have step: "adds d (body x) (delta x)" and rest: "adds d (for_loop xs body) (\<lambda>i r c. \<Sum>x\<leftarrow>xs. delta x i r c)"
    using Cons by auto
  show ?case
  proof (rule addsI)
    fix out :: tensor3 assume "shaped3 d out"
    from addsD[OF step this] obtain o1 where o1: "body x out = Done o1" "shaped3 d o1"
      "\<And>i r c. i < fst d \<Longrightarrow> r < fst (snd d) \<Longrightarrow> c < snd (snd d) \<Longrightarrow>
           o1 ! i ! r ! c = out ! i ! r ! c + delta x i r c" by blast
    from addsD[OF rest o1(2)] obtain o2 where o2: "for_loop xs body o1 = Done o2" "shaped3 d o2"
      "\<And>i r c. i < fst d \<Longrightarrow> r < fst (snd d) \<Longrightarrow> c < snd (snd d) \<Longrightarrow>
           o2 ! i ! r ! c = o1 ! i ! r ! c + (\<Sum>x\<leftarrow>xs. delta x i r c)" by blast
    show "\<exists>out'. for_loop (x # xs) body out = Done out' \<and> shaped3 d out' \<and>
           (\<forall>i<fst d. \<forall>r<fst (snd d). \<forall>c<snd (snd d).
              out' ! i ! r ! c = out ! i ! r ! c + (\<Sum>x\<leftarrow>x # xs. delta x i r c))"
      using o1 o2 by (intro exI[of _ o2]) simp
  qed
qed

lemma adds_then_do:
  assumes "adds d f delta1" and "adds d g delta2"
  shows "adds d (\<lambda>out. then_do (f out) g) (\<lambda>i r c. delta1 i r c + delta2 i r c)"
proof (rule addsI)
  fix out :: tensor3 assume "shaped3 d out"
  from addsD[OF assms(1) this] obtain o1 where o1: "f out = Done o1" "shaped3 d o1"
    "\<And>i r c. i < fst d \<Longrightarrow> r < fst (snd d) \<Longrightarrow> c < snd (snd d) \<Longrightarrow>
           o1 ! i ! r ! c = out ! i ! r ! c + delta1 i r c" by blast
  from addsD[OF assms(2) o1(2)] obtain o2 where o2: "g o1 = Done o2" "shaped3 d o2"
    "\<And>i r c. i < fst d \<Longrightarrow> r < fst (snd d) \<Longrightarrow> c < snd (snd d) \<Longrightarrow>
           o2 ! i ! r ! c = o1 ! i ! r ! c + delta2 i r c" by blast
  show "\<exists>out'. then_do (f out) g = Done out' \<and> shaped3 d out' \<and>
           (\<forall>i<fst d. \<forall>r<fst (snd d). \<forall>c<snd (snd d).
              out' ! i ! r ! c = out ! i ! r ! c + (delta1 i r c + delta2 i r c))"
    using o1 o2 by (intro exI[of _ o2]) (simp add: then_do_def)
qed

lemma py_range_out_dim:
  "0 < st \<Longrightarrow> py_range (Suc n - kd) st = Inr (map (\<lambda>m. m * st) [0..<out_dim n kd st])"
proof -
  assume st: "0 < st"
  have "(Suc n - kd + st - 1) div st = out_dim n kd st"
  proof (cases "n < kd")
    case True
    then have "Suc n - kd + st - 1 = st - 1" by simp
    with st True show ?thesis by (simp add: out_dim_def)
  next
    case False
    then have "Suc n - kd + st - 1 = (n - kd) + st" using st by simp
    then have "(Suc n - kd + st - 1) div st = (n - kd) div st + 1"
      using st by (simp only: div_add_self2)
    with False show ?thesis by (simp add: out_dim_def)
  qed
  with st show ?thesis by (simp add: py_range_def)
qed

lemma sum_list_map2_nth:
  "length xs = n \<Longrightarrow> length ys = n \<Longrightarrow> sum_list (map2 f xs ys) = (\<Sum>a\<leftarrow>[0..<n]. f (xs ! a) (ys ! a))"
proof -
  assume a: "length xs = n" "length ys = n"
  then have "map2 f xs ys = map (\<lambda>a. f (xs ! a) (ys ! a)) [0..<n]"
    by (intro nth_equalityI) auto
  then show ?thesis by simp
qed

lemma shaped2_nth: "shaped2 (p, q) a \<Longrightarrow> r < p \<Longrightarrow> r < length a \<and> length (a ! r) = q"
  by (auto simp: shaped2_def list_all_length)

lemma mul2_same_shape:
  assumes "shaped2 (p, q) a" and "shaped2 (p, q) b"
  shows "mul2 a b = Inr (map2 (map2 (*)) a b)"
proof (cases "p = 0")
  case True
  with assms show ?thesis
    by (simp add: shaped2_def mul2_def shape0_def shape1_def broadcast_dim_def stretch_def)
next
  case False
  with assms have s1: "shape1 a = q" "shape1 b = q"
    by (cases a; cases b; auto simp: shaped2_def shape1_def)+
  have rows: "length ra = q \<and> length rb = q" if "(ra, rb) \<in> set (zip a b)" for ra rb
    using that assms by (auto simp: shaped2_def list_all_iff dest: set_zip_leftD set_zip_rightD)
  have "map2 (\<lambda>ra rb. map2 (*) (stretch q ra) (stretch q rb)) a b = map2 (map2 (*)) a b"
    by (rule map_cong) (auto simp: stretch_def dest: rows)
  with assms s1 show ?thesis
    by (simp add: shaped2_def mul2_def shape0_def broadcast_dim_def stretch_def)
qed

lemma sum_list_concat_rows: "sum_list (concat xss) = (\<Sum>xs\<leftarrow>xss. sum_list xs)"
  by (induction xss) auto

lemma asum_map2:
  assumes "shaped2 (p, q) a" and "shaped2 (p, q) b"
  shows "asum (map2 (map2 (*)) a b) = (\<Sum>r\<leftarrow>[0..<p]. \<Sum>c\<leftarrow>[0..<q]. a ! r ! c * b ! r ! c)"
proof -
  from assms have l: "length a = p" "length b = p" by (auto simp: shaped2_def)
  have "asum (map2 (map2 (*)) a b) = sum_list (map2 (\<lambda>ra rb. sum_list (map2 (*) ra rb)) a b)"
    by (simp add: asum_def sum_list_concat_rows o_def split_def)
  also have "\<dots> = (\<Sum>r\<leftarrow>[0..<p]. sum_list (map2 (*) (a ! r) (b ! r)))"
    by (rule sum_list_map2_nth[OF l])
  also have "\<dots> = (\<Sum>r\<leftarrow>[0..<p]. \<Sum>c\<leftarrow>[0..<q]. a ! r ! c * b ! r ! c)"
    by (rule arg_cong[where f = sum_list], rule map_cong)
       (use assms in \<open>auto intro!: sum_list_map2_nth dest: shaped2_nth\<close>)
  finally show ?thesis .
qed

lemma out_dim_fits: "n < out_dim h kd st \<Longrightarrow> n * st + kd \<le> h"
proof -
  assume a: "n < out_dim h kd st"
  then have k: "kd \<le> h" and "n \<le> (h - kd) div st"
    by (auto simp: out_dim_def split: if_splits)
  then have "n * st \<le> (h - kd) div st * st" by simp
  also have "\<dots> \<le> h - kd" by simp
  finally show ?thesis using k by simp
qed

lemma shaped4_nth:
  assumes "shaped4 (p, q, cin, cout) wt" and "a < p" and "b < q" and "j < cin"
  shows "a < length wt \<and> b < length (wt ! a) \<and> j < length (wt ! a ! b) \<and> length (wt ! a ! b ! j) = cout
         \<and> length (wt ! a) = q"
  using assms by (auto simp: shaped4_def shaped3_def shaped2_def list_all_length)

lemma kernel_slice_ok:
  assumes "shaped4 (p, q, cin, cout) wt" and "j < cin" and "i < cout"
  shows "\<exists>ker. kernel_slice wt j i = Inr ker \<and> shaped2 (p, q) ker \<and>
           (\<forall>a<p. \<forall>b<q. ker ! a ! b = wt ! a ! b ! j ! i)"
proof -
  have all: "list_all (list_all (\<lambda>cell. j < length cell \<and> i < length (cell ! j))) wt"
    using assms by (auto simp: shaped4_def shaped3_def shaped2_def list_all_length)
  have "shaped2 (p, q) (map (map (\<lambda>cell. cell ! j ! i)) wt)"
    using assms(1) by (auto simp: shaped4_def shaped3_def shaped2_def list_all_length)
  moreover have "map (map (\<lambda>cell. cell ! j ! i)) wt ! a ! b = wt ! a ! b ! j ! i" if "a < p" "b < q" for a b
    using shaped4_nth[OF assms(1) that assms(2)] by simp
  ultimately show ?thesis using all by (simp add: kernel_slice_def)
qed

lemma window_ok:
  assumes "shaped3 (c, h, wd) x" and "j < c" and "k + p \<le> h" and "l + q \<le> wd"
  shows "\<exists>win. window x j k p l q = Inr win \<and> shaped2 (p, q) win \<and>
           (\<forall>a<p. \<forall>b<q. win ! a ! b = x ! j ! (k + a) ! (l + b))"
proof -
  from assms(1,2) have j: "j < length x" and lj: "length (x ! j) = h"
    and rows: "\<And>r. r < h \<Longrightarrow> length (x ! j ! r) = wd"
    by (auto simp: shaped3_def shaped2_def list_all_length)
  let ?win = "map (\<lambda>row. take q (drop l row)) (take p (drop k (x ! j)))"
  have len: "length ?win = p" using lj assms(3) by simp
  have cell: "?win ! a = take q (drop l (x ! j ! (k + a)))" if "a < p" for a
    using that lj assms(3) by simp
  have "shaped2 (p, q) ?win"
    unfolding shaped2_def list_all_length fst_conv snd_conv
    using len cell rows assms(3,4) by auto
  moreover have "?win ! a ! b = x ! j ! (k + a) ! (l + b)" if "a < p" "b < q" for a b
    using cell[OF that(1)] that rows[of "k + a"] assms(3,4) by simp
  ultimately show ?thesis using j by (auto simp: window_def)
qed

lemma set3_ok:
  assumes "shaped3 (n, h, wd) a" and "i < n" and "r < h" and "c < wd"
  shows "\<exists>a'. set3 a i r c v = Inr a' \<and> shaped3 (n, h, wd) a' \<and>
          (\<forall>i'<n. \<forall>r'<h. \<forall>c'<wd. a' ! i' ! r' ! c' = (if i' = i \<and> r' = r \<and> c' = c then v else a ! i' ! r' ! c'))"
proof -
  from shaped3_nth[OF assms(1,2,3)] assms(4)
  have s: "set3 a i r c v = Inr (a[i := (a ! i)[r := (a ! i ! r)[c := v]]])"
    by (simp add: set3_def)
  from shaped3_set3[OF assms(1) s] have sh: "shaped3 (n, h, wd) (a[i := (a ! i)[r := (a ! i ! r)[c := v]]])" .
  have "a[i := (a ! i)[r := (a ! i ! r)[c := v]]] ! i' ! r' ! c' = (if i' = i \<and> r' = r \<and> c' = c then v else a ! i' ! r' ! c')"
    if "i' < n" "r' < h" "c' < wd" for i' r' c'
    using shaped3_nth[OF assms(1) that(1,2)] shaped3_nth[OF assms(1,2,3)] that assms
    by (auto simp: nth_list_update)
  with s sh show ?thesis by auto
qed

lemma conv_cell_adds:
  assumes ok: "conv_ok self (cin, h, wd) (cout, oh, ow)" and x: "shaped3 (c', h', w') x"
    and c': "c' \<le> cin" and i: "i < cout" and j: "j < c'"
    and n: "n < out_dim h' (fst (kernel_size self)) (fst (strides self))"
    and m: "m < out_dim w' (snd (kernel_size self)) (snd (strides self))"
    and fits: "out_dim h' (fst (kernel_size self)) (fst (strides self)) \<le> oh"
      "out_dim w' (snd (kernel_size self)) (snd (strides self)) \<le> ow"
  shows "adds (cout, oh, ow)
           (conv_cell self x i j (n * fst (strides self)) (m * snd (strides self)))
           (\<lambda>i' r c. if i' = i \<and> r = n \<and> c = m
              then window_sum x (conv_w self) (kernel_size self) j i (n * fst (strides self)) (m * snd (strides self))
              else 0)"
proof (rule addsI)
  fix out :: tensor3 assume out: "shaped3 (cout, oh, ow) out"
  let ?p = "fst (kernel_size self)" and ?q = "snd (kernel_size self)"
  let ?k = "n * fst (strides self)" and ?l = "m * snd (strides self)"
  from ok have st: "0 < fst (strides self)" "0 < snd (strides self)"
    and wt: "shaped4 (?p, ?q, cin, cout) (conv_w self)"
    by (auto simp: conv_ok_def)
  from n fits m have nm: "n < oh" "m < ow" by auto
  have fl: "py_floordiv ?k (fst (strides self)) = Inr n" "py_floordiv ?l (snd (strides self)) = Inr m"
    using st by (auto simp: py_floordiv_def)
  from shaped3_nth[OF out i nm(1)] nm(2) have g: "get3 out i n m = Inr (out ! i ! n ! m)"
    by (simp add: get3_def)
  from window_ok[OF x j out_dim_fits[OF n] out_dim_fits[OF m]]
  obtain win where win: "window x j ?k ?p ?l ?q = Inr win" "shaped2 (?p, ?q) win"
    "\<And>a b. a < ?p \<Longrightarrow> b < ?q \<Longrightarrow> win ! a ! b = x ! j ! (?k + a) ! (?l + b)" by blast
  from kernel_slice_ok[OF wt _ i, of j] j c'
  obtain ker where ker: "kernel_slice (conv_w self) j i = Inr ker" "shaped2 (?p, ?q) ker"
    "\<And>a b. a < ?p \<Longrightarrow> b < ?q \<Longrightarrow> ker ! a ! b = conv_w self ! a ! b ! j ! i" by force
  have mul: "mul2 win ker = Inr (map2 (map2 (*)) win ker)"
    by (rule mul2_same_shape[OF win(2) ker(2)])
  have "asum (map2 (map2 (*)) win ker) = (\<Sum>a\<leftarrow>[0..<?p]. \<Sum>b\<leftarrow>[0..<?q]. win ! a ! b * ker ! a ! b)"
    by (rule asum_map2[OF win(2) ker(2)])
  also have "\<dots> = window_sum x (conv_w self) (kernel_size self) j i ?k ?l"
    unfolding window_sum_def
    by (intro arg_cong[where f = sum_list] map_cong refl) (simp add: win(3) ker(3))
  finally have sum: "asum (map2 (map2 (*)) win ker) = window_sum x (conv_w self) (kernel_size self) j i ?k ?l" .
  from set3_ok[OF out i nm, of "out ! i ! n ! m + window_sum x (conv_w self) (kernel_size self) j i ?k ?l"]
  obtain out' where out': "set3 out i n m (out ! i ! n ! m + window_sum x (conv_w self) (kernel_size self) j i ?k ?l) = Inr out'"
    "shaped3 (cout, oh, ow) out'"
    "\<And>i' r' c'. i' < cout \<Longrightarrow> r' < oh \<Longrightarrow> c' < ow \<Longrightarrow> out' ! i' ! r' ! c' =
       (if i' = i \<and> r' = n \<and> c' = m then out ! i ! n ! m + window_sum x (conv_w self) (kernel_size self) j i ?k ?l
        else out ! i' ! r' ! c')" by blast
  have "conv_cell self x i j ?k ?l out = Done out'"
    by (simp add: conv_cell_def fl g win(1) ker(1) mul sum out'(1))
  with out'(2,3) show "\<exists>out'. conv_cell self x i j ?k ?l out = Done out' \<and> shaped3 (cout, oh, ow) out' \<and>
      (\<forall>i'<fst (cout, oh, ow). \<forall>r<fst (snd (cout, oh, ow)). \<forall>c<snd (snd (cout, oh, ow)).
         out' ! i' ! r ! c = out ! i' ! r ! c +
           (if i' = i \<and> r = n \<and> c = m
            then window_sum x (conv_w self) (kernel_size self) j i ?k ?l else 0))"
    by (intro exI[of _ out']) auto
qed

lemma for_loop_map: "for_loop (map f xs) body s = for_loop xs (\<lambda>x. body (f x)) s"
  by (induction xs arbitrary: s) (auto split: outcome.splits)

lemma sum_list_pick:
  "(\<Sum>m\<leftarrow>[0..<n]. if P \<and> c = m then f m else 0) = (if P \<and> c < n then f c else (0::real))"
  by (induction n) auto

lemma sum_list_pick1:
  "(\<Sum>m\<leftarrow>[0..<n]. if c = m then f m else 0) = (if c < n then f c else (0::real))"
  using sum_list_pick[where P = True] by simp

lemma sum_list_pick3:
  "(\<Sum>m\<leftarrow>[0..<n]. if A \<and> B \<and> c = m then f m else 0) = (if A \<and> B \<and> c < n then f c else (0::real))"
  using sum_list_pick[where P = "A \<and> B"] by simp

lemma out_dim_pos: "n < out_dim h kd st \<Longrightarrow> 0 < kd \<Longrightarrow> 0 < h"
  by (auto simp: out_dim_def split: if_splits)

lemma conv_cols_adds:
  assumes ok: "conv_ok self (cin, h, wd) (cout, oh, ow)" and x: "shaped3 (c', h', w') x"
    and c': "c' \<le> cin" and i: "i < cout" and j: "j < c'"
    and n: "n < out_dim h' (fst (kernel_size self)) (fst (strides self))"
    and fits: "out_dim h' (fst (kernel_size self)) (fst (strides self)) \<le> oh"
      "out_dim w' (snd (kernel_size self)) (snd (strides self)) \<le> ow"
  shows "adds (cout, oh, ow)
           (\<lambda>out. attempt (py_range (shape2 x + 1 - snd (kernel_size self)) (snd (strides self))) out (\<lambda>cols.
                    for_loop cols (\<lambda>l out. conv_cell self x i j (n * fst (strides self)) l out) out))
           (\<lambda>i' r c. if i' = i \<and> r = n \<and> c < out_dim w' (snd (kernel_size self)) (snd (strides self))
              then window_sum x (conv_w self) (kernel_size self) j i (r * fst (strides self)) (c * snd (strides self))
              else 0)"
proof -
  from ok have st: "0 < snd (strides self)" and kp: "0 < fst (kernel_size self)"
    by (auto simp: conv_ok_def)
  from j out_dim_pos[OF n kp] have sh: "shape2 x = w'"
    using shaped3_shape2[OF x] by simp
  let ?nw = "out_dim w' (snd (kernel_size self)) (snd (strides self))"
  have "adds (cout, oh, ow)
      (for_loop [0..<?nw] (\<lambda>m. conv_cell self x i j (n * fst (strides self)) (m * snd (strides self))))
      (\<lambda>i' r c. \<Sum>m\<leftarrow>[0..<?nw]. if i' = i \<and> r = n \<and> c = m
              then window_sum x (conv_w self) (kernel_size self) j i (n * fst (strides self)) (m * snd (strides self))
              else 0)"
    by (rule adds_for_loop) (use conv_cell_adds[OF ok x c' i j n _ fits] in auto)
  then have "adds (cout, oh, ow)
      (for_loop [0..<?nw] (\<lambda>m. conv_cell self x i j (n * fst (strides self)) (m * snd (strides self))))
      (\<lambda>i' r c. if i' = i \<and> r = n \<and> c < ?nw
              then window_sum x (conv_w self) (kernel_size self) j i (r * fst (strides self)) (c * snd (strides self))
              else 0)"
    by (rule adds_cong) (simp add: sum_list_pick3)
  then show ?thesis
    by (simp add: sh py_range_out_dim[OF st] for_loop_map)
qed

lemma conv_rows_adds:
  assumes ok: "conv_ok self (cin, h, wd) (cout, oh, ow)" and x: "shaped3 (c', h', w') x"
    and c': "c' \<le> cin" and i: "i < cout" and j: "j < c'"
    and fits: "out_dim h' (fst (kernel_size self)) (fst (strides self)) \<le> oh"
      "out_dim w' (snd (kernel_size self)) (snd (strides self)) \<le> ow"
  shows "adds (cout, oh, ow)
           (\<lambda>out. attempt (py_range (shape1 x + 1 - fst (kernel_size self)) (fst (strides self))) out (\<lambda>rows.
              for_loop rows (\<lambda>k out.
                attempt (py_range (shape2 x + 1 - snd (kernel_size self)) (snd (strides self))) out (\<lambda>cols.
                for_loop cols (\<lambda>l out. conv_cell self x i j k l out) out)) out))
           (\<lambda>i' r c. if i' = i \<and> r < out_dim h' (fst (kernel_size self)) (fst (strides self))
                          \<and> c < out_dim w' (snd (kernel_size self)) (snd (strides self))
              then window_sum x (conv_w self) (kernel_size self) j i (r * fst (strides self)) (c * snd (strides self))
              else 0)"
proof -
  from ok have st: "0 < fst (strides self)" by (auto simp: conv_ok_def)
  from j have sh: "shape1 x = h'" using shaped3_shape1[OF x] by simp
  let ?nh = "out_dim h' (fst (kernel_size self)) (fst (strides self))"
  let ?nw = "out_dim w' (snd (kernel_size self)) (snd (strides self))"
  let ?W = "\<lambda>r c. window_sum x (conv_w self) (kernel_size self) j i (r * fst (strides self)) (c * snd (strides self))"
  have "adds (cout, oh, ow)
      (for_loop [0..<?nh] (\<lambda>n out.
         attempt (py_range (shape2 x + 1 - snd (kernel_size self)) (snd (strides self))) out (\<lambda>cols.
           for_loop cols (\<lambda>l out. conv_cell self x i j (n * fst (strides self)) l out) out)))
      (\<lambda>i' r c. \<Sum>n\<leftarrow>[0..<?nh]. if i' = i \<and> r = n \<and> c < ?nw then ?W r c else 0)"
    by (rule adds_for_loop) (use conv_cols_adds[OF ok x c' i j _ fits] in auto)
  then have "adds (cout, oh, ow)
      (for_loop [0..<?nh] (\<lambda>n out.
         attempt (py_range (shape2 x + 1 - snd (kernel_size self)) (snd (strides self))) out (\<lambda>cols.
           for_loop cols (\<lambda>l out. conv_cell self x i j (n * fst (strides self)) l out) out)))
      (\<lambda>i' r c. if i' = i \<and> r < ?nh \<and> c < ?nw then ?W r c else 0)"
  proof (rule adds_cong)
    fix i' r c
    have "(\<Sum>n\<leftarrow>[0..<?nh]. if i' = i \<and> r = n \<and> c < ?nw then ?W r c else 0)
        = (\<Sum>n\<leftarrow>[0..<?nh]. if (i' = i \<and> c < ?nw) \<and> r = n then ?W r c else 0)"
      by (intro arg_cong[where f = sum_list] map_cong refl) auto
    also have "\<dots> = (if (i' = i \<and> c < ?nw) \<and> r < ?nh then ?W r c else 0)"
      by (rule sum_list_pick)
    finally show "(\<Sum>n\<leftarrow>[0..<?nh]. if i' = i \<and> r = n \<and> c < ?nw then ?W r c else 0)
        = (if i' = i \<and> r < ?nh \<and> c < ?nw then ?W r c else 0)" by auto
  qed
  then show ?thesis
    by (simp add: sh py_range_out_dim[OF st] for_loop_map)
qed

lemma add_bias_adds:
  assumes ok: "conv_ok self (cin, h, wd) (cout, oh, ow)" and i: "i < cout"
  shows "adds (cout, oh, ow) (add_bias self i) (\<lambda>i' r c. if i' = i then conv_b self ! i else 0)"
proof (rule addsI)
  fix out :: tensor3 assume out: "shaped3 (cout, oh, ow) out"
  from ok i have b: "get1 (conv_b self) i = Inr (conv_b self ! i)"
    by (simp add: conv_ok_def get1_def)
  from out i have o: "get1 out i = Inr (out ! i)" by (simp add: get1_def shaped3_def)
  let ?out' = "out[i := map (map (\<lambda>v. v + conv_b self ! i)) (out ! i)]"
  have r: "add_bias self i out = Done ?out'"
    by (simp add: add_bias_def b o)
  have sh: "shaped3 (cout, oh, ow) ?out'"
    using out i by (auto simp: shaped3_def shaped2_def list_all_length nth_list_update)
  have "?out' ! i' ! r ! c = out ! i' ! r ! c + (if i' = i then conv_b self ! i else 0)"
    if "i' < cout" "r < oh" "c < ow" for i' r c
    using shaped3_nth[OF out that(1,2)] that by (auto simp: nth_list_update)
  with r sh show "\<exists>out'. add_bias self i out = Done out' \<and> shaped3 (cout, oh, ow) out' \<and>
      (\<forall>i'<fst (cout, oh, ow). \<forall>r<fst (snd (cout, oh, ow)). \<forall>c<snd (snd (cout, oh, ow)).
         out' ! i' ! r ! c = out ! i' ! r ! c + (if i' = i then conv_b self ! i else 0))"
    by (intro exI[of _ ?out']) simp
qed

lemma sum_list_const_if:
  "(\<Sum>j\<leftarrow>xs. if P then f j else 0) = (if P then (\<Sum>j\<leftarrow>xs. f j) else (0::real))"
  by (induction xs) auto

lemma conv_channels_adds:
  assumes ok: "conv_ok self (cin, h, wd) (cout, oh, ow)" and x: "shaped3 (c', h', w') x"
    and c': "c' \<le> cin" and pos: "0 < c'" "0 < h'"
    and fits: "out_dim h' (fst (kernel_size self)) (fst (strides self)) \<le> oh"
      "out_dim w' (snd (kernel_size self)) (snd (strides self)) \<le> ow"
  shows "adds (cout, oh, ow)
           (for_loop [0..<cout] (\<lambda>i out.
              then_do
                (for_loop [0..<shape0 x] (\<lambda>j out.
                   attempt (py_range (shape1 x + 1 - fst (kernel_size self)) (fst (strides self))) out (\<lambda>rows.
                   for_loop rows (\<lambda>k out.
                     attempt (py_range (shape2 x + 1 - snd (kernel_size self)) (snd (strides self))) out (\<lambda>cols.
                     for_loop cols (\<lambda>l out. conv_cell self x i j k l out) out)) out)) out)
                (add_bias self i)))
           (conv_value self x)"
proof -
  let ?nh = "out_dim h' (fst (kernel_size self)) (fst (strides self))"
  let ?nw = "out_dim w' (snd (kernel_size self)) (snd (strides self))"
  let ?W = "\<lambda>j i r c. window_sum x (conv_w self) (kernel_size self) j i (r * fst (strides self)) (c * snd (strides self))"
  let ?body = "\<lambda>i j out. attempt (py_range (shape1 x + 1 - fst (kernel_size self)) (fst (strides self))) out (\<lambda>rows.
                   for_loop rows (\<lambda>k out.
                     attempt (py_range (shape2 x + 1 - snd (kernel_size self)) (snd (strides self))) out (\<lambda>cols.
                     for_loop cols (\<lambda>l out. conv_cell self x i j k l out) out)) out)"
  from x pos have sh: "shape0 x = c'" "shape1 x = h'" "shape2 x = w'"
    using shaped3_shape1[OF x] shaped3_shape2[OF x] by (auto simp: shape0_def shaped3_def)
  have inner: "adds (cout, oh, ow) (for_loop [0..<shape0 x] (?body i))
      (\<lambda>i' r c. \<Sum>j\<leftarrow>[0..<c']. if i' = i \<and> r < ?nh \<and> c < ?nw then ?W j i r c else 0)" if "i < cout" for i
    unfolding sh(1)
    by (rule adds_for_loop) (use conv_rows_adds[OF ok x c' that _ fits] in auto)
  have step: "adds (cout, oh, ow) (\<lambda>out. then_do (for_loop [0..<shape0 x] (?body i) out) (add_bias self i))
      (\<lambda>i' r c. (\<Sum>j\<leftarrow>[0..<c']. if i' = i \<and> r < ?nh \<and> c < ?nw then ?W j i r c else 0)
                 + (if i' = i then conv_b self ! i else 0))" if "i < cout" for i
    by (rule adds_then_do[OF inner[OF that] add_bias_adds[OF ok that]])
  have "adds (cout, oh, ow)
      (for_loop [0..<cout] (\<lambda>i out. then_do (for_loop [0..<shape0 x] (?body i) out) (add_bias self i)))
      (\<lambda>i' r c. \<Sum>i\<leftarrow>[0..<cout]. (\<Sum>j\<leftarrow>[0..<c']. if i' = i \<and> r < ?nh \<and> c < ?nw then ?W j i r c else 0)
                 + (if i' = i then conv_b self ! i else 0))"
    by (rule adds_for_loop) (use step in auto)
  then show ?thesis
  proof (rule adds_cong)
    fix i' r c assume b: "i' < fst (cout, oh, ow)"
    have "(\<Sum>i\<leftarrow>[0..<cout]. (\<Sum>j\<leftarrow>[0..<c']. if i' = i \<and> r < ?nh \<and> c < ?nw then ?W j i r c else 0)
                 + (if i' = i then conv_b self ! i else 0))
        = (\<Sum>i\<leftarrow>[0..<cout]. if i' = i then (if r < ?nh \<and> c < ?nw then (\<Sum>j\<leftarrow>[0..<c']. ?W j i r c) else 0) + conv_b self ! i else 0)"
      by (intro arg_cong[where f = sum_list] map_cong refl) (auto simp: sum_list_const_if)
    also have "\<dots> = (if i' < cout then (if r < ?nh \<and> c < ?nw then (\<Sum>j\<leftarrow>[0..<c']. ?W j i' r c) else 0) + conv_b self ! i' else 0)"
      by (rule sum_list_pick1)
    finally show "(\<Sum>i\<leftarrow>[0..<cout]. (\<Sum>j\<leftarrow>[0..<c']. if i' = i \<and> r < ?nh \<and> c < ?nw then ?W j i r c else 0)
                 + (if i' = i then conv_b self ! i else 0)) = conv_value self x i' r c"
      using b by (simp add: conv_value_def sh)
  qed
qed

lemma shaped3_tabulate3: "shaped3 d (tabulate3 d f)"
  by (simp add: shaped3_def shaped2_def tabulate3_def list_all_length)

lemma tabulate3_nth:
  "i < fst d \<Longrightarrow> r < fst (snd d) \<Longrightarrow> c < snd (snd d) \<Longrightarrow> tabulate3 d f ! i ! r ! c = f i r c"
  by (simp add: tabulate3_def)

lemma shaped3_ext:
  assumes a: "shaped3 (n, h, wd) a" and b: "shaped3 (n, h, wd) b"
    and eq: "\<And>i r c. i < n \<Longrightarrow> r < h \<Longrightarrow> c < wd \<Longrightarrow> a ! i ! r ! c = b ! i ! r ! c"
  shows "a = b"
proof (rule nth_equalityI)
  show "length a = length b" using a b by (simp add: shaped3_def)
next
  fix i assume "i < length a"
  then have i: "i < n" using a by (simp add: shaped3_def)
  show "a ! i = b ! i"
  proof (rule nth_equalityI)
    show "length (a ! i) = length (b ! i)"
      using a b i by (simp add: shaped3_def shaped2_def list_all_length)
  next
    fix r assume "r < length (a ! i)"
    then have r: "r < h" using a i by (simp add: shaped3_def shaped2_def list_all_length)
    show "a ! i ! r = b ! i ! r"
    proof (rule nth_equalityI)
      show "length (a ! i ! r) = length (b ! i ! r)"
        using shaped3_nth[OF a i r] shaped3_nth[OF b i r] by simp
    next
      fix c assume "c < length (a ! i ! r)"
      then have "c < wd" using shaped3_nth[OF a i r] by simp
      then show "a ! i ! r ! c = b ! i ! r ! c" using eq i r by simp
    qed
  qed
qed

lemma shaped3_fill0: "shaped3 d a \<Longrightarrow> shaped3 d (fill0 a)"
  by (simp add: shaped3_def shaped2_def fill0_def list_all_length)

lemma fill0_nth:
  "shaped3 (n, h, wd) a \<Longrightarrow> i < n \<Longrightarrow> r < h \<Longrightarrow> c < wd \<Longrightarrow> fill0 a ! i ! r ! c = 0"
  using shaped3_nth[of n h wd a i r] by (simp add: fill0_def)

lemma sequence_err_map2:
  assumes "length bs = length rs" and "\<And>b r. (b, r) \<in> set (zip bs rs) \<Longrightarrow> f b r = Inr r"
  shows "sequence_err (map2 f bs rs) = Inr rs"
  using assms by (induction bs rs rule: list_induct2) auto

lemma fit_same: "length xs = n \<Longrightarrow> fit n xs = Inr xs"
  by (simp add: fit_def)

lemma fit2_same:
  assumes "shaped2 d b" and "shaped2 d v"
  shows "fit2 b v = Inr v"
proof -
  from assms have l: "length b = length v" by (simp add: shaped2_def)
  have "fit (length rb) rv = Inr rv" if "(rb, rv) \<in> set (zip b v)" for rb rv
  proof -
    from that have "rb \<in> set b" "rv \<in> set v" by (auto dest: set_zip_leftD set_zip_rightD)
    with assms have "length rv = length rb" by (simp add: shaped2_def list_all_iff)
    then show ?thesis by (simp add: fit_def)
  qed
  then have "sequence_err (map2 (\<lambda>b r. fit (length b) r) b v) = Inr v"
    by (intro sequence_err_map2[OF l])
  with l show ?thesis by (simp add: fit2_def fit_def)
qed

lemma fit3_same:
  assumes "shaped3 d b" and "shaped3 d v"
  shows "fit3 b v = Inr v"
proof -
  from assms have l: "length b = length v" by (simp add: shaped3_def)
  have "fit2 cb cv = Inr cv" if "(cb, cv) \<in> set (zip b v)" for cb cv
  proof -
    from that have "cb \<in> set b" "cv \<in> set v" by (auto dest: set_zip_leftD set_zip_rightD)
    with assms have "shaped2 (snd d) cb" "shaped2 (snd d) cv" by (simp_all add: shaped3_def list_all_iff)
    then show ?thesis by (rule fit2_same)
  qed
  then have "sequence_err (map2 fit2 b v) = Inr v"
    by (intro sequence_err_map2[OF l])
  with l show ?thesis by (simp add: fit3_def fit_def)
qed

lemma Conv2D_feedforward_general:
  assumes ok: "conv_ok self (cin, h, wd) (cout, oh, ow)" and x: "shaped3 (c', h', w') x"
    and c': "c' \<le> cin" and pos: "0 < c'" "0 < h'"
    and fits: "out_dim h' (fst (kernel_size self)) (fst (strides self)) \<le> oh"
      "out_dim w' (snd (kernel_size self)) (snd (strides self)) \<le> ow"
    and act: "keeps_shape (cout, oh, ow) (conv_activation self)"
  shows "Conv2D_feedforward self (Array x) =
           Done (self\<lparr>output := activate (conv_activation self) (tabulate3 (cout, oh, ow) (conv_value self x))\<rparr>)"
proof -
  define loops where "loops = for_loop [0..<cout] (\<lambda>i out.
              then_do
                (for_loop [0..<shape0 x] (\<lambda>j out.
                   attempt (py_range (shape1 x + 1 - fst (kernel_size self)) (fst (strides self))) out (\<lambda>rows.
                   for_loop rows (\<lambda>k out.
                     attempt (py_range (shape2 x + 1 - snd (kernel_size self)) (snd (strides self))) out (\<lambda>cols.
                     for_loop cols (\<lambda>l out. conv_cell self x i j k l out) out)) out)) out)
                (add_bias self i))"
  have ad: "adds (cout, oh, ow) loops (conv_value self x)"
    unfolding loops_def by (rule conv_channels_adds[OF ok x c' pos fits])
  from ok have out: "shaped3 (cout, oh, ow) (output self)" by (simp add: conv_ok_def)
  then have s0: "shape0 (output self) = cout" by (simp add: shape0_def shaped3_def)
  from addsD[OF ad shaped3_fill0[OF out]]
  obtain out' where o: "loops (fill0 (output self)) = Done out'"
    and sh: "shaped3 (cout, oh, ow) out'"
    and cells: "\<And>i r c. i < fst (cout, oh, ow) \<Longrightarrow> r < fst (snd (cout, oh, ow)) \<Longrightarrow> c < snd (snd (cout, oh, ow)) \<Longrightarrow>
        out' ! i ! r ! c = fill0 (output self) ! i ! r ! c + conv_value self x i r c"
    by blast
  have "out' = tabulate3 (cout, oh, ow) (conv_value self x)"
    by (rule shaped3_ext[OF sh shaped3_tabulate3])
       (simp add: cells fill0_nth[OF out] tabulate3_nth)
  with o have l: "loops (fill0 (output self)) = Done (tabulate3 (cout, oh, ow) (conv_value self x))"
    by simp
  from act have "shaped3 (cout, oh, ow) (activate (conv_activation self) (tabulate3 (cout, oh, ow) (conv_value self x)))"
    by (simp add: keeps_shape_def shaped3_tabulate3)
  from fit3_same[OF shaped3_tabulate3 this]
  have f: "fit3 (tabulate3 (cout, oh, ow) (conv_value self x))
             (activate (conv_activation self) (tabulate3 (cout, oh, ow) (conv_value self x)))
           = Inr (activate (conv_activation self) (tabulate3 (cout, oh, ow) (conv_value self x)))" .
  have "Conv2D_feedforward self (Array x) = map_outcome (\<lambda>out. self\<lparr>output := out\<rparr>)
       (then_do (loops (fill0 (output self))) (\<lambda>out. attempt (fit3 out (activate (conv_activation self) out)) out Done))"
    unfolding Conv2D_feedforward_def loops_def s0 arg_value.simps ..
  also have "\<dots> = Done (self\<lparr>output := activate (conv_activation self) (tabulate3 (cout, oh, ow) (conv_value self x))\<rparr>)"
    unfolding l by (simp add: then_do_def f)
  finally show ?thesis .
qed

section \<open>Conv2D.feedforward\<close>

text \<open>
  C1, as the code has it. For a convolution layer built for inputs of shape
  \<open>(cin, h, wd)\<close> and outputs of shape \<open>(cout, oh, ow)\<close>, where the declared output has
  room for every window position, and an input of the declared shape that is an array of
  its own, not the layer's output buffer, feedforward returns; the output buffer then
  holds the activation applied to the tensor of the declared output shape whose cell
  \<open>(i, r, c)\<close> is the bias of channel \<open>i\<close> plus, where \<open>(r, c)\<close> is a window position, the
  sum over the input channels of the window sums. The size of the result is the declared
  one: it is \<open>floor((input_dim - kernel_dim) / stride) + 1\<close> only if the layer was declared
  so, and the cells past the last window position hold the activation of the bias alone.
\<close>

theorem Conv2D_feedforward_cells:
  assumes "conv_ok self (cin, h, wd) (cout, oh, ow)" and "shaped3 (cin, h, wd) x"
    and "0 < cin" and "0 < h"
    and "out_dim h (fst (kernel_size self)) (fst (strides self)) \<le> oh"
    and "out_dim wd (snd (kernel_size self)) (snd (strides self)) \<le> ow"
    and "keeps_shape (cout, oh, ow) (conv_activation self)"
  shows "Conv2D_feedforward self (Array x) =
           Done (self\<lparr>output := activate (conv_activation self) (tabulate3 (cout, oh, ow) (conv_value self x))\<rparr>)"
  by (rule Conv2D_feedforward_general[OF assms(1,2) order_refl assms(3-7)])

text \<open>
  One channel of four by four ones, one kernel of two by two ones, stride 1, bias 0 and
  the identity as activation: every cell of the three by three output is 4.
\<close>

definition conv_example :: Conv2D where
  "conv_example =
     \<lparr>name = ''conv'', output = zeros3 (1, 3, 3),
      conv_w = [[[[1]], [[1]]], [[[1]], [[1]]]], conv_b = [0], conv_activation = Returns_argument,
      kernel_size = (2, 2), strides = (1, 1), deconv_output = zeros3 (1, 4, 4)\<rparr>"

theorem Conv2D_feedforward_cells_witness:
  "conv_ok conv_example (1, 4, 4) (1, 3, 3) \<and>
   shaped3 (1, 4, 4) ([[[1, 1, 1, 1], [1, 1, 1, 1], [1, 1, 1, 1], [1, 1, 1, 1]]] :: tensor3) \<and>
   out_dim 4 (fst (kernel_size conv_example)) (fst (strides conv_example)) \<le> 3 \<and>
   out_dim 4 (snd (kernel_size conv_example)) (snd (strides conv_example)) \<le> 3 \<and>
   keeps_shape (1, 3, 3) (conv_activation conv_example) \<and>
   Conv2D_feedforward conv_example (Array [[[1, 1, 1, 1], [1, 1, 1, 1], [1, 1, 1, 1], [1, 1, 1, 1]]]) =
     Done (conv_example\<lparr>output := [[[4, 4, 4], [4, 4, 4], [4, 4, 4]]]\<rparr>)"
proof -
  have ok: "conv_ok conv_example (1, 4, 4) (1, 3, 3)"
    by code_simp
  have x: "shaped3 (1, 4, 4) ([[[1, 1, 1, 1], [1, 1, 1, 1], [1, 1, 1, 1], [1, 1, 1, 1]]] :: tensor3)"
    by code_simp
  have d1: "out_dim 4 (fst (kernel_size conv_example)) (fst (strides conv_example)) \<le> 3"
    by code_simp
  have d2: "out_dim 4 (snd (kernel_size conv_example)) (snd (strides conv_example)) \<le> 3"
    by code_simp
  have k: "keeps_shape (1, 3, 3) (conv_activation conv_example)"
    by (simp add: conv_example_def keeps_shape_def)
  have v: "activate (conv_activation conv_example) (tabulate3 (1, 3, 3)
             (conv_value conv_example [[[1, 1, 1, 1], [1, 1, 1, 1], [1, 1, 1, 1], [1, 1, 1, 1]]]))
           = [[[4, 4, 4], [4, 4, 4], [4, 4, 4]]]"
    by code_simp
  from Conv2D_feedforward_cells[OF ok x _ _ d1 d2 k] v ok x d1 d2 k show ?thesis
    by simp
qed

text \<open>
  C1 as stated fails on a layer that Keras pads (\<^verbatim>\<open>padding='same'\<close>): for an input of
  three by three, a kernel of two by two and stride 1 it declares an output of three by
  three, and that is the size of the result, not \<open>floor((3 - 2) / 1) + 1 = 2\<close>. With all
  weights 1 and bias 1 the four window positions hold 5 and the other cells the bias.
\<close>

theorem Conv2D_feedforward_padded_counterexample:
  "Conv2D_init (\<lambda>_. Inr Returns_argument)
      \<lparr>keras_name = ''conv'', input_shape = (1, 1, 3, 3), output_shape = (1, 1, 3, 3)\<rparr>
      [[[[1]], [[1]]], [[[1]], [[1]]]] (Some [1]) ''linear'' (2, 2) (1, 1)
    = Inr \<lparr>name = ''conv'', output = zeros3 (1, 3, 3),
           conv_w = [[[[1]], [[1]]], [[[1]], [[1]]]], conv_b = [1], conv_activation = Returns_argument,
           kernel_size = (2, 2), strides = (1, 1), deconv_output = zeros3 (1, 3, 3)\<rparr> \<and>
   map_outcome output (Conv2D_feedforward
      \<lparr>name = ''conv'', output = zeros3 (1, 3, 3),
        conv_w = [[[[1]], [[1]]], [[[1]], [[1]]]], conv_b = [1], conv_activation = Returns_argument,
        kernel_size = (2, 2), strides = (1, 1), deconv_output = zeros3 (1, 3, 3)\<rparr>
      (Array [[[1, 1, 1], [1, 1, 1], [1, 1, 1]]]))
    = Done [[[5, 5, 1], [5, 5, 1], [1, 1, 1]]] \<and>
   out_dim 3 2 1 = 2"
proof (intro conjI)
  show "Conv2D_init (\<lambda>_. Inr Returns_argument)
      \<lparr>keras_name = ''conv'', input_shape = (1, 1, 3, 3), output_shape = (1, 1, 3, 3)\<rparr>
      [[[[1]], [[1]]], [[[1]], [[1]]]] (Some [1]) ''linear'' (2, 2) (1, 1)
    = Inr \<lparr>name = ''conv'', output = zeros3 (1, 3, 3),
           conv_w = [[[[1]], [[1]]], [[[1]], [[1]]]], conv_b = [1], conv_activation = Returns_argument,
           kernel_size = (2, 2), strides = (1, 1), deconv_output = zeros3 (1, 3, 3)\<rparr>"
    by (simp add: Conv2D_init_def bias_of_def)
  show "map_outcome output (Conv2D_feedforward
      \<lparr>name = ''conv'', output = zeros3 (1, 3, 3),
        conv_w = [[[[1]], [[1]]], [[[1]], [[1]]]], conv_b = [1], conv_activation = Returns_argument,
        kernel_size = (2, 2), strides = (1, 1), deconv_output = zeros3 (1, 3, 3)\<rparr>
      (Array [[[1, 1, 1], [1, 1, 1], [1, 1, 1]]]))
    = Done [[[5, 5, 1], [5, 5, 1], [1, 1, 1]]]"
    by code_simp
  show "out_dim 3 2 1 = 2"
    by code_simp
qed

text \<open>
  Given its own output buffer, which holds 6 after a first pass, a layer with one weight
  2 and bias 0 returns 0 and not 12: the buffer is filled with zeros before it is read.
\<close>

lemma Conv2D_feedforward_own_buffer:
  "(let layer = \<lparr>name = ''conv'', output = [[[0]]], conv_w = [[[[2]]]], conv_b = [0],
                  conv_activation = Returns_argument, kernel_size = (1, 1), strides = (1, 1),
                  deconv_output = [[[0]]]\<rparr>;
        first_pass = Conv2D_feedforward layer (Array [[[3]]])
    in (result output first_pass,
        result output (Conv2D_feedforward (state_of first_pass) (Array [[[6]]])),
        result output (Conv2D_feedforward (state_of first_pass) Own_buffer)))
   = (Inr [[[6]]], Inr [[[12]]], Inr [[[0]]])"
  by code_simp

section \<open>The deconvolution loops\<close>

lemma shaped3_chan: "shaped3 (c, h, wd) a \<Longrightarrow> i < c \<Longrightarrow> i < length a \<and> length (a ! i) = h"
  by (auto simp: shaped3_def shaped2_def list_all_length)

lemma add_window_ok:
  assumes buf: "shaped3 (cin, h, wd) buf" and j: "j < cin" and k: "k + p \<le> h" and l: "l + q \<le> wd"
    and rhs: "shaped2 (p, q) rhs"
  shows "\<exists>buf'. add_window buf j k p l q rhs = Inr buf' \<and> shaped3 (cin, h, wd) buf' \<and>
           (\<forall>j'<cin. \<forall>r<h. \<forall>c<wd. buf' ! j' ! r ! c = buf ! j' ! r ! c +
              (if j' = j \<and> k \<le> r \<and> r < k + p \<and> l \<le> c \<and> c < l + q then rhs ! (r - k) ! (c - l) else 0))"
proof -
  from window_ok[OF buf j k l] obtain view where view: "window buf j k p l q = Inr view" "shaped2 (p, q) view"
    by blast
  from view(2) have lv: "length view = p" and lr: "\<And>a. a < p \<Longrightarrow> length (view ! a) = q"
    by (auto simp: shaped2_def list_all_length)
  have f: "fit2 view rhs = Inr rhs" by (rule fit2_same[OF view(2) rhs])
  from buf j have lj: "j < length buf" "length (buf ! j) = h"
    and rows: "\<And>r. r < h \<Longrightarrow> length (buf ! j ! r) = wd"
    by (auto simp: shaped3_def shaped2_def list_all_length)
  let ?chan = "map (\<lambda>r.
            if k \<le> r \<and> r < k + length view
            then map (\<lambda>c. if l \<le> c \<and> c < l + length (view ! (r - k))
                          then buf ! j ! r ! c + rhs ! (r - k) ! (c - l)
                          else buf ! j ! r ! c) [0..<length (buf ! j ! r)]
            else buf ! j ! r) [0..<length (buf ! j)]"
  have res: "add_window buf j k p l q rhs = Inr (buf[j := ?chan])"
    by (simp add: add_window_def view(1) f)
  have chan_len: "length ?chan = h" using lj by simp
  have row_len: "length (?chan ! r) = wd" if "r < h" for r
    using that lj rows by simp
  have sh: "shaped3 (cin, h, wd) (buf[j := ?chan])"
    unfolding shaped3_def shaped2_def list_all_length fst_conv snd_conv
  proof (intro conjI allI impI)
    show "length (buf[j := ?chan]) = cin" using buf by (simp add: shaped3_def)
  next
    fix n assume "n < length (buf[j := ?chan])"
    then have n: "n < cin" using buf by (simp add: shaped3_def)
    show "length (buf[j := ?chan] ! n) = h"
      using shaped3_chan[OF buf n] lj chan_len by (cases "n = j") (auto simp: nth_list_update)
  next
    fix n r assume "n < length (buf[j := ?chan])" and r: "r < length (buf[j := ?chan] ! n)"
    then have n: "n < cin" using buf by (simp add: shaped3_def)
    show "length (buf[j := ?chan] ! n ! r) = wd"
    proof (cases "n = j")
      case True
      with r lj chan_len have "r < h" by simp
      with True lj row_len show ?thesis by simp
    next
      case False
      with r n buf have "r < h" by (auto simp: shaped3_def shaped2_def list_all_length)
      with False shaped3_nth[OF buf n] show ?thesis by simp
    qed
  qed
  have cell: "buf[j := ?chan] ! j' ! r ! c = buf ! j' ! r ! c +
              (if j' = j \<and> k \<le> r \<and> r < k + p \<and> l \<le> c \<and> c < l + q then rhs ! (r - k) ! (c - l) else 0)"
    if "j' < cin" "r < h" "c < wd" for j' r c
  proof (cases "j' = j")
    case False
    then show ?thesis by simp
  next
    case True
    have "buf[j := ?chan] ! j ! r ! c = ?chan ! r ! c" using lj by simp
    also have "\<dots> = buf ! j ! r ! c +
              (if k \<le> r \<and> r < k + p \<and> l \<le> c \<and> c < l + q then rhs ! (r - k) ! (c - l) else 0)"
    proof (cases "k \<le> r \<and> r < k + p")
      case True
      then have "r - k < p" by auto
      then have "length (view ! (r - k)) = q" by (rule lr)
      with True that lj rows[OF that(2)] lv show ?thesis by simp
    next
      case False
      with that lj lv show ?thesis by auto
    qed
    finally show ?thesis using True by simp
  qed
  from res sh cell show ?thesis by blast
qed

lemma transpose_square:
  assumes "shaped2 (p, p) m" and "0 < p"
  shows "shaped2 (p, p) (transpose m) \<and> (\<forall>a<p. \<forall>b<p. transpose m ! a ! b = m ! b ! a)"
proof -
  from assms have l: "length m = p" and r: "\<forall>i<length m. length (m ! i) = p"
    by (auto simp: shaped2_def list_all_length)
  have t: "transpose m = map (\<lambda>i. map (\<lambda>j. m ! j ! i) [0..<length m]) [0..<p]"
    by (rule transpose_rectangle) (use assms l r in auto)
  show ?thesis unfolding t using l by (simp add: shaped2_def list_all_length)
qed

lemma adds_eq:
  assumes "\<And>out. shaped3 d out \<Longrightarrow> f out = g out" and "adds d g delta"
  shows "adds d f delta"
  using assms unfolding adds_def by auto

lemma deconv_cell_adds:
  assumes ok: "conv_ok self (cin, h, wd) (cout, oh, ow)"
    and sq: "fst (kernel_size self) = snd (kernel_size self)"
    and x: "shaped3 (cx, xh, xw) x"
    and wt: "shaped4 (fst (kernel_size self), snd (kernel_size self), cin, cx) wt"
    and i: "i < cx" and j: "j < cin"
    and n: "n < out_dim h (fst (kernel_size self)) (fst (strides self))"
    and m: "m < out_dim wd (snd (kernel_size self)) (snd (strides self))"
    and fits: "out_dim h (fst (kernel_size self)) (fst (strides self)) \<le> xh"
      "out_dim wd (snd (kernel_size self)) (snd (strides self)) \<le> xw"
  shows "adds (cin, h, wd)
           (deconv_cell self x wt i j (n * fst (strides self)) (m * snd (strides self)))
           (\<lambda>j' r c. if j' = j then deconv_term self x wt i j n m r c else 0)"
proof (rule addsI)
  fix buf :: tensor3 assume buf: "shaped3 (cin, h, wd) buf"
  let ?p = "fst (kernel_size self)" and ?q = "snd (kernel_size self)"
  let ?k = "n * fst (strides self)" and ?l = "m * snd (strides self)"
  from ok have st: "0 < fst (strides self)" "0 < snd (strides self)" and kp: "0 < ?p"
    by (auto simp: conv_ok_def)
  from n fits m have nm: "n < xh" "m < xw" by auto
  have fl: "py_floordiv ?k (fst (strides self)) = Inr n" "py_floordiv ?l (snd (strides self)) = Inr m"
    using st by (auto simp: py_floordiv_def)
  from shaped3_nth[OF x i nm(1)] nm(2) have g: "get3 x i n m = Inr (x ! i ! n ! m)"
    by (simp add: get3_def)
  from kernel_slice_ok[OF wt j i]
  obtain ker where ker: "kernel_slice wt j i = Inr ker" "shaped2 (?p, ?q) ker"
    "\<And>a b. a < ?p \<Longrightarrow> b < ?q \<Longrightarrow> ker ! a ! b = wt ! a ! b ! j ! i" by blast
  from ker(2) sq have "shaped2 (?p, ?p) ker" by simp
  from transpose_square[OF this kp]
  have tr: "shaped2 (?p, ?p) (transpose ker)" "\<And>a b. a < ?p \<Longrightarrow> b < ?p \<Longrightarrow> transpose ker ! a ! b = ker ! b ! a"
    by auto
  let ?rhs = "scale (x ! i ! n ! m) (transpose ker)"
  have rhs: "shaped2 (?p, ?q) ?rhs"
    using tr(1) sq by (simp add: scale_def shaped2_def list_all_length)
  have rhs_cell: "?rhs ! a ! b = x ! i ! n ! m * wt ! b ! a ! j ! i" if "a < ?p" "b < ?q" for a b
  proof -
    from tr(1) that have "a < length (transpose ker)" "b < length (transpose ker ! a)"
      using sq by (auto simp: shaped2_def list_all_length)
    then have "?rhs ! a ! b = x ! i ! n ! m * transpose ker ! a ! b" by (simp add: scale_def)
    with that sq tr(2)[of a b] ker(3)[of b a] show ?thesis by simp
  qed
  from add_window_ok[OF buf j out_dim_fits[OF n] out_dim_fits[OF m] rhs]
  obtain buf' where b': "add_window buf j ?k ?p ?l ?q ?rhs = Inr buf'" "shaped3 (cin, h, wd) buf'"
    "\<And>j' r c. j' < cin \<Longrightarrow> r < h \<Longrightarrow> c < wd \<Longrightarrow> buf' ! j' ! r ! c = buf ! j' ! r ! c +
       (if j' = j \<and> ?k \<le> r \<and> r < ?k + ?p \<and> ?l \<le> c \<and> c < ?l + ?q then ?rhs ! (r - ?k) ! (c - ?l) else 0)"
    by blast
  have run: "deconv_cell self x wt i j ?k ?l buf = Done buf'"
    by (simp add: deconv_cell_def fl g ker(1) b'(1))
  have "buf' ! j' ! r ! c = buf ! j' ! r ! c + (if j' = j then deconv_term self x wt i j n m r c else 0)"
    if "j' < cin" "r < h" "c < wd" for j' r c
  proof (cases "j' = j \<and> ?k \<le> r \<and> r < ?k + ?p \<and> ?l \<le> c \<and> c < ?l + ?q")
    case True
    then have "r - ?k < ?p" "c - ?l < ?q" by auto
    from rhs_cell[OF this] True b'(3)[OF that] show ?thesis
      by (simp add: deconv_term_def)
  next
    case False
    with b'(3)[OF that] show ?thesis by (auto simp: deconv_term_def)
  qed
  with run b'(2) show "\<exists>out'. deconv_cell self x wt i j ?k ?l buf = Done out' \<and> shaped3 (cin, h, wd) out' \<and>
      (\<forall>i'<fst (cin, h, wd). \<forall>r<fst (snd (cin, h, wd)). \<forall>c<snd (snd (cin, h, wd)).
         out' ! i' ! r ! c = buf ! i' ! r ! c + (if i' = j then deconv_term self x wt i j n m r c else 0))"
    by (intro exI[of _ buf']) simp
qed


lemma deconv_loops_adds:
  assumes ok: "conv_ok self (cin, h, wd) (cout, oh, ow)"
    and sq: "fst (kernel_size self) = snd (kernel_size self)"
    and x: "shaped3 (cx, xh, xw) x"
    and wt: "shaped4 (fst (kernel_size self), snd (kernel_size self), cin, cx) wt"
    and pos: "0 < cin" "0 < h"
    and fits: "out_dim h (fst (kernel_size self)) (fst (strides self)) \<le> xh"
      "out_dim wd (snd (kernel_size self)) (snd (strides self)) \<le> xw"
  shows "adds (cin, h, wd)
           (for_loop [0..<shape0 x] (\<lambda>i buf.
              for_loop [0..<shape0 buf] (\<lambda>j buf.
                attempt (py_range (shape1 buf + 1 - fst (kernel_size self)) (fst (strides self))) buf (\<lambda>rows.
                for_loop rows (\<lambda>k buf.
                  attempt (py_range (shape2 buf + 1 - snd (kernel_size self)) (snd (strides self))) buf (\<lambda>cols.
                  for_loop cols (\<lambda>l buf. deconv_cell self x wt i j k l buf) buf)) buf)) buf))
           (deconv_value self x wt)"
proof -
  let ?d = "(cin, h, wd)"
  let ?nh = "out_dim h (fst (kernel_size self)) (fst (strides self))"
  let ?nw = "out_dim wd (snd (kernel_size self)) (snd (strides self))"
  let ?T = "deconv_term self x wt"
  from ok have st: "0 < fst (strides self)" "0 < snd (strides self)"
    and dsh: "shaped3 ?d (deconv_output self)"
    by (auto simp: conv_ok_def)
  have shp: "shape0 buf = cin \<and> shape1 buf = h \<and> shape2 buf = wd" if "shaped3 ?d buf" for buf :: tensor3
    using that pos shaped3_shape1[OF that] shaped3_shape2[OF that] by (simp add: shape0_def shaped3_def)
  let ?cols = "\<lambda>i j n buf. attempt (py_range (shape2 buf + 1 - snd (kernel_size self)) (snd (strides self))) buf (\<lambda>cols.
                  for_loop cols (\<lambda>l buf. deconv_cell self x wt i j (n * fst (strides self)) l buf) buf)"
  have cols: "adds ?d (?cols i j n) (\<lambda>j' r c. if j' = j then (\<Sum>m\<leftarrow>[0..<?nw]. ?T i j n m r c) else 0)"
    if "i < cx" "j < cin" "n < ?nh" for i j n
  proof (rule adds_eq[where g = "for_loop [0..<?nw] (\<lambda>m. deconv_cell self x wt i j (n * fst (strides self)) (m * snd (strides self)))"])
    fix buf :: tensor3 assume "shaped3 ?d buf"
    from shp[OF this] show "?cols i j n buf =
        for_loop [0..<?nw] (\<lambda>m. deconv_cell self x wt i j (n * fst (strides self)) (m * snd (strides self))) buf"
      by (simp add: py_range_out_dim[OF st(2)] for_loop_map)
  next
    have "adds ?d (for_loop [0..<?nw] (\<lambda>m. deconv_cell self x wt i j (n * fst (strides self)) (m * snd (strides self))))
        (\<lambda>j' r c. \<Sum>m\<leftarrow>[0..<?nw]. if j' = j then ?T i j n m r c else 0)"
      by (rule adds_for_loop) (use deconv_cell_adds[OF ok sq x wt that(1,2,3) _ fits] in auto)
    then show "adds ?d (for_loop [0..<?nw] (\<lambda>m. deconv_cell self x wt i j (n * fst (strides self)) (m * snd (strides self))))
        (\<lambda>j' r c. if j' = j then (\<Sum>m\<leftarrow>[0..<?nw]. ?T i j n m r c) else 0)"
      by (rule adds_cong) (simp add: sum_list_const_if)
  qed
  let ?rows = "\<lambda>i j buf. attempt (py_range (shape1 buf + 1 - fst (kernel_size self)) (fst (strides self))) buf (\<lambda>rows.
                for_loop rows (\<lambda>k buf.
                  attempt (py_range (shape2 buf + 1 - snd (kernel_size self)) (snd (strides self))) buf (\<lambda>cols.
                  for_loop cols (\<lambda>l buf. deconv_cell self x wt i j k l buf) buf)) buf)"
  have rows: "adds ?d (?rows i j) (\<lambda>j' r c. if j' = j then (\<Sum>n\<leftarrow>[0..<?nh]. \<Sum>m\<leftarrow>[0..<?nw]. ?T i j n m r c) else 0)"
    if "i < cx" "j < cin" for i j
  proof (rule adds_eq[where g = "for_loop [0..<?nh] (?cols i j)"])
    fix buf :: tensor3 assume "shaped3 ?d buf"
    from shp[OF this] show "?rows i j buf = for_loop [0..<?nh] (?cols i j) buf"
      by (simp add: py_range_out_dim[OF st(1)] for_loop_map)
  next
    have "adds ?d (for_loop [0..<?nh] (?cols i j))
        (\<lambda>j' r c. \<Sum>n\<leftarrow>[0..<?nh]. if j' = j then (\<Sum>m\<leftarrow>[0..<?nw]. ?T i j n m r c) else 0)"
      by (rule adds_for_loop) (use cols[OF that] in auto)
    then show "adds ?d (for_loop [0..<?nh] (?cols i j))
        (\<lambda>j' r c. if j' = j then (\<Sum>n\<leftarrow>[0..<?nh]. \<Sum>m\<leftarrow>[0..<?nw]. ?T i j n m r c) else 0)"
      by (rule adds_cong) (simp add: sum_list_const_if)
  qed
  let ?chans = "\<lambda>i buf. for_loop [0..<shape0 buf] (\<lambda>j buf. ?rows i j buf) buf"
  have chans: "adds ?d (?chans i) (\<lambda>j' r c. \<Sum>n\<leftarrow>[0..<?nh]. \<Sum>m\<leftarrow>[0..<?nw]. ?T i j' n m r c)"
    if "i < cx" for i
  proof (rule adds_eq[where g = "for_loop [0..<cin] (?rows i)"])
    fix buf :: tensor3 assume "shaped3 ?d buf"
    from shp[OF this] show "?chans i buf = for_loop [0..<cin] (?rows i) buf" by simp
  next
    have "adds ?d (for_loop [0..<cin] (?rows i))
        (\<lambda>j' r c. \<Sum>j\<leftarrow>[0..<cin]. if j' = j then (\<Sum>n\<leftarrow>[0..<?nh]. \<Sum>m\<leftarrow>[0..<?nw]. ?T i j n m r c) else 0)"
      by (rule adds_for_loop) (use rows[OF that] in auto)
    then show "adds ?d (for_loop [0..<cin] (?rows i))
        (\<lambda>j' r c. \<Sum>n\<leftarrow>[0..<?nh]. \<Sum>m\<leftarrow>[0..<?nw]. ?T i j' n m r c)"
      by (rule adds_cong) (simp add: sum_list_pick1)
  qed
  from x have s0: "shape0 x = cx" by (simp add: shape0_def shaped3_def)
  have "adds ?d (for_loop [0..<shape0 x] ?chans)
      (\<lambda>j' r c. \<Sum>i\<leftarrow>[0..<shape0 x]. \<Sum>n\<leftarrow>[0..<?nh]. \<Sum>m\<leftarrow>[0..<?nw]. ?T i j' n m r c)"
    by (rule adds_for_loop) (use chans s0 in auto)
  then show ?thesis
    by (rule adds_cong) (simp add: deconv_value_def shp[OF dsh])
qed

lemma Conv2D_deconvolve_general:
  assumes ok: "conv_ok self (cin, h, wd) (cout, oh, ow)"
    and sq: "fst (kernel_size self) = snd (kernel_size self)"
    and x: "shaped3 (cx, xh, xw) x"
    and act: "keeps_shape (cx, xh, xw) (conv_activation self)"
    and wt: "shaped4 (fst (kernel_size self), snd (kernel_size self), cin, cx) wt"
    and pos: "0 < cin" "0 < h"
    and fits: "out_dim h (fst (kernel_size self)) (fst (strides self)) \<le> xh"
      "out_dim wd (snd (kernel_size self)) (snd (strides self)) \<le> xw"
  shows "Conv2D_deconvolve self (Some (Array x)) (Some wt) =
           Done (self\<lparr>deconv_output := tabulate3 (cin, h, wd) (deconv_value self (activate (conv_activation self) x) wt)\<rparr>)"
proof -
  let ?x = "activate (conv_activation self) x"
  from act x have xa: "shaped3 (cx, xh, xw) ?x" by (simp add: keeps_shape_def)
  from ok have buf: "shaped3 (cin, h, wd) (deconv_output self)" by (simp add: conv_ok_def)
  define loops where "loops = for_loop [0..<shape0 ?x] (\<lambda>i buf.
              for_loop [0..<shape0 buf] (\<lambda>j buf.
                attempt (py_range (shape1 buf + 1 - fst (kernel_size self)) (fst (strides self))) buf (\<lambda>rows.
                for_loop rows (\<lambda>k buf.
                  attempt (py_range (shape2 buf + 1 - snd (kernel_size self)) (snd (strides self))) buf (\<lambda>cols.
                  for_loop cols (\<lambda>l buf. deconv_cell self ?x wt i j k l buf) buf)) buf)) buf)"
  have ad: "adds (cin, h, wd) loops (deconv_value self ?x wt)"
    unfolding loops_def by (rule deconv_loops_adds[OF ok sq xa wt pos fits])
  from addsD[OF ad shaped3_fill0[OF buf]]
  obtain buf' where o: "loops (fill0 (deconv_output self)) = Done buf'"
    and sh: "shaped3 (cin, h, wd) buf'"
    and cells: "\<And>i r c. i < fst (cin, h, wd) \<Longrightarrow> r < fst (snd (cin, h, wd)) \<Longrightarrow> c < snd (snd (cin, h, wd)) \<Longrightarrow>
        buf' ! i ! r ! c = fill0 (deconv_output self) ! i ! r ! c + deconv_value self ?x wt i r c"
    by blast
  have "buf' = tabulate3 (cin, h, wd) (deconv_value self ?x wt)"
    by (rule shaped3_ext[OF sh shaped3_tabulate3])
       (simp add: cells fill0_nth[OF buf] tabulate3_nth)
  with o have l: "loops (fill0 (deconv_output self)) = Done (tabulate3 (cin, h, wd) (deconv_value self ?x wt))"
    by simp
  have "Conv2D_deconvolve self (Some (Array x)) (Some wt) =
      map_outcome (\<lambda>buf. self\<lparr>deconv_output := buf\<rparr>) (loops (fill0 (deconv_output self)))"
    unfolding Conv2D_deconvolve_def loops_def by (simp add: Let_def activated_def)
  also have "\<dots> = Done (self\<lparr>deconv_output := tabulate3 (cin, h, wd) (deconv_value self ?x wt)\<rparr>)"
    unfolding l by simp
  finally show ?thesis .
qed

section \<open>Conv2D.deconvolve\<close>

text \<open>
  For a convolution layer with a square kernel, built for inputs of shape
  \<open>(cin, h, wd)\<close>, a tensor \<open>x\<close> with a cell for every window position, given as an array
  of its own, and weights \<open>wt\<close> with one kernel per pair of a channel of \<open>x\<close> and a channel
  of the result, \<^verbatim>\<open>deconvolve(x, wt)\<close> returns; \<^verbatim>\<open>deconv_output\<close>, shaped like the
  forward input, then holds in every cell the sum of what each window adds there,
  computed from the activation applied to \<open>x\<close>. An omitted \<open>x\<close> is the output buffer, an
  omitted \<open>wt\<close> the layer's weights.
\<close>

lemma Conv2D_deconvolve_square:
  assumes "conv_ok self (cin, h, wd) (cout, oh, ow)"
    and "fst (kernel_size self) = snd (kernel_size self)"
    and "shaped3 (cx, xh, xw) x"
    and "keeps_shape (cx, xh, xw) (conv_activation self)"
    and "shaped4 (fst (kernel_size self), snd (kernel_size self), cin, cx) wt"
    and "0 < cin" and "0 < h"
    and "out_dim h (fst (kernel_size self)) (fst (strides self)) \<le> xh"
    and "out_dim wd (snd (kernel_size self)) (snd (strides self)) \<le> xw"
  shows "Conv2D_deconvolve self (Some (Array x)) (Some wt) =
           Done (self\<lparr>deconv_output :=
                   tabulate3 (cin, h, wd) (deconv_value self (activate (conv_activation self) x) wt)\<rparr>) \<and>
         Conv2D_deconvolve self None w_arg = Conv2D_deconvolve self (Some (Array (output self))) w_arg \<and>
         Conv2D_deconvolve self x_arg None = Conv2D_deconvolve self x_arg (Some (conv_w self))"
proof (intro conjI)
  show "Conv2D_deconvolve self (Some (Array x)) (Some wt) =
           Done (self\<lparr>deconv_output :=
                   tabulate3 (cin, h, wd) (deconv_value self (activate (conv_activation self) x) wt)\<rparr>)"
    by (rule Conv2D_deconvolve_general[OF assms])
  show "Conv2D_deconvolve self None w_arg = Conv2D_deconvolve self (Some (Array (output self))) w_arg"
    by (simp add: Conv2D_deconvolve_def activated_def)
  show "Conv2D_deconvolve self x_arg None = Conv2D_deconvolve self x_arg (Some (conv_w self))"
    by (simp add: Conv2D_deconvolve_def activated_def)
qed

text \<open>
  One channel of four by four cells, a kernel of two by two with the weights 1, 2, 3, 4
  and stride 1: the two non-zero cells of \<open>x\<close> each put the transposed kernel on their
  window.
\<close>

definition deconv_example :: Conv2D where
  "deconv_example =
     \<lparr>name = ''conv'', output = zeros3 (1, 3, 3),
      conv_w = [[[[1]], [[2]]], [[[3]], [[4]]]], conv_b = [0], conv_activation = Returns_argument,
      kernel_size = (2, 2), strides = (1, 1), deconv_output = zeros3 (1, 4, 4)\<rparr>"

lemma Conv2D_deconvolve_square_example:
  "conv_ok deconv_example (1, 4, 4) (1, 3, 3) \<and>
   fst (kernel_size deconv_example) = snd (kernel_size deconv_example) \<and>
   shaped3 (1, 3, 3) ([[[1, 0, 0], [0, 0, 0], [0, 0, 1]]] :: tensor3) \<and>
   keeps_shape (1, 3, 3) (conv_activation deconv_example) \<and>
   shaped4 (fst (kernel_size deconv_example), snd (kernel_size deconv_example), 1, 1)
     (conv_w deconv_example) \<and>
   out_dim 4 (fst (kernel_size deconv_example)) (fst (strides deconv_example)) \<le> 3 \<and>
   out_dim 4 (snd (kernel_size deconv_example)) (snd (strides deconv_example)) \<le> 3 \<and>
   Conv2D_deconvolve deconv_example (Some (Array [[[1, 0, 0], [0, 0, 0], [0, 0, 1]]])) (Some (conv_w deconv_example)) =
     Done (deconv_example\<lparr>deconv_output := [[[1, 3, 0, 0], [2, 4, 0, 0], [0, 0, 1, 3], [0, 0, 2, 4]]]\<rparr>) \<and>
   Conv2D_deconvolve deconv_example None None =
     Conv2D_deconvolve deconv_example (Some (Array (output deconv_example))) None \<and>
   Conv2D_deconvolve deconv_example (Some (Array [[[1, 0, 0], [0, 0, 0], [0, 0, 1]]])) None =
     Conv2D_deconvolve deconv_example (Some (Array [[[1, 0, 0], [0, 0, 0], [0, 0, 1]]])) (Some (conv_w deconv_example))"
proof -
  have ok: "conv_ok deconv_example (1, 4, 4) (1, 3, 3)"
    by code_simp
  have sq: "fst (kernel_size deconv_example) = snd (kernel_size deconv_example)"
    by code_simp
  have x: "shaped3 (1, 3, 3) ([[[1, 0, 0], [0, 0, 0], [0, 0, 1]]] :: tensor3)"
    by code_simp
  have k: "keeps_shape (1, 3, 3) (conv_activation deconv_example)"
    by (simp add: deconv_example_def keeps_shape_def)
  have wt: "shaped4 (fst (kernel_size deconv_example), snd (kernel_size deconv_example), 1, 1)
     (conv_w deconv_example)"
    by code_simp
  have d1: "out_dim 4 (fst (kernel_size deconv_example)) (fst (strides deconv_example)) \<le> 3"
    by code_simp
  have d2: "out_dim 4 (snd (kernel_size deconv_example)) (snd (strides deconv_example)) \<le> 3"
    by code_simp
  have v: "tabulate3 (1, 4, 4) (deconv_value deconv_example
             (activate (conv_activation deconv_example) [[[1, 0, 0], [0, 0, 0], [0, 0, 1]]]) (conv_w deconv_example))
           = [[[1, 3, 0, 0], [2, 4, 0, 0], [0, 0, 1, 3], [0, 0, 2, 4]]]"
    by code_simp
  from Conv2D_deconvolve_square[OF ok sq x k wt _ _ d1 d2, of None "Some (Array [[[1, 0, 0], [0, 0, 0], [0, 0, 1]]])"]
    v ok sq x k wt d1 d2
  show ?thesis by simp
qed

text \<open>
  C3. The window of the buffer is cut with the kernel's rows and columns, and the kernel
  that is added to it is transposed: for a kernel that is not square the two do not fit.
  A layer for one channel of one row and two columns, with a kernel of one by two and
  the weights 1 and 2, convolves the input (3, 4) to \<open>3 * 1 + 4 * 2 = 11\<close>; on the
  single cell 1, \<^verbatim>\<open>deconvolve\<close> should put the kernel (1, 2) on the one window, but numpy
  refuses the in-place addition of the two by one array and the call raises
  \<^verbatim>\<open>ValueError\<close>, leaving the zeros that the buffer was filled with.
\<close>

theorem Conv2D_deconvolve_rectangular_kernel:
  "(let layer = \<lparr>name = ''conv'', output = zeros3 (1, 1, 1),
                  conv_w = [[[[1]], [[2]]]], conv_b = [0], conv_activation = Returns_argument,
                  kernel_size = (1, 2), strides = (1, 1), deconv_output = zeros3 (1, 1, 2)\<rparr>
    in (map_outcome output (Conv2D_feedforward layer (Array [[[3, 4]]])),
        map_outcome deconv_output (Conv2D_deconvolve layer (Some (Array [[[1]]])) None)))
   = (Done [[[11]]], Raised (ValueError ''could not broadcast'') [[[0, 0]]])"
  by code_simp

section \<open>Arrays of any rank\<close>

lemma strip_ones_same [simp]: "strip_ones (length ts) ts = ts"
  by (cases ts) simp_all

lemma aligned_same [simp]: "aligned ts ts = ts"
  by (simp add: aligned_def)

lemma broadcasts_same [simp]: "broadcasts ts ts"
  by (simp add: broadcasts_def list_all2_same)

lemma source_index_same: "k < prod_list ts \<Longrightarrow> source_index ts ts k = k"
proof (induction ts arbitrary: k)
  case Nil
  then show ?case by simp
next
  case (Cons t ts)
  from Cons.prems have p: "0 < prod_list ts" by (cases "prod_list ts") auto
  then have "source_index ts ts (k mod prod_list ts) = k mod prod_list ts"
    by (intro Cons.IH) simp
  moreover have "k div prod_list ts = 0" "k mod prod_list ts = k" if "t = 1"
    using that Cons.prems by simp_all
  ultimately show ?case by simp
qed

lemma broadcast_to_same:
  assumes "shape v = ts" and "is_array v"
  shows "broadcast_to ts v = Inr (cells v)"
proof -
  have "map (\<lambda>k. cells v ! source_index ts ts k) [0..<prod_list ts] = map (\<lambda>k. cells v ! k) [0..<prod_list ts]"
    by (rule map_cong[OF refl]) (simp add: source_index_same)
  also have "\<dots> = cells v"
    using assms by (simp add: is_array_def map_nth[symmetric] del: map_nth) (metis map_nth)
  finally show ?thesis using assms(1) by (simp add: broadcast_to_def)
qed

lemma length_broadcast_to: "broadcast_to ts v = Inr new \<Longrightarrow> length new = prod_list ts"
  by (auto simp: broadcast_to_def split: if_splits)

lemma concat_slices:
  "length xs = n * sz \<Longrightarrow> concat (map (\<lambda>i. take sz (drop (i * sz) xs)) [0..<n]) = xs"
proof (induction n arbitrary: xs)
  case 0
  then show ?case by simp
next
  case (Suc n)
  have "concat (map (\<lambda>i. take sz (drop (i * sz) xs)) [0..<Suc n]) =
      take sz xs @ concat (map (\<lambda>i. take sz (drop (Suc i * sz) xs)) [0..<n])"
    by (simp add: upt_conv_Cons map_Suc_upt[symmetric] o_def del: upt_Suc)
  also have "(\<lambda>i. take sz (drop (Suc i * sz) xs)) = (\<lambda>i. take sz (drop (i * sz) (drop sz xs)))"
    by (simp add: add.commute)
  also have "concat (map (\<lambda>i. take sz (drop (i * sz) (drop sz xs))) [0..<n]) = drop sz xs"
    by (rule Suc.IH) (use Suc.prems in simp)
  finally show ?case by simp
qed

lemma length_slice_at:
  "length xs = n * prod_list ds \<Longrightarrow> i < n \<Longrightarrow> length (slice_at ds i xs) = prod_list ds"
proof -
  assume l: "length xs = n * prod_list ds" and i: "i < n"
  from i have "Suc i * prod_list ds \<le> n * prod_list ds"
    by (intro mult_le_mono1) simp
  with l show ?thesis by (simp add: slice_at_def)
qed

section \<open>BatchNormalization.feedforward\<close>

lemma for_loop_append:
  "for_loop (xs @ ys) body s = then_do (for_loop xs body s) (for_loop ys body)"
  by (induction xs arbitrary: s) (auto simp: then_do_def split: outcome.splits)

lemma for_loop_slices:
  assumes k: "k \<le> n" and len: "length (cells out0) = n * sz"
    and body: "\<And>i out. i < n \<Longrightarrow> shape out = shape out0 \<Longrightarrow> length (cells out) = n * sz \<Longrightarrow>
        body i out = Done (out\<lparr>cells := take (i * sz) (cells out) @ new i @ drop (Suc i * sz) (cells out)\<rparr>)"
    and new: "\<And>i. i < n \<Longrightarrow> length (new i) = sz"
  shows "for_loop [0..<k] body out0 =
           Done (out0\<lparr>cells := concat (map new [0..<k]) @ drop (k * sz) (cells out0)\<rparr>)"
  using k
proof (induction k)
  case 0
  then show ?case by simp
next
  case (Suc k)
  let ?a = "concat (map new [0..<k])"
  let ?mid = "out0\<lparr>cells := ?a @ drop (k * sz) (cells out0)\<rparr>"
  from Suc have IH: "for_loop [0..<k] body out0 = Done ?mid" and kn: "k < n" by auto
  have la: "length ?a = k * sz"
    using kn new by (induction k) auto
  from kn have "Suc k * sz \<le> n * sz" by (intro mult_le_mono1) simp
  then have ks: "k * sz + sz \<le> n * sz" by simp
  have lm: "length (cells ?mid) = n * sz"
    using la len ks by simp
  have "body k ?mid = Done (?mid\<lparr>cells := take (k * sz) (cells ?mid) @ new k @ drop (Suc k * sz) (cells ?mid)\<rparr>)"
    by (rule body[OF kn _ lm]) simp
  also have "take (k * sz) (cells ?mid) = ?a"
    using la by simp
  also have "drop (Suc k * sz) (cells ?mid) = drop (Suc k * sz) (cells out0)"
    using la by (simp add: add.commute)
  finally have step: "body k ?mid =
      Done (out0\<lparr>cells := concat (map new [0..<Suc k]) @ drop (Suc k * sz) (cells out0)\<rparr>)"
    by simp
  have "for_loop [0..<Suc k] body out0 = then_do (for_loop [0..<k] body out0) (body k)"
    by (simp add: for_loop_append then_do_def split: outcome.splits)
  with IH step show ?case by (simp add: then_do_def)
qed

lemma bn_channel_formula:
  "bn_channel self x i out =
     attempt (get1 (bn_g self) i) out (\<lambda>gi.
     attempt (index0 x i) out (\<lambda>xi.
     attempt (get1 (bn_m self) i) out (\<lambda>mi.
     attempt (get1 (bn_v self) i) out (\<lambda>vi.
     attempt (get1 (bn_b self) i) out (\<lambda>bi.
     attempt (assign_index0 out i (nd_map (bn_formula gi bi mi vi (bn_e self)) xi)) out Done)))))"
  unfolding bn_channel_def bn_formula_def[abs_def] ..

lemma BatchNormalization_feedforward_general:
  assumes ok: "bn_ok self (n # ds)" and x: "shape x = n # ds" "is_array x"
  shows "BatchNormalization_feedforward self x = Done (self\<lparr>output := batch_norm self x\<rparr>)"
proof -
  let ?sz = "prod_list ds"
  from ok have out: "shape (output self) = n # ds" "length (cells (output self)) = n * ?sz"
    and len: "length (bn_g self) = n" "length (bn_b self) = n" "length (bn_m self) = n" "length (bn_v self) = n"
    by (auto simp: bn_ok_def is_array_def)
  from x have lx: "length (cells x) = n * ?sz" by (simp add: is_array_def)
  let ?f = "\<lambda>i. bn_formula (bn_g self ! i) (bn_b self ! i) (bn_m self ! i) (bn_v self ! i) (bn_e self)"
  let ?new = "\<lambda>i. map (?f i) (slice_at ds i (cells x))"
  have new: "length (?new i) = ?sz" if "i < n" for i
    using length_slice_at[OF lx that] by simp
  have body: "bn_channel self x i out =
      Done (out\<lparr>cells := take (i * ?sz) (cells out) @ ?new i @ drop (Suc i * ?sz) (cells out)\<rparr>)"
    if "i < n" "shape out = shape (output self)" "length (cells out) = n * ?sz" for i out
  proof -
    let ?v = "nd_map (?f i) \<lparr>shape = ds, cells = slice_at ds i (cells x)\<rparr>"
    have "shape ?v = ds" "is_array ?v"
      using length_slice_at[OF lx that(1)] by (simp_all add: nd_map_def is_array_def)
    from broadcast_to_same[OF this] have "broadcast_to ds ?v = Inr (?new i)"
      by (simp add: nd_map_def)
    with that len x(1) out(1) show ?thesis
      by (simp add: bn_channel_formula get1_def index0_def assign_index0_def nd_map_def)
  qed
  have "for_loop [0..<n] (bn_channel self x) (output self) =
      Done ((output self)\<lparr>cells := concat (map ?new [0..<n]) @ drop (n * ?sz) (cells (output self))\<rparr>)"
    by (rule for_loop_slices[OF order_refl out(2) body new])
  also have "(output self)\<lparr>cells := concat (map ?new [0..<n]) @ drop (n * ?sz) (cells (output self))\<rparr> =
      batch_norm self x"
    using out x(1) by (simp add: batch_norm_def)
  finally show ?thesis
    using x(1) by (simp add: BatchNormalization_feedforward_def extent0_def)
qed

lemma bn_formula_identity: "bn_formula 1 0 0 1 0 xv = xv"
  by (cases xv) (simp_all add: bn_formula_def fsub_def signed_inf_def)

lemma bn_formula_real:
  "0 < v + e \<Longrightarrow> bn_formula g b m v e (Finite xr) = Finite (g * (xr - m) / sqrt (v + e) + b)"
  by (simp add: bn_formula_def fsub_def)

lemma batch_norm_identity:
  assumes "\<And>i. i < n \<Longrightarrow> bn_g self ! i = 1 \<and> bn_b self ! i = 0 \<and> bn_m self ! i = 0 \<and> bn_v self ! i = 1"
    and "bn_e self = 0" and "shape x = n # ds" and "is_array x"
  shows "batch_norm self x = x"
proof -
  have "concat (map (\<lambda>i. map (bn_formula (bn_g self ! i) (bn_b self ! i) (bn_m self ! i)
                                          (bn_v self ! i) (bn_e self))
                                (slice_at ds i (cells x))) [0..<n]) =
      concat (map (\<lambda>i. slice_at ds i (cells x)) [0..<n])"
    by (rule arg_cong[where f = concat], rule map_cong[OF refl])
       (simp add: assms(1,2) bn_formula_identity[abs_def])
  also have "\<dots> = cells x"
    using assms(3,4) concat_slices[of "cells x" n "prod_list ds"]
    by (simp add: slice_at_def is_array_def)
  finally show ?thesis
    using assms(3) by (simp add: batch_norm_def)
qed

lemma batch_norm_cell:
  assumes "shape x = n # ds" and "is_array x" and "i < n" and "k < prod_list ds"
  shows "cells (batch_norm self x) ! (i * prod_list ds + k) =
         bn_formula (bn_g self ! i) (bn_b self ! i) (bn_m self ! i) (bn_v self ! i) (bn_e self)
           (cells x ! (i * prod_list ds + k))"
proof -
  let ?sz = "prod_list ds"
  let ?new = "\<lambda>i. map (bn_formula (bn_g self ! i) (bn_b self ! i) (bn_m self ! i) (bn_v self ! i) (bn_e self))
                    (slice_at ds i (cells x))"
  from assms have lx: "length (cells x) = n * ?sz" by (simp add: is_array_def)
  have new: "length (?new j) = ?sz" if "j < n" for j
    using length_slice_at[OF lx that] by simp
  have pre: "length (concat (map ?new [0..<j])) = j * ?sz" if "j \<le> n" for j
    using that new by (induction j) auto
  from assms(3) have "[0..<n] = [0..<i] @ i # [Suc i..<n]"
    by (metis le_add1 less_imp_add_positive upt_add_eq_append upt_conv_Cons zero_le)
  then have "concat (map ?new [0..<n]) = concat (map ?new [0..<i]) @ ?new i @ concat (map ?new [Suc i..<n])"
    by simp
  then have "concat (map ?new [0..<n]) ! (i * ?sz + k) = ?new i ! k"
    using pre[of i] assms(3,4) new[OF assms(3)] by (simp add: nth_append)
  also have "\<dots> = bn_formula (bn_g self ! i) (bn_b self ! i) (bn_m self ! i) (bn_v self ! i) (bn_e self)
           (slice_at ds i (cells x) ! k)"
    using length_slice_at[OF lx assms(3)] assms(4) by simp
  also have "slice_at ds i (cells x) ! k = cells x ! (i * ?sz + k)"
  proof -
    from assms(3) have "i * ?sz \<le> n * ?sz" by (intro mult_le_mono1) simp
    with lx have "i * ?sz \<le> length (cells x)" by simp
    from nth_drop[OF this, of k] assms(4) show ?thesis by (simp add: slice_at_def)
  qed
  finally show ?thesis using assms(1) by (simp add: batch_norm_def)
qed


text \<open>
  C9. For a batch normalization layer of any rank with one parameter of each kind per
  channel and an input of the declared shape, feedforward returns and the buffer holds,
  in every cell of channel \<open>i\<close>, \<open>g[i] * (x - m[i]) / sqrt(v[i] + e) + b[i]\<close> of the
  input's cell \<open>x\<close>, in the extended arithmetic of the source: where the cell is finite
  and \<open>v[i] + e\<close> is positive, this is the real number that the formula denotes, and
  where \<open>v[i] + e\<close> is zero or negative it is an infinity or NaN. With gamma 1, beta 0,
  mean 0, variance 1 and epsilon 0 the buffer holds the input.
\<close>

theorem BatchNormalization_feedforward_formula:
  assumes "bn_ok self (n # ds)" and "shape x = n # ds" and "is_array x"
  shows "BatchNormalization_feedforward self x = Done (self\<lparr>output := batch_norm self x\<rparr>) \<and>
         shape (batch_norm self x) = n # ds \<and>
         (\<forall>i<n. \<forall>k<prod_list ds.
            cells (batch_norm self x) ! (i * prod_list ds + k) =
              fadd (fdiv (fmul (Finite (bn_g self ! i))
                               (fsub (cells x ! (i * prod_list ds + k)) (Finite (bn_m self ! i))))
                         (fsqrt (Finite (bn_v self ! i + bn_e self))))
                   (Finite (bn_b self ! i)) \<and>
            (\<forall>xr. cells x ! (i * prod_list ds + k) = Finite xr \<and> 0 < bn_v self ! i + bn_e self \<longrightarrow>
               cells (batch_norm self x) ! (i * prod_list ds + k) =
                 Finite (bn_g self ! i * (xr - bn_m self ! i) / sqrt (bn_v self ! i + bn_e self)
                         + bn_b self ! i))) \<and>
         ((\<forall>i<n. bn_g self ! i = 1 \<and> bn_b self ! i = 0 \<and> bn_m self ! i = 0 \<and> bn_v self ! i = 1) \<and>
          bn_e self = 0 \<longrightarrow>
          BatchNormalization_feedforward self x = Done (self\<lparr>output := x\<rparr>))"
proof (intro conjI allI impI)
  show run: "BatchNormalization_feedforward self x = Done (self\<lparr>output := batch_norm self x\<rparr>)"
    by (rule BatchNormalization_feedforward_general[OF assms])
  show "shape (batch_norm self x) = n # ds"
    using assms(2) by (simp add: batch_norm_def)
  show "cells (batch_norm self x) ! (i * prod_list ds + k) =
          fadd (fdiv (fmul (Finite (bn_g self ! i))
                           (fsub (cells x ! (i * prod_list ds + k)) (Finite (bn_m self ! i))))
                     (fsqrt (Finite (bn_v self ! i + bn_e self))))
               (Finite (bn_b self ! i))"
    if "i < n" "k < prod_list ds" for i k
    using batch_norm_cell[OF assms(2,3) that, of self] by (simp only: bn_formula_def)
  show "cells (batch_norm self x) ! (i * prod_list ds + k) =
          Finite (bn_g self ! i * (xr - bn_m self ! i) / sqrt (bn_v self ! i + bn_e self) + bn_b self ! i)"
    if "i < n" "k < prod_list ds"
      "cells x ! (i * prod_list ds + k) = Finite xr \<and> 0 < bn_v self ! i + bn_e self" for i k xr
    using batch_norm_cell[OF assms(2,3) that(1,2), of self] that(3) by (simp add: bn_formula_real)
  show "BatchNormalization_feedforward self x = Done (self\<lparr>output := x\<rparr>)"
    if "(\<forall>i<n. bn_g self ! i = 1 \<and> bn_b self ! i = 0 \<and> bn_m self ! i = 0 \<and> bn_v self ! i = 1) \<and> bn_e self = 0"
  proof -
    from that have "batch_norm self x = x" by (intro batch_norm_identity[OF _ _ assms(2,3)]) auto
    with run show ?thesis by simp
  qed
qed

text \<open>
  A layer after a dense layer, with two channels of one cell each: the cells 5 and 7
  become \<open>3 * (5 - 1) / sqrt 4 + 1 = 7\<close> and \<open>1 * (7 - 0) / sqrt 1 + 0 = 7\<close>. And a layer
  for one channel of one row and two columns with the parameters of the identity.
\<close>

definition bn_example :: BatchNormalization where
  "bn_example =
     \<lparr>name = ''bn'', output = \<lparr>shape = [2], cells = [Finite 0, Finite 0]\<rparr>,
      bn_g = [3, 1], bn_b = [1, 0], bn_m = [1, 0], bn_v = [4, 1], bn_e = 0\<rparr>"

definition bn_identity :: BatchNormalization where
  "bn_identity =
     \<lparr>name = ''bn'', output = \<lparr>shape = [1, 1, 2], cells = [Finite 0, Finite 0]\<rparr>,
      bn_g = [1], bn_b = [0], bn_m = [0], bn_v = [1], bn_e = 0\<rparr>"

theorem BatchNormalization_feedforward_formula_witness:
  "bn_ok bn_example [2] \<and>
   is_array \<lparr>shape = [2], cells = [Finite 5, Finite 7]\<rparr> \<and>
   0 < bn_v bn_example ! 0 + bn_e bn_example \<and> 0 < bn_v bn_example ! 1 + bn_e bn_example \<and>
   BatchNormalization_feedforward bn_example \<lparr>shape = [2], cells = [Finite 5, Finite 7]\<rparr> =
     Done (bn_example\<lparr>output := batch_norm bn_example \<lparr>shape = [2], cells = [Finite 5, Finite 7]\<rparr>\<rparr>) \<and>
   cells (batch_norm bn_example \<lparr>shape = [2], cells = [Finite 5, Finite 7]\<rparr>) ! 0 = Finite 7 \<and>
   cells (batch_norm bn_example \<lparr>shape = [2], cells = [Finite 5, Finite 7]\<rparr>) ! 1 = Finite 7 \<and>
   bn_ok bn_identity [1, 1, 2] \<and>
   is_array \<lparr>shape = [1, 1, 2], cells = [Finite 3, PosInf]\<rparr> \<and>
   bn_g bn_identity ! 0 = 1 \<and> bn_b bn_identity ! 0 = 0 \<and> bn_m bn_identity ! 0 = 0 \<and>
   bn_v bn_identity ! 0 = 1 \<and> bn_e bn_identity = 0 \<and>
   BatchNormalization_feedforward bn_identity \<lparr>shape = [1, 1, 2], cells = [Finite 3, PosInf]\<rparr> =
     Done (bn_identity\<lparr>output := \<lparr>shape = [1, 1, 2], cells = [Finite 3, PosInf]\<rparr>\<rparr>)"
proof -
  let ?x = "\<lparr>shape = [2], cells = [Finite 5, Finite 7]\<rparr>"
  let ?y = "\<lparr>shape = [1, 1, 2], cells = [Finite 3, PosInf]\<rparr>"
  have ok: "bn_ok bn_example [2]"
    by (simp add: bn_ok_def bn_example_def is_array_def)
  have x: "shape ?x = [2]" "is_array ?x"
    by (simp_all add: is_array_def)
  have v: "0 < bn_v bn_example ! 0 + bn_e bn_example" "0 < bn_v bn_example ! 1 + bn_e bn_example"
    by (simp_all add: bn_example_def)
  have c: "cells ?x ! (0 * prod_list [] + 0) = Finite 5" "cells ?x ! (1 * prod_list [] + 0) = Finite 7"
    by simp_all
  note t = BatchNormalization_feedforward_formula[OF ok x]
  from t have run: "BatchNormalization_feedforward bn_example ?x =
      Done (bn_example\<lparr>output := batch_norm bn_example ?x\<rparr>)"
    by blast
  have lt: "(0::nat) < 2" "(1::nat) < 2" "(0::nat) < prod_list []"
    by simp_all
  from t lt c(1) v(1) have "cells (batch_norm bn_example ?x) ! (0 * prod_list [] + 0) =
      Finite (bn_g bn_example ! 0 * (5 - bn_m bn_example ! 0) /
              sqrt (bn_v bn_example ! 0 + bn_e bn_example) + bn_b bn_example ! 0)"
    by blast
  then have c0: "cells (batch_norm bn_example ?x) ! 0 = Finite 7"
    by (simp add: bn_example_def)
  from t lt c(2) v(2) have "cells (batch_norm bn_example ?x) ! (1 * prod_list [] + 0) =
      Finite (bn_g bn_example ! 1 * (7 - bn_m bn_example ! 1) /
              sqrt (bn_v bn_example ! 1 + bn_e bn_example) + bn_b bn_example ! 1)"
    by blast
  then have c1: "cells (batch_norm bn_example ?x) ! 1 = Finite 7"
    by (simp add: bn_example_def)
  have oki: "bn_ok bn_identity [1, 1, 2]"
    by (simp add: bn_ok_def bn_identity_def is_array_def)
  have y: "shape ?y = [1, 1, 2]" "is_array ?y"
    by (simp_all add: is_array_def)
  have p: "bn_g bn_identity ! 0 = 1 \<and> bn_b bn_identity ! 0 = 0 \<and> bn_m bn_identity ! 0 = 0 \<and>
      bn_v bn_identity ! 0 = 1 \<and> bn_e bn_identity = 0"
    by (simp add: bn_identity_def)
  from BatchNormalization_feedforward_formula[OF oki y]
  have "(\<forall>i<1. bn_g bn_identity ! i = 1 \<and> bn_b bn_identity ! i = 0 \<and> bn_m bn_identity ! i = 0 \<and>
            bn_v bn_identity ! i = 1) \<and> bn_e bn_identity = 0 \<longrightarrow>
        BatchNormalization_feedforward bn_identity ?y = Done (bn_identity\<lparr>output := ?y\<rparr>)"
    by blast
  with p have "BatchNormalization_feedforward bn_identity ?y = Done (bn_identity\<lparr>output := ?y\<rparr>)"
    by simp
  with ok x(2) v run c0 c1 oki y(2) p show ?thesis by blast
qed

text \<open>
  With variance 0 and epsilon 0 the division is by zero: the cells 3, 1 and 0 of a
  channel with mean 1 become plus infinity, NaN and minus infinity. With a negative
  variance the square root is NaN, and so is every cell.
\<close>

lemma BatchNormalization_feedforward_not_finite:
  "map_outcome (\<lambda>s. cells (output s))
     (BatchNormalization_feedforward
        \<lparr>name = ''bn'', output = nd_map Finite (np_zeros [2, 3]),
         bn_g = [1, 1], bn_b = [0, 0], bn_m = [1, 0], bn_v = [0, - 4], bn_e = 0\<rparr>
        \<lparr>shape = [2, 3], cells = [Finite 3, Finite 1, Finite 0, Finite 1, Finite 2, Finite 3]\<rparr>)
   = Done [PosInf, NaN, NegInf, NaN, NaN, NaN]"
  by (simp add: BatchNormalization_feedforward_def extent0_def bn_channel_def get1_def index0_def
      assign_index0_def broadcast_to_def broadcasts_def aligned_def nd_map_def np_zeros_def
      slice_at_def fsub_def signed_inf_def numeral_2_eq_2 numeral_3_eq_3 upt_rec)

section \<open>The factory\<close>

text \<open>
  C6, as the code has it. The factory returns the kernel of the layer's class with its
  tag, built by the class's constructor: a dense kernel with \<^verbatim>\<open>other\<close> and a convolution
  with \<^verbatim>\<open>conv\<close> when the layer has a bias and the resolver accepts the name of its
  activation; a pooling kernel with \<^verbatim>\<open>maxpool\<close>; a flatten and a dropout kernel with
  \<^verbatim>\<open>other\<close>; a batch normalization kernel with \<^verbatim>\<open>other\<close> when the layer has four weight
  arrays at least. The output buffer of every kernel holds zeros and has the declared
  output shape without the batch entry. An input layer gives no kernel and no error; a
  layer of any other class raises \<^verbatim>\<open>ValueError\<close> with a message that holds the name of
  its type. A dense or convolution layer without a bias and a batch normalization layer
  with fewer than four weight arrays raise \<^verbatim>\<open>IndexError\<close>, and a name that the resolver
  rejects raises the resolver's error.
\<close>

theorem factory_dispatch:
  "factory A1 A3 (Keras_Dense cfg km None act) = Inl IndexError \<and>
   (A1 act = Inl err1 \<longrightarrow> factory A1 A3 (Keras_Dense cfg km (Some b) act) = Inl err1) \<and>
   (A1 act = Inr a1 \<longrightarrow>
      factory A1 A3 (Keras_Dense cfg km (Some b) act) =
        Inr (Some (Dense_kernel
          \<lparr>name = keras_name cfg, output = np_zeros (tl (output_shape cfg)),
           dense_w = km, dense_b = b, dense_activation = a1\<rparr>, ''other''))) \<and>
   factory A1 A3 (Keras_Conv2D cfg4 k4 None act ksize kstrides) = Inl IndexError \<and>
   (A3 act = Inl err3 \<longrightarrow>
      factory A1 A3 (Keras_Conv2D cfg4 k4 (Some b) act ksize kstrides) = Inl err3) \<and>
   (A3 act = Inr a3 \<longrightarrow>
      factory A1 A3 (Keras_Conv2D cfg4 k4 (Some b) act ksize kstrides) =
        Inr (Some (Conv2D_kernel
          \<lparr>name = keras_name cfg4, output = zeros3 (snd (output_shape cfg4)),
           conv_w = k4, conv_b = b, conv_activation = a3, kernel_size = ksize, strides = kstrides,
           deconv_output = zeros3 (snd (input_shape cfg4))\<rparr>, ''conv''))) \<and>
   factory A1 A3 (Keras_MaxPooling2D cfg4 pool pstrides) =
     Inr (Some (MaxPooling2D_kernel
       \<lparr>name = keras_name cfg4, output = zeros3 (snd (output_shape cfg4)),
        pool_size = pool, pool_strides = pstrides,
        indices = map (map (map (\<lambda>_. (0, 0)))) (zeros3 (snd (output_shape cfg4))),
        deconvolutional_output = zeros3 (snd (input_shape cfg4))\<rparr>, ''maxpool'')) \<and>
   factory A1 A3 (Keras_Flatten cfg) =
     Inr (Some (Flatten_kernel
       \<lparr>name = keras_name cfg, output = np_zeros (tl (output_shape cfg))\<rparr>, ''other'')) \<and>
   (length ws < 4 \<longrightarrow> factory A1 A3 (Keras_BatchNormalization cfg ws eps) = Inl IndexError) \<and>
   (4 \<le> length ws \<longrightarrow>
      factory A1 A3 (Keras_BatchNormalization cfg ws eps) =
        Inr (Some (BatchNormalization_kernel
          \<lparr>name = keras_name cfg, output = nd_map Finite (np_zeros (tl (output_shape cfg))),
           bn_g = ws ! 0, bn_b = ws ! 1, bn_m = ws ! 2, bn_v = ws ! 3, bn_e = eps\<rparr>, ''other''))) \<and>
   factory A1 A3 (Keras_Dropout cfg) =
     Inr (Some (Dropout_kernel
       \<lparr>name = keras_name cfg, output = np_zeros (tl (output_shape cfg))\<rparr>, ''other'')) \<and>
   factory A1 A3 (Keras_InputLayer cfg) = Inr None \<and>
   factory A1 A3 (Keras_Other type_name cfg) =
     Inl (ValueError (''Layer '' @ type_name @ '' is not supported'')) \<and>
   shape (np_zeros (tl (output_shape cfg))) = tl (output_shape cfg) \<and>
   shaped3 (snd (output_shape cfg4)) (zeros3 (snd (output_shape cfg4)))"
proof -
  have bn_short: "factory A1 A3 (Keras_BatchNormalization cfg ws eps) = Inl IndexError"
    if "length ws < 4"
    using that by (auto simp: factory_def BatchNormalization_init_def get1_def bind_err_def)
  have bn_long: "factory A1 A3 (Keras_BatchNormalization cfg ws eps) =
        Inr (Some (BatchNormalization_kernel
          \<lparr>name = keras_name cfg, output = nd_map Finite (np_zeros (tl (output_shape cfg))),
           bn_g = ws ! 0, bn_b = ws ! 1, bn_m = ws ! 2, bn_v = ws ! 3, bn_e = eps\<rparr>, ''other''))"
    if "4 \<le> length ws"
    using that by (auto simp: factory_def BatchNormalization_init_def get1_def)
  show ?thesis
    using bn_short bn_long
    by (simp add: factory_def Dense_init_def Conv2D_init_def MaxPooling2D_init_def Flatten_init_def
        Dropout_init_def bias_of_def np_zeros_def shaped3_zeros3)
qed

text \<open>
  A resolver that knows the linear activation only. A dense layer, a convolution and a
  batch normalization layer after a dense layer, with their weights, and the same layers
  with an activation the resolver rejects or with too few weights.
\<close>

definition linear_only :: "string \<Rightarrow> error + 'a activation" where
  "linear_only activation_name =
     (if activation_name = ''linear'' then Inr Returns_argument
      else Inl (ValueError ''unknown activation''))"

theorem factory_dispatch_witness:
  "(linear_only ''linear'' :: error + real ndarray activation) = Inr Returns_argument \<and>
   (linear_only ''relu'' :: error + real ndarray activation) = Inl (ValueError ''unknown activation'') \<and>
   (linear_only ''linear'' :: error + tensor3 activation) = Inr Returns_argument \<and>
   (linear_only ''relu'' :: error + tensor3 activation) = Inl (ValueError ''unknown activation'') \<and>
   factory linear_only linear_only
       (Keras_Dense \<lparr>keras_name = ''fc'', input_shape = [1, 2], output_shape = [1, 2]\<rparr>
          [[1, 0], [0, 1]] (Some [0, 0]) ''linear'')
     = Inr (Some (Dense_kernel \<lparr>name = ''fc'', output = \<lparr>shape = [2], cells = [0, 0]\<rparr>,
                    dense_w = [[1, 0], [0, 1]], dense_b = [0, 0],
                    dense_activation = Returns_argument\<rparr>, ''other'')) \<and>
   factory linear_only linear_only
       (Keras_Dense \<lparr>keras_name = ''fc'', input_shape = [1, 2], output_shape = [1, 2]\<rparr>
          [[1, 0], [0, 1]] (Some [0, 0]) ''relu'')
     = Inl (ValueError ''unknown activation'') \<and>
   factory linear_only linear_only
       (Keras_Conv2D \<lparr>keras_name = ''conv'', input_shape = (1, 1, 2, 2), output_shape = (1, 1, 1, 1)\<rparr>
          [[[[1]], [[1]]], [[[1]], [[1]]]] (Some [0]) ''linear'' (2, 2) (1, 1))
     = Inr (Some (Conv2D_kernel \<lparr>name = ''conv'', output = [[[0]]],
                    conv_w = [[[[1]], [[1]]], [[[1]], [[1]]]], conv_b = [0],
                    conv_activation = Returns_argument, kernel_size = (2, 2), strides = (1, 1),
                    deconv_output = [[[0, 0], [0, 0]]]\<rparr>, ''conv'')) \<and>
   factory linear_only linear_only
       (Keras_Conv2D \<lparr>keras_name = ''conv'', input_shape = (1, 1, 2, 2), output_shape = (1, 1, 1, 1)\<rparr>
          [[[[1]], [[1]]], [[[1]], [[1]]]] (Some [0]) ''relu'' (2, 2) (1, 1))
     = Inl (ValueError ''unknown activation'') \<and>
   length [[1, 1], [0, 0], [0, 0], [1, 1 :: real]] = 4 \<and>
   factory linear_only linear_only
       (Keras_BatchNormalization \<lparr>keras_name = ''bn'', input_shape = [1, 2], output_shape = [1, 2]\<rparr>
          [[1, 1], [0, 0], [0, 0], [1, 1]] 0)
     = Inr (Some (BatchNormalization_kernel
          \<lparr>name = ''bn'', output = \<lparr>shape = [2], cells = [Finite 0, Finite 0]\<rparr>,
           bn_g = [1, 1], bn_b = [0, 0], bn_m = [0, 0], bn_v = [1, 1], bn_e = 0\<rparr>, ''other'')) \<and>
   length [[1, 1], [0, 0], [1, 1 :: real]] < 4 \<and>
   factory linear_only linear_only
       (Keras_BatchNormalization \<lparr>keras_name = ''bn'', input_shape = [1, 2], output_shape = [1, 2]\<rparr>
          [[1, 1], [0, 0], [1, 1]] 0)
     = Inl IndexError"
proof -
  let ?cfg = "\<lparr>keras_name = ''fc'', input_shape = [1, 2 :: nat], output_shape = [1, 2 :: nat]\<rparr>"
  let ?cfg4 = "\<lparr>keras_name = ''conv'', input_shape = (1 :: nat, 1 :: nat, 2 :: nat, 2 :: nat),
                 output_shape = (1 :: nat, 1 :: nat, 1 :: nat, 1 :: nat)\<rparr>"
  let ?bn = "\<lparr>keras_name = ''bn'', input_shape = [1, 2 :: nat], output_shape = [1, 2 :: nat]\<rparr>"
  have r: "(linear_only ''linear'' :: error + real ndarray activation) = Inr Returns_argument"
    "(linear_only ''relu'' :: error + real ndarray activation) = Inl (ValueError ''unknown activation'')"
    "(linear_only ''linear'' :: error + tensor3 activation) = Inr Returns_argument"
    "(linear_only ''relu'' :: error + tensor3 activation) = Inl (ValueError ''unknown activation'')"
    by (simp_all add: linear_only_def)
  have l: "length [[1, 1], [0, 0], [0, 0], [1, 1 :: real]] = 4"
    "length [[1, 1], [0, 0], [1, 1 :: real]] < 4"
    by simp_all
  from factory_dispatch[where ?A1.0 = linear_only and ?A3.0 = linear_only and cfg = ?cfg
      and km = "[[1, 0], [0, 1]]" and b = "[0, 0]" and act = "''linear''" and ?a1.0 = Returns_argument]
    r(1)
  have "factory linear_only linear_only (Keras_Dense ?cfg [[1, 0], [0, 1]] (Some [0, 0]) ''linear'')
     = Inr (Some (Dense_kernel \<lparr>name = keras_name ?cfg, output = np_zeros (tl (output_shape ?cfg)),
                    dense_w = [[1, 0], [0, 1]], dense_b = [0, 0],
                    dense_activation = Returns_argument\<rparr>, ''other''))"
    by blast
  then have d1: "factory linear_only linear_only (Keras_Dense ?cfg [[1, 0], [0, 1]] (Some [0, 0]) ''linear'')
     = Inr (Some (Dense_kernel \<lparr>name = ''fc'', output = \<lparr>shape = [2], cells = [0, 0]\<rparr>,
                    dense_w = [[1, 0], [0, 1]], dense_b = [0, 0],
                    dense_activation = Returns_argument\<rparr>, ''other''))"
    by (simp add: np_zeros_def numeral_2_eq_2)
  from factory_dispatch[where ?A1.0 = linear_only and ?A3.0 = linear_only and cfg = ?cfg
      and km = "[[1, 0], [0, 1]]" and b = "[0, 0]" and act = "''relu''"
      and ?err1.0 = "ValueError ''unknown activation''"]
    r(2)
  have d2: "factory linear_only linear_only (Keras_Dense ?cfg [[1, 0], [0, 1]] (Some [0, 0]) ''relu'')
     = Inl (ValueError ''unknown activation'')"
    by blast
  from factory_dispatch[where ?A1.0 = linear_only and ?A3.0 = linear_only and ?cfg4.0 = ?cfg4
      and ?k4.0 = "[[[[1]], [[1]]], [[[1]], [[1]]]]" and b = "[0]" and act = "''linear''"
      and ksize = "(2, 2)" and kstrides = "(1, 1)" and ?a3.0 = Returns_argument]
    r(3)
  have "factory linear_only linear_only
       (Keras_Conv2D ?cfg4 [[[[1]], [[1]]], [[[1]], [[1]]]] (Some [0]) ''linear'' (2, 2) (1, 1))
     = Inr (Some (Conv2D_kernel \<lparr>name = keras_name ?cfg4, output = zeros3 (snd (output_shape ?cfg4)),
                    conv_w = [[[[1]], [[1]]], [[[1]], [[1]]]], conv_b = [0],
                    conv_activation = Returns_argument, kernel_size = (2, 2), strides = (1, 1),
                    deconv_output = zeros3 (snd (input_shape ?cfg4))\<rparr>, ''conv''))"
    by blast
  then have c1: "factory linear_only linear_only
       (Keras_Conv2D ?cfg4 [[[[1]], [[1]]], [[[1]], [[1]]]] (Some [0]) ''linear'' (2, 2) (1, 1))
     = Inr (Some (Conv2D_kernel \<lparr>name = ''conv'', output = [[[0]]],
                    conv_w = [[[[1]], [[1]]], [[[1]], [[1]]]], conv_b = [0],
                    conv_activation = Returns_argument, kernel_size = (2, 2), strides = (1, 1),
                    deconv_output = [[[0, 0], [0, 0]]]\<rparr>, ''conv''))"
    by (simp add: zeros3_def zeros2_def numeral_2_eq_2)
  from factory_dispatch[where ?A1.0 = linear_only and ?A3.0 = linear_only and ?cfg4.0 = ?cfg4
      and ?k4.0 = "[[[[1]], [[1]]], [[[1]], [[1]]]]" and b = "[0]" and act = "''relu''"
      and ksize = "(2, 2)" and kstrides = "(1, 1)" and ?err3.0 = "ValueError ''unknown activation''"]
    r(4)
  have c2: "factory linear_only linear_only
       (Keras_Conv2D ?cfg4 [[[[1]], [[1]]], [[[1]], [[1]]]] (Some [0]) ''relu'' (2, 2) (1, 1))
     = Inl (ValueError ''unknown activation'')"
    by blast
  have l4: "4 \<le> length [[1, 1], [0, 0], [0, 0], [1, 1 :: real]]"
    by simp
  from factory_dispatch[where ?A1.0 = linear_only and ?A3.0 = linear_only and cfg = ?bn
      and ws = "[[1, 1], [0, 0], [0, 0], [1, 1]]" and eps = 0]
    l4
  have "factory linear_only linear_only
       (Keras_BatchNormalization ?bn [[1, 1], [0, 0], [0, 0], [1, 1]] 0)
     = Inr (Some (BatchNormalization_kernel
          \<lparr>name = keras_name ?bn, output = nd_map Finite (np_zeros (tl (output_shape ?bn))),
           bn_g = [[1, 1], [0, 0], [0, 0], [1, 1]] ! 0, bn_b = [[1, 1], [0, 0], [0, 0], [1, 1]] ! 1,
           bn_m = [[1, 1], [0, 0], [0, 0], [1, 1]] ! 2, bn_v = [[1, 1], [0, 0], [0, 0], [1, 1]] ! 3,
           bn_e = 0\<rparr>, ''other''))"
    by blast
  then have b1: "factory linear_only linear_only
       (Keras_BatchNormalization ?bn [[1, 1], [0, 0], [0, 0], [1, 1]] 0)
     = Inr (Some (BatchNormalization_kernel
          \<lparr>name = ''bn'', output = \<lparr>shape = [2], cells = [Finite 0, Finite 0]\<rparr>,
           bn_g = [1, 1], bn_b = [0, 0], bn_m = [0, 0], bn_v = [1, 1], bn_e = 0\<rparr>, ''other''))"
    by (simp add: np_zeros_def nd_map_def numeral_3_eq_3 numeral_2_eq_2)
  from factory_dispatch[where ?A1.0 = linear_only and ?A3.0 = linear_only and cfg = ?bn
      and ws = "[[1, 1], [0, 0], [1, 1]]" and eps = 0]
    l(2)
  have b2: "factory linear_only linear_only
       (Keras_BatchNormalization ?bn [[1, 1], [0, 0], [1, 1]] 0) = Inl IndexError"
    by blast
  from r l d1 d2 c1 c2 b1 b2 show ?thesis by blast
qed

text \<open>
  C6 as stated fails on a dense layer without a bias (\<^verbatim>\<open>use_bias=False\<close>): its
  \<^verbatim>\<open>get_weights()\<close> has one entry, the constructor reads the second, and the factory
  raises \<^verbatim>\<open>IndexError\<close> instead of returning a kernel.
\<close>

theorem factory_dense_without_bias_counterexample:
  "factory linear_only linear_only
     (Keras_Dense \<lparr>keras_name = ''fc'', input_shape = [1, 2], output_shape = [1, 2]\<rparr>
        [[1, 0], [0, 1]] None ''linear'')
   = Inl IndexError"
  by (simp add: factory_def Dense_init_def bias_of_def)


section \<open>Kernels without deconvolve\<close>

text \<open>
  C7. The classes \<^verbatim>\<open>Conv2D\<close> and \<^verbatim>\<open>MaxPooling2D\<close> define \<^verbatim>\<open>deconvolve\<close>, and calling
  it on such a kernel runs the class's method; the classes \<^verbatim>\<open>Dense\<close>, \<^verbatim>\<open>Flatten\<close>,
  \<^verbatim>\<open>BatchNormalization\<close> and \<^verbatim>\<open>Dropout\<close> do not, and calling it on such a kernel raises
  \<^verbatim>\<open>AttributeError\<close> and leaves the kernel as it was.
\<close>

theorem deconvolve_defined_for_conv_and_pool:
  "has_deconvolve (Conv2D_kernel conv) \<and>
   has_deconvolve (MaxPooling2D_kernel pool) \<and>
   deconvolve (Conv2D_kernel conv) x = map_outcome Conv2D_kernel (Conv2D_deconvolve conv (Some x) None) \<and>
   deconvolve (MaxPooling2D_kernel pool) x = map_outcome MaxPooling2D_kernel (MaxPooling2D_deconvolve pool x) \<and>
   \<not> has_deconvolve (Dense_kernel dense) \<and>
   \<not> has_deconvolve (Flatten_kernel flat) \<and>
   \<not> has_deconvolve (BatchNormalization_kernel bn) \<and>
   \<not> has_deconvolve (Dropout_kernel dropout) \<and>
   deconvolve (Dense_kernel dense) x =
     Raised (AttributeError ''Dense object has no attribute deconvolve'') (Dense_kernel dense) \<and>
   deconvolve (Flatten_kernel flat) x =
     Raised (AttributeError ''Flatten object has no attribute deconvolve'') (Flatten_kernel flat) \<and>
   deconvolve (BatchNormalization_kernel bn) x =
     Raised (AttributeError ''BatchNormalization object has no attribute deconvolve'')
       (BatchNormalization_kernel bn) \<and>
   deconvolve (Dropout_kernel dropout) x =
     Raised (AttributeError ''Dropout object has no attribute deconvolve'') (Dropout_kernel dropout)"
  by simp

section \<open>Inputs of another shape\<close>

lemma strip_ones_rank: "length vs \<le> r \<Longrightarrow> strip_ones r vs = vs"
  by (cases vs) simp_all

lemma assign_all_rejects:
  assumes "shape a \<noteq> []" and "\<not> broadcasts (shape a) (shape v)"
  shows "assign_all a v = Inl (ValueError ''could not broadcast input array'')"
  using assms by (cases "shape a") (simp_all add: assign_all_def broadcast_to_def)

lemma not_broadcasts_extent:
  assumes "length vs = length ts" and "k < length vs" and "vs ! k \<noteq> ts ! k" and "vs ! k \<noteq> 1"
  shows "\<not> broadcasts ts vs"
proof -
  from assms(1) have "aligned ts vs = vs"
    by (simp add: aligned_def strip_ones_rank)
  with assms show ?thesis
    by (auto simp: broadcasts_def list_all2_conv_all_nth)
qed

lemma not_broadcasts_rank:
  assumes "length ts < length vs" and "hd vs \<noteq> 1"
  shows "\<not> broadcasts ts vs"
proof -
  from assms obtain d ds where vs: "vs = d # ds" and d: "d \<noteq> 1" by (cases vs) auto
  with assms(1) have "strip_ones (length ts) vs = vs" by simp
  with assms(1) show ?thesis by (simp add: broadcasts_def)
qed

lemma not_broadcasts_row:
  assumes "m \<noteq> n" and "m \<noteq> 1"
  shows "\<not> broadcasts [n] [1, m]"
  using assms by (simp add: broadcasts_def aligned_def)

text \<open>
  C8, for the kernels that reject an input. A dense kernel, given an input of rank one
  at least whose last axis is not as long as the weights have rows; a flatten kernel
  with a buffer of rank one, given an input whose number of cells is neither the
  buffer's nor 1; a dropout kernel, given an input of the buffer's rank with an extent
  that is neither the buffer's nor 1, or an input of a higher rank whose first extent is
  not 1: feedforward raises numpy's \<^verbatim>\<open>ValueError\<close> and leaves the layer, and so every
  cell of the output buffer, as it was. Whenever feedforward of one of these three
  kernels raises, the layer is as it was.
\<close>

theorem feedforward_rejects_mismatch:
  "(shape x \<noteq> [] \<and> last (shape x) \<noteq> length (dense_w dense) \<longrightarrow>
      Dense_feedforward dense x = Raised (ValueError ''shapes not aligned'') dense) \<and>
   (shape (output flat) = [n] \<and> length (cells y) \<noteq> n \<and> length (cells y) \<noteq> 1 \<longrightarrow>
      Flatten_feedforward flat y = Raised (ValueError ''could not broadcast input array'') flat) \<and>
   (shape (output dropout) \<noteq> [] \<and> length (shape z) = length (shape (output dropout)) \<and>
    (\<exists>k<length (shape z). shape z ! k \<noteq> shape (output dropout) ! k \<and> shape z ! k \<noteq> 1) \<longrightarrow>
      Dropout_feedforward dropout z = Raised (ValueError ''could not broadcast input array'') dropout) \<and>
   (shape (output dropout) \<noteq> [] \<and> length (shape (output dropout)) < length (shape z) \<and>
    hd (shape z) \<noteq> 1 \<longrightarrow>
      Dropout_feedforward dropout z = Raised (ValueError ''could not broadcast input array'') dropout) \<and>
   (Dense_feedforward dense x = Raised err1 s1 \<longrightarrow> s1 = dense) \<and>
   (Flatten_feedforward flat y = Raised err2 s2 \<longrightarrow> s2 = flat) \<and>
   (Dropout_feedforward dropout z = Raised err3 s3 \<longrightarrow> s3 = dropout)"
proof (intro conjI impI)
  show "Dense_feedforward dense x = Raised (ValueError ''shapes not aligned'') dense"
    if "shape x \<noteq> [] \<and> last (shape x) \<noteq> length (dense_w dense)"
    using that by (simp add: Dense_feedforward_def dot_def)
  show "Flatten_feedforward flat y = Raised (ValueError ''could not broadcast input array'') flat"
    if "shape (output flat) = [n] \<and> length (cells y) \<noteq> n \<and> length (cells y) \<noteq> 1"
  proof -
    from that have "\<not> broadcasts [n] [1, length (cells y)]"
      by (intro not_broadcasts_row) simp_all
    with that have "\<not> broadcasts (shape (output flat)) (shape \<lparr>shape = [1, length (cells y)], cells = cells y\<rparr>)"
      by simp
    from assign_all_rejects[OF _ this] that show ?thesis
      by (simp add: Flatten_feedforward_def)
  qed
  show "Dropout_feedforward dropout z = Raised (ValueError ''could not broadcast input array'') dropout"
    if "shape (output dropout) \<noteq> [] \<and> length (shape z) = length (shape (output dropout)) \<and>
      (\<exists>k<length (shape z). shape z ! k \<noteq> shape (output dropout) ! k \<and> shape z ! k \<noteq> 1)"
  proof -
    from that obtain k where "k < length (shape z)" "shape z ! k \<noteq> shape (output dropout) ! k"
      "shape z ! k \<noteq> 1" by blast
    with that have "\<not> broadcasts (shape (output dropout)) (shape z)"
      by (intro not_broadcasts_extent[where k = k]) simp_all
    from assign_all_rejects[OF _ this] that show ?thesis
      by (simp add: Dropout_feedforward_def)
  qed
  show "Dropout_feedforward dropout z = Raised (ValueError ''could not broadcast input array'') dropout"
    if "shape (output dropout) \<noteq> [] \<and> length (shape (output dropout)) < length (shape z) \<and>
      hd (shape z) \<noteq> 1"
  proof -
    from that have "\<not> broadcasts (shape (output dropout)) (shape z)"
      by (intro not_broadcasts_rank) simp_all
    from assign_all_rejects[OF _ this] that show ?thesis
      by (simp add: Dropout_feedforward_def)
  qed
  show "s1 = dense" if "Dense_feedforward dense x = Raised err1 s1"
    using that by (auto simp: Dense_feedforward_def attempt_def split: sum.splits)
  show "s2 = flat" if "Flatten_feedforward flat y = Raised err2 s2"
    using that by (auto simp: Flatten_feedforward_def attempt_def split: sum.splits)
  show "s3 = dropout" if "Dropout_feedforward dropout z = Raised err3 s3"
    using that by (auto simp: Dropout_feedforward_def attempt_def split: sum.splits)
qed

text \<open>
  A dense layer with two rows of weights, run on three entries; a flatten layer with four
  output cells, run on three cells; a dropout layer for two by three cells, run on two by
  two cells and on two arrays of two by three cells.
\<close>

definition unchecked_dense :: Dense where
  "unchecked_dense =
     \<lparr>name = ''fc'', output = \<lparr>shape = [2], cells = [8, 9]\<rparr>, dense_w = [[1, 0], [0, 1]],
      dense_b = [0, 0], dense_activation = Returns_argument\<rparr>"

definition unchecked_flatten :: "real ndarray Layer" where
  "unchecked_flatten = \<lparr>name = ''flat'', output = \<lparr>shape = [4], cells = [6, 7, 8, 9]\<rparr>\<rparr>"

definition unchecked_dropout :: "real ndarray Layer" where
  "unchecked_dropout = \<lparr>name = ''drop'', output = \<lparr>shape = [2, 3], cells = [4, 5, 6, 7, 8, 9]\<rparr>\<rparr>"

theorem feedforward_rejects_mismatch_witness:
  "Dense_feedforward unchecked_dense \<lparr>shape = [3], cells = [1, 2, 3]\<rparr> =
     Raised (ValueError ''shapes not aligned'') unchecked_dense \<and>
   Flatten_feedforward unchecked_flatten \<lparr>shape = [1, 3], cells = [1, 2, 3]\<rparr> =
     Raised (ValueError ''could not broadcast input array'') unchecked_flatten \<and>
   Dropout_feedforward unchecked_dropout \<lparr>shape = [2, 2], cells = [1, 2, 3, 4]\<rparr> =
     Raised (ValueError ''could not broadcast input array'') unchecked_dropout \<and>
   Dropout_feedforward unchecked_dropout
       \<lparr>shape = [2, 2, 3], cells = [1, 2, 3, 4, 5, 6, 1, 2, 3, 4, 5, 6]\<rparr> =
     Raised (ValueError ''could not broadcast input array'') unchecked_dropout \<and>
   output unchecked_dense = \<lparr>shape = [2], cells = [8, 9]\<rparr> \<and>
   output unchecked_flatten = \<lparr>shape = [4], cells = [6, 7, 8, 9]\<rparr> \<and>
   output unchecked_dropout = \<lparr>shape = [2, 3], cells = [4, 5, 6, 7, 8, 9]\<rparr>"
proof -
  let ?x = "\<lparr>shape = [3 :: nat], cells = [1, 2, 3 :: real]\<rparr>"
  let ?y = "\<lparr>shape = [1, 3 :: nat], cells = [1, 2, 3 :: real]\<rparr>"
  let ?z = "\<lparr>shape = [2, 2 :: nat], cells = [1, 2, 3, 4 :: real]\<rparr>"
  let ?z' = "\<lparr>shape = [2, 2, 3 :: nat], cells = [1, 2, 3, 4, 5, 6, 1, 2, 3, 4, 5, 6 :: real]\<rparr>"
  have hx: "shape ?x \<noteq> [] \<and> last (shape ?x) \<noteq> length (dense_w unchecked_dense)"
    by (simp add: unchecked_dense_def)
  have hy: "shape (output unchecked_flatten) = [4] \<and> length (cells ?y) \<noteq> 4 \<and> length (cells ?y) \<noteq> 1"
    by (simp add: unchecked_flatten_def)
  have hz: "shape (output unchecked_dropout) \<noteq> [] \<and>
      length (shape ?z) = length (shape (output unchecked_dropout)) \<and>
      (\<exists>k<length (shape ?z). shape ?z ! k \<noteq> shape (output unchecked_dropout) ! k \<and> shape ?z ! k \<noteq> 1)"
    by (auto simp: unchecked_dropout_def intro!: exI[of _ 1])
  have hz': "shape (output unchecked_dropout) \<noteq> [] \<and>
      length (shape (output unchecked_dropout)) < length (shape ?z') \<and> hd (shape ?z') \<noteq> 1"
    by (simp add: unchecked_dropout_def)
  note t = feedforward_rejects_mismatch[where dense = unchecked_dense and x = ?x
      and flat = unchecked_flatten and y = ?y and n = 4 and dropout = unchecked_dropout
      and ?err1.0 = "ValueError ''shapes not aligned''" and ?s1.0 = unchecked_dense
      and ?err2.0 = "ValueError ''could not broadcast input array''" and ?s2.0 = unchecked_flatten
      and ?err3.0 = "ValueError ''could not broadcast input array''" and ?s3.0 = unchecked_dropout]
  from t[where z = ?z] hx have d: "Dense_feedforward unchecked_dense ?x =
      Raised (ValueError ''shapes not aligned'') unchecked_dense"
    by blast
  from t[where z = ?z] hy have f: "Flatten_feedforward unchecked_flatten ?y =
      Raised (ValueError ''could not broadcast input array'') unchecked_flatten"
    by blast
  from t[where z = ?z] hz have r: "Dropout_feedforward unchecked_dropout ?z =
      Raised (ValueError ''could not broadcast input array'') unchecked_dropout"
    by blast
  from t[where z = ?z'] hz' have r': "Dropout_feedforward unchecked_dropout ?z' =
      Raised (ValueError ''could not broadcast input array'') unchecked_dropout"
    by blast
  have o: "output unchecked_dense = \<lparr>shape = [2], cells = [8, 9]\<rparr>"
    "output unchecked_flatten = \<lparr>shape = [4], cells = [6, 7, 8, 9]\<rparr>"
    "output unchecked_dropout = \<lparr>shape = [2, 3], cells = [4, 5, 6, 7, 8, 9]\<rparr>"
    by (simp_all add: unchecked_dense_def unchecked_flatten_def unchecked_dropout_def)
  from d f r r' o show ?thesis by blast
qed

text \<open>
  C8 as stated fails on a convolution layer with a kernel of two by two ones, declared
  for one channel of four by four cells, when it is given two by two cells: no error is
  raised, the buffer, which held the result 4 of an earlier call in every cell, is
  overwritten, and a result that has one computed cell and zeros elsewhere is returned.
\<close>

theorem Conv2D_feedforward_small_input_counterexample:
  "\<not> shaped3 (1, 4, 4) ([[[1, 1], [1, 1]]] :: tensor3) \<and>
   map_outcome output (Conv2D_feedforward
      \<lparr>name = ''conv'', output = [[[4, 4, 4], [4, 4, 4], [4, 4, 4]]],
        conv_w = [[[[1]], [[1]]], [[[1]], [[1]]]], conv_b = [0], conv_activation = Returns_argument,
        kernel_size = (2, 2), strides = (1, 1), deconv_output = zeros3 (1, 4, 4)\<rparr>
      (Array [[[1, 1], [1, 1]]]))
    = Done [[[4, 0, 0], [0, 0, 0], [0, 0, 0]]]"
  by code_simp

text \<open>
  The pooling and the batch normalization kernel do not check the input either. A pooling
  layer declared for two by two cells, given four by four, writes the first output cell
  and raises at the second. A batch normalization layer for two channels, given one,
  returns with the second channel as it was.
\<close>

lemma MaxPooling2D_feedforward_large_input:
  "map_outcome output (MaxPooling2D_feedforward
      (MaxPooling2D_init
         \<lparr>keras_name = ''pool'', input_shape = (1, 1, 2, 2), output_shape = (1, 1, 1, 1)\<rparr>
         (2, 2) (2, 2))
      (Array [[[1, 2, 3, 4], [5, 6, 7, 8], [9, 10, 11, 12], [13, 14, 15, 16]]]))
    = Raised IndexError [[[6]]]"
  by code_simp

lemma BatchNormalization_feedforward_fewer_channels:
  "map_outcome output (BatchNormalization_feedforward
      \<lparr>name = ''bn'', output = \<lparr>shape = [2, 2], cells = [Finite 6, Finite 7, Finite 8, Finite 9]\<rparr>,
       bn_g = [1, 1], bn_b = [0, 0], bn_m = [0, 0], bn_v = [1, 1], bn_e = 0\<rparr>
      \<lparr>shape = [1, 2], cells = [Finite 1, Finite 2]\<rparr>)
    = Done \<lparr>shape = [2, 2], cells = [Finite 1, Finite 2, Finite 8, Finite 9]\<rparr>"
  by (simp add: BatchNormalization_feedforward_def extent0_def bn_channel_def get1_def index0_def
      assign_index0_def broadcast_to_def broadcasts_def aligned_def nd_map_def
      slice_at_def fsub_def numeral_2_eq_2 upt_rec)

section \<open>Results do not depend on what the buffers held\<close>

lemma result_map_outcome: "result f (map_outcome g r) = result (\<lambda>s. f (g s)) r"
  by (cases r) auto

lemma fill0_shape: "fill0 a = map (map (\<lambda>n. replicate n 0)) (map (map length) a)"
  by (simp add: fill0_def map_replicate_const[symmetric] o_def del: map_replicate_const)

lemma same_shape3_fill0: "same_shape3 a b \<Longrightarrow> fill0 a = fill0 b"
  by (simp add: fill0_shape same_shape3_def)

lemma same_shape3_length: "same_shape3 a b \<Longrightarrow> length a = length b"
  unfolding same_shape3_def by (metis length_map)

lemma conv_cell_params [simp]:
  "conv_cell (self\<lparr>output := o', deconv_output := d'\<rparr>) = conv_cell self"
  by (intro ext) (simp add: conv_cell_def)

lemma add_bias_params [simp]:
  "add_bias (self\<lparr>output := o', deconv_output := d'\<rparr>) = add_bias self"
  by (intro ext) (simp add: add_bias_def)

lemma deconv_cell_params [simp]:
  "deconv_cell (self\<lparr>output := o', deconv_output := d'\<rparr>) = deconv_cell self"
  by (intro ext) (simp add: deconv_cell_def)

lemma Conv2D_feedforward_buffers:
  assumes "same_shape3 o' (output self)"
  shows "result output (Conv2D_feedforward (self\<lparr>output := o', deconv_output := d'\<rparr>) x) =
         result output (Conv2D_feedforward self x)"
  using same_shape3_fill0[OF assms] same_shape3_length[OF assms]
  by (simp add: Conv2D_feedforward_def result_map_outcome shape0_def)

lemma Conv2D_deconvolve_buffers:
  assumes "same_shape3 d' (deconv_output self)"
  shows "result deconv_output
           (Conv2D_deconvolve (self\<lparr>output := o', deconv_output := d'\<rparr>) (Some (Array x)) w_arg) =
         result deconv_output (Conv2D_deconvolve self (Some (Array x)) w_arg)"
  using same_shape3_fill0[OF assms]
  by (cases w_arg) (simp_all add: Conv2D_deconvolve_def result_map_outcome Let_def activated_def)

lemma assign_all_shape:
  assumes "shape a = shape b"
  shows "assign_all a v = assign_all b v"
proof -
  have eq: "a\<lparr>cells := new\<rparr> = b\<lparr>cells := new\<rparr>" for new
    by (rule ndarray.equality) (simp_all add: assms)
  show ?thesis by (simp only: assign_all_def assms eq)
qed

lemma Dense_feedforward_buffers:
  assumes "shape v' = shape (output self)"
  shows "result output (Dense_feedforward (self\<lparr>output := v'\<rparr>) x) = result output (Dense_feedforward self x)"
  using assign_all_shape[OF assms]
  by (simp add: Dense_feedforward_def attempt_def bind_err_def split: sum.splits)

lemma Flatten_feedforward_buffers:
  assumes "shape v' = shape (output self)"
  shows "result output (Flatten_feedforward (self\<lparr>output := v'\<rparr>) x) = result output (Flatten_feedforward self x)"
  using assign_all_shape[OF assms]
  by (simp add: Flatten_feedforward_def attempt_def split: sum.splits)

lemma Dropout_feedforward_buffers:
  assumes "shape v' = shape (output self)"
  shows "result output (Dropout_feedforward (self\<lparr>output := v'\<rparr>) x) = result output (Dropout_feedforward self x)"
  using assign_all_shape[OF assms]
  by (simp add: Dropout_feedforward_def attempt_def split: sum.splits)

lemma BatchNormalization_feedforward_buffers:
  assumes "bn_ok self d" and "shape x = d" and "is_array x" and "shape o' = d" and "is_array o'"
  shows "result output (BatchNormalization_feedforward (self\<lparr>output := o'\<rparr>) x) =
         result output (BatchNormalization_feedforward self x)"
proof -
  from assms(1) obtain n ds where d: "d = n # ds" by (cases d) (auto simp: bn_ok_def)
  from assms have ok': "bn_ok (self\<lparr>output := o'\<rparr>) (n # ds)" by (simp add: bn_ok_def d)
  have "batch_norm (self\<lparr>output := o'\<rparr>) x = batch_norm self x" by (simp add: batch_norm_def)
  with BatchNormalization_feedforward_general[OF ok' assms(2)[unfolded d] assms(3)]
    BatchNormalization_feedforward_general[OF assms(1)[unfolded d] assms(2)[unfolded d] assms(3)]
  show ?thesis by simp
qed

section \<open>Pooling with strides equal to the pool size\<close>

text \<open>
  A step that returns, keeps \<open>pool_inv\<close> and every field but the two buffers, and writes
  the maximum and its position to the cells in \<open>W\<close>, leaving the other cells as they were.
\<close>

definition pool_writes ::
  "nat \<times> nat \<Rightarrow> nat \<times> nat \<times> nat \<Rightarrow> tensor3 \<Rightarrow> (MaxPooling2D \<Rightarrow> MaxPooling2D outcome) \<Rightarrow>
   (nat \<times> nat \<times> nat) set \<Rightarrow> bool" where
  "pool_writes ps d x step W =
     (\<forall>s. pool_inv ps d s \<longrightarrow>
        (\<exists>s'. step s = Done s' \<and> pool_inv ps d s' \<and>
           s' = s\<lparr>output := output s', indices := indices s'\<rparr> \<and>
           (\<forall>i<fst d. \<forall>r<fst (snd d). \<forall>q<snd (snd d).
              output s' ! i ! r ! q = (if (i, r, q) \<in> W then pool_max x ps i r q else output s ! i ! r ! q) \<and>
              indices s' ! i ! r ! q = (if (i, r, q) \<in> W then pool_argmax x ps i r q else indices s ! i ! r ! q))))"

lemma pool_writes_for_loop:
  assumes "\<And>y. y \<in> set ys \<Longrightarrow> pool_writes ps d x (body y) (W y)"
  shows "pool_writes ps d x (for_loop ys body) (\<Union>y\<in>set ys. W y)"
  using assms
proof (induction ys)
  case Nil
  show ?case by (simp add: pool_writes_def)
next
  case (Cons y ys)
  have step: "pool_writes ps d x (body y) (W y)"
    and rest: "pool_writes ps d x (for_loop ys body) (\<Union>y\<in>set ys. W y)"
    using Cons by auto
  show ?case
    unfolding pool_writes_def
  proof (intro allI impI)
    fix s assume "pool_inv ps d s"
    with step obtain s1 where s1: "body y s = Done s1" "pool_inv ps d s1"
      "s1 = s\<lparr>output := output s1, indices := indices s1\<rparr>"
      "\<And>i r q. i < fst d \<Longrightarrow> r < fst (snd d) \<Longrightarrow> q < snd (snd d) \<Longrightarrow>
         output s1 ! i ! r ! q = (if (i, r, q) \<in> W y then pool_max x ps i r q else output s ! i ! r ! q) \<and>
         indices s1 ! i ! r ! q = (if (i, r, q) \<in> W y then pool_argmax x ps i r q else indices s ! i ! r ! q)"
      unfolding pool_writes_def by blast
    from rest s1(2) obtain s2 where s2: "for_loop ys body s1 = Done s2" "pool_inv ps d s2"
      "s2 = s1\<lparr>output := output s2, indices := indices s2\<rparr>"
      "\<And>i r q. i < fst d \<Longrightarrow> r < fst (snd d) \<Longrightarrow> q < snd (snd d) \<Longrightarrow>
         output s2 ! i ! r ! q = (if (i, r, q) \<in> (\<Union>y\<in>set ys. W y) then pool_max x ps i r q else output s1 ! i ! r ! q) \<and>
         indices s2 ! i ! r ! q = (if (i, r, q) \<in> (\<Union>y\<in>set ys. W y) then pool_argmax x ps i r q else indices s1 ! i ! r ! q)"
      unfolding pool_writes_def by blast
    have eq: "s2 = s\<lparr>output := output s2, indices := indices s2\<rparr>"
      by (subst s2(3), subst s1(3)) simp
    have cells: "output s2 ! i ! r ! q = (if (i, r, q) \<in> (\<Union>y\<in>set (y # ys). W y) then pool_max x ps i r q else output s ! i ! r ! q) \<and>
         indices s2 ! i ! r ! q = (if (i, r, q) \<in> (\<Union>y\<in>set (y # ys). W y) then pool_argmax x ps i r q else indices s ! i ! r ! q)"
      if "i < fst d" "r < fst (snd d)" "q < snd (snd d)" for i r q
      using s1(4)[OF that] s2(4)[OF that] by auto
    show "\<exists>s'. for_loop (y # ys) body s = Done s' \<and> pool_inv ps d s' \<and>
           s' = s\<lparr>output := output s', indices := indices s'\<rparr> \<and>
           (\<forall>i<fst d. \<forall>r<fst (snd d). \<forall>q<snd (snd d).
              output s' ! i ! r ! q = (if (i, r, q) \<in> (\<Union>y\<in>set (y # ys). W y) then pool_max x ps i r q else output s ! i ! r ! q) \<and>
              indices s' ! i ! r ! q = (if (i, r, q) \<in> (\<Union>y\<in>set (y # ys). W y) then pool_argmax x ps i r q else indices s ! i ! r ! q))"
      using s1(1) s2(1,2) eq cells by (intro exI[of _ s2]) simp
  qed
qed

lemma pool_writes_eq:
  assumes "\<And>s. pool_inv ps d s \<Longrightarrow> f s = g s" and "pool_writes ps d x g W" and "W = W'"
  shows "pool_writes ps d x f W'"
  using assms unfolding pool_writes_def by auto

lemma first_index_less: "y \<in> set xs \<Longrightarrow> first_index y xs < length xs"
  by (induction xs) auto

lemma py_range_multiples:
  "0 < p \<Longrightarrow> py_range (a * p) p = Inr (map (\<lambda>n. n * p) [0..<a])"
proof -
  assume p: "0 < p"
  have "(a * p + p - 1) div p = a"
  proof -
    have "a * p + p - 1 = a * p + (p - 1)" using p by simp
    moreover have "(a * p + (p - 1)) div p = a + (p - 1) div p"
      using p by (simp only: div_mult_self3) 
    moreover have "(p - 1) div p = 0" using p by simp
    ultimately show ?thesis by simp
  qed
  with p show ?thesis by (simp add: py_range_def)
qed

lemma div_window_fits: "n < h div p \<Longrightarrow> n * p + p \<le> (h::nat)"
proof -
  assume "n < h div p"
  then have "Suc n \<le> h div p" by simp
  then have "Suc n * p \<le> h div p * p" by (rule mult_le_mono1)
  also have "\<dots> \<le> h" by simp
  finally show ?thesis by simp
qed


lemma pool_cell_writes:
  assumes x: "shaped3 (c, h, wd) x" and p: "0 < fst ps" "0 < snd ps"
    and i: "i < c" and n: "n < h div fst ps" and m: "m < wd div snd ps"
  shows "pool_writes ps (c, h div fst ps, wd div snd ps) x
           (pool_cell x i (n * fst ps) (m * snd ps)) {(i, n, m)}"
  unfolding pool_writes_def
proof (intro allI impI)
  fix s assume inv: "pool_inv ps (c, h div fst ps, wd div snd ps) s"
  let ?d = "(c, h div fst ps, wd div snd ps)"
  let ?win = "pool_window x ps i n m"
  let ?flat = "concat ?win"
  from inv have ps: "pool_size s = ps" and st: "pool_strides s = ps"
    and out: "shaped3 ?d (output s)" and ind: "shaped3 ?d (indices s)"
    by (auto simp: pool_inv_def)
  from window_ok[OF x i div_window_fits[OF n] div_window_fits[OF m]]
  have win: "window x i (n * fst ps) (fst ps) (m * snd ps) (snd ps) = Inr ?win"
    and sh: "shaped2 (fst ps, snd ps) ?win"
    by (auto simp: window_def pool_window_def split: if_splits)
  from sh have lw: "length ?win = fst ps" and rows: "\<And>r. r \<in> set ?win \<Longrightarrow> length r = snd ps"
    by (auto simp: shaped2_def list_all_iff)
  have lf: "length ?flat = fst ps * snd ps"
  proof -
    have "map length ?win = replicate (fst ps) (snd ps)"
      using lw rows by (intro replicate_eqI) auto
    then show ?thesis by (simp add: length_concat sum_list_replicate)
  qed
  have ne: "?flat \<noteq> []"
  proof
    assume "?flat = []"
    then have "length ?flat = 0" by simp
    with lf p show False by simp
  qed
  then obtain v vs where flat: "?flat = v # vs" by (cases ?flat) auto
  have mx: "fold max vs v = Max (set ?flat)"
    using Max.set_eq_fold[of v vs] by (simp only: flat)
  have am: "amax ?win = Inr (pool_max x ps i n m)"
    unfolding pool_max_def mx[symmetric] by (simp add: amax_def flat)
  from ne have "Max (set ?flat) \<in> set ?flat" by (intro Max_in) auto
  from first_index_less[OF this] lf
  have k: "first_index (Max (set ?flat)) ?flat < fst ps * snd ps" by simp
  have ag: "argmax ?win = Inr (first_index (Max (set ?flat)) ?flat)"
    unfolding mx[symmetric] by (simp add: argmax_def flat)
  from sh p have s01: "shape0 ?win = fst ps" "shape1 ?win = snd ps"
    by (cases ?win; auto simp: shape0_def shape1_def shaped2_def)+
  have ur: "bind_err (argmax ?win) (\<lambda>k. unravel_index k (shape0 ?win, shape1 ?win))
      = Inr (first_index (Max (set ?flat)) ?flat div snd ps, first_index (Max (set ?flat)) ?flat mod snd ps)"
    using k by (simp add: ag s01 unravel_index_def)
  have fl: "py_floordiv (n * fst ps) (fst ps) = Inr n" "py_floordiv (m * snd ps) (snd ps) = Inr m"
    using p by (auto simp: py_floordiv_def)
  from set3_ok[OF out i n m, of "pool_max x ps i n m"]
  obtain out' where out': "set3 (output s) i n m (pool_max x ps i n m) = Inr out'" "shaped3 ?d out'"
    "\<And>i' r' c'. i' < c \<Longrightarrow> r' < h div fst ps \<Longrightarrow> c' < wd div snd ps \<Longrightarrow> out' ! i' ! r' ! c' =
       (if i' = i \<and> r' = n \<and> c' = m then pool_max x ps i n m else output s ! i' ! r' ! c')" by blast
  from set3_ok[OF ind i n m, of "pool_argmax x ps i n m"]
  obtain ind' where ind': "set3 (indices s) i n m (pool_argmax x ps i n m) = Inr ind'" "shaped3 ?d ind'"
    "\<And>i' r' c'. i' < c \<Longrightarrow> r' < h div fst ps \<Longrightarrow> c' < wd div snd ps \<Longrightarrow> ind' ! i' ! r' ! c' =
       (if i' = i \<and> r' = n \<and> c' = m then pool_argmax x ps i n m else indices s ! i' ! r' ! c')" by blast
  have run: "pool_cell x i (n * fst ps) (m * snd ps) s = Done (s\<lparr>output := out', indices := ind'\<rparr>)"
    using ind'(1) by (simp add: pool_cell_def ps win am ur fl out'(1) pool_argmax_def Let_def)
  show "\<exists>s'. pool_cell x i (n * fst ps) (m * snd ps) s = Done s' \<and> pool_inv ps ?d s' \<and>
           s' = s\<lparr>output := output s', indices := indices s'\<rparr> \<and>
           (\<forall>i'<fst ?d. \<forall>r<fst (snd ?d). \<forall>q<snd (snd ?d).
              output s' ! i' ! r ! q = (if (i', r, q) \<in> {(i, n, m)} then pool_max x ps i' r q else output s ! i' ! r ! q) \<and>
              indices s' ! i' ! r ! q = (if (i', r, q) \<in> {(i, n, m)} then pool_argmax x ps i' r q else indices s ! i' ! r ! q))"
    using run ps st out'(2,3) ind'(2,3)
    by (intro exI[of _ "s\<lparr>output := out', indices := ind'\<rparr>"]) (auto simp: pool_inv_def)
qed


lemma MaxPooling2D_feedforward_general:
  assumes inv: "pool_inv ps (c, h div fst ps, wd div snd ps) self"
    and x: "shaped3 (c, h, wd) x" and p: "0 < fst ps" "0 < snd ps"
  shows "MaxPooling2D_feedforward self (Array x) =
           Done (self\<lparr>output := tabulate3 (c, h div fst ps, wd div snd ps) (pool_max x ps),
                      indices := tabulate3 (c, h div fst ps, wd div snd ps) (pool_argmax x ps)\<rparr>)"
proof -
  let ?oh = "h div fst ps" and ?ow = "wd div snd ps"
  let ?d = "(c, ?oh, ?ow)"
  let ?cols = "\<lambda>i idx_ih s. attempt (bind_err (py_floordiv (shape2 x) (snd (pool_size s)))
                (\<lambda>k. py_range (k * snd (pool_size s)) (snd (pool_strides s)))) s (\<lambda>cols.
         for_loop cols (\<lambda>idx_iw s. pool_cell x i idx_ih idx_iw s) s)"
  let ?rows = "\<lambda>i s. attempt (bind_err (py_floordiv (shape1 x) (fst (pool_size s)))
              (\<lambda>k. py_range (k * fst (pool_size s)) (fst (pool_strides s)))) s (\<lambda>rows.
       for_loop rows (\<lambda>idx_ih s. ?cols i idx_ih s) s)"
  have cols: "pool_writes ps ?d x (?cols i (n * fst ps)) (\<Union>m\<in>set [0..<?ow]. {(i, n, m)})"
    if "i < c" "n < ?oh" for i n
  proof (rule pool_writes_eq[OF _ _ refl, where g = "for_loop [0..<?ow] (\<lambda>m. pool_cell x i (n * fst ps) (m * snd ps))"])
    fix s assume "pool_inv ps ?d s"
    then have ps: "pool_size s = ps" "pool_strides s = ps" by (auto simp: pool_inv_def)
    from that have "0 < c" "0 < h" by (auto intro: Nat.gr0I)
    then have "shape2 x = wd" using shaped3_shape2[OF x] by simp
    then show "?cols i (n * fst ps) s = for_loop [0..<?ow] (\<lambda>m. pool_cell x i (n * fst ps) (m * snd ps)) s"
      using p by (simp add: ps py_floordiv_def py_range_multiples for_loop_map)
  next
    show "pool_writes ps ?d x (for_loop [0..<?ow] (\<lambda>m. pool_cell x i (n * fst ps) (m * snd ps)))
        (\<Union>m\<in>set [0..<?ow]. {(i, n, m)})"
      by (rule pool_writes_for_loop) (use pool_cell_writes[OF x p that] in auto)
  qed
  have rows: "pool_writes ps ?d x (?rows i) (\<Union>n\<in>set [0..<?oh]. \<Union>m\<in>set [0..<?ow]. {(i, n, m)})"
    if "i < c" for i
  proof (rule pool_writes_eq[OF _ _ refl, where g = "for_loop [0..<?oh] (\<lambda>n. ?cols i (n * fst ps))"])
    fix s assume "pool_inv ps ?d s"
    then have ps: "pool_size s = ps" "pool_strides s = ps" by (auto simp: pool_inv_def)
    from that have "shape1 x = h" using shaped3_shape1[OF x] by simp
    then show "?rows i s = for_loop [0..<?oh] (\<lambda>n. ?cols i (n * fst ps)) s"
      using p by (simp add: ps py_floordiv_def py_range_multiples for_loop_map)
  next
    show "pool_writes ps ?d x (for_loop [0..<?oh] (\<lambda>n. ?cols i (n * fst ps)))
        (\<Union>n\<in>set [0..<?oh]. \<Union>m\<in>set [0..<?ow]. {(i, n, m)})"
      by (rule pool_writes_for_loop) (use cols[OF that] in auto)
  qed
  have "pool_writes ps ?d x (for_loop [0..<c] ?rows)
      (\<Union>i\<in>set [0..<c]. \<Union>n\<in>set [0..<?oh]. \<Union>m\<in>set [0..<?ow]. {(i, n, m)})"
    by (rule pool_writes_for_loop) (use rows in auto)
  with inv obtain s' where s': "for_loop [0..<c] ?rows self = Done s'" "pool_inv ps ?d s'"
    "s' = self\<lparr>output := output s', indices := indices s'\<rparr>"
    "\<And>i r q. i < c \<Longrightarrow> r < ?oh \<Longrightarrow> q < ?ow \<Longrightarrow>
       output s' ! i ! r ! q = pool_max x ps i r q \<and> indices s' ! i ! r ! q = pool_argmax x ps i r q"
    unfolding pool_writes_def by force
  from s'(2) have sh: "shaped3 ?d (output s')" "shaped3 ?d (indices s')" by (auto simp: pool_inv_def)
  have o: "output s' = tabulate3 ?d (pool_max x ps)"
    by (rule shaped3_ext[OF sh(1) shaped3_tabulate3]) (simp add: s'(4) tabulate3_nth)
  have n: "indices s' = tabulate3 ?d (pool_argmax x ps)"
    by (rule shaped3_ext[OF sh(2) shaped3_tabulate3]) (simp add: s'(4) tabulate3_nth)
  from x have "shape0 x = c" by (simp add: shape0_def shaped3_def)
  then have "MaxPooling2D_feedforward self (Array x) = Done s'"
    using s'(1) by (simp add: MaxPooling2D_feedforward_def)
  also have "s' = self\<lparr>output := tabulate3 ?d (pool_max x ps), indices := tabulate3 ?d (pool_argmax x ps)\<rparr>"
    by (subst s'(3)) (simp add: o n)
  finally show ?thesis .
qed

section \<open>Calls change the contents of the buffers only\<close>

text \<open>
  Every method leaves the parameters of the layer, and the shapes of its buffers, as
  they were, whether it returns or raises.
\<close>

lemma state_of_map_outcome: "state_of (map_outcome f r) = f (state_of r)"
  by (cases r) auto

lemma then_do_invariant:
  assumes "P (state_of r)" and "\<And>s. P s \<Longrightarrow> P (state_of (k s))"
  shows "P (state_of (then_do r k))"
  using assms by (cases r) (auto simp: then_do_def)

lemma attempt_invariant:
  assumes "P s" and "\<And>a. r = Inr a \<Longrightarrow> P (state_of (k a))"
  shows "P (state_of (attempt r s k))"
  using assms by (cases r) auto

lemma same_shape3_refl [simp]: "same_shape3 a a"
  by (simp add: same_shape3_def)

lemma same_shape3_trans: "same_shape3 a b \<Longrightarrow> same_shape3 b c \<Longrightarrow> same_shape3 a c"
  by (simp add: same_shape3_def)

lemma map_length_update:
  "i < length a \<Longrightarrow> length b = length (a ! i) \<Longrightarrow> map length (a[i := b]) = map length a"
  by (simp add: map_update list_update_same_conv)

lemma same_shape3_update:
  "i < length a \<Longrightarrow> map length b = map length (a ! i) \<Longrightarrow> same_shape3 (a[i := b]) a"
  by (simp add: same_shape3_def map_update list_update_same_conv)

lemma same_shape3_set3: "set3 a i j k v = Inr a' \<Longrightarrow> same_shape3 a' a"
  by (auto simp: set3_def map_length_update intro!: same_shape3_update split: if_splits)

lemma fit_length: "fit n xs = Inr ys \<Longrightarrow> length ys = n"
  by (auto simp: fit_def split: if_splits)

lemma sequence_err_Inr:
  "sequence_err rs = Inr ys \<Longrightarrow> length ys = length rs \<and> (\<forall>i<length rs. rs ! i = Inr (ys ! i))"
proof (induction rs arbitrary: ys)
  case Nil
  then show ?case by simp
next
  case (Cons r rs)
  from Cons.prems obtain a as where a: "r = Inr a" "sequence_err rs = Inr as" "ys = a # as"
    by (auto simp: bind_err_def split: sum.splits)
  from Cons.IH[OF a(2)] a show ?case by (auto simp: nth_Cons split: nat.splits)
qed

lemma fit2_result_shape:
  assumes "fit2 buf v = Inr r"
  shows "map length r = map length buf"
proof -
  from assms obtain rows where rows: "fit (length buf) v = Inr rows"
    and seq: "sequence_err (map2 (\<lambda>b r. fit (length b) r) buf rows) = Inr r"
    by (auto simp: fit2_def bind_err_def split: sum.splits)
  from fit_length[OF rows] have lr: "length rows = length buf" .
  from sequence_err_Inr[OF seq] lr have l: "length r = length buf"
    and each: "\<And>i. i < length buf \<Longrightarrow> fit (length (buf ! i)) (rows ! i) = Inr (r ! i)"
    by auto
  show ?thesis
    by (rule nth_equalityI) (use l fit_length[OF each] in auto)
qed

lemma fit3_result_shape:
  assumes "fit3 buf v = Inr r"
  shows "same_shape3 r buf"
proof -
  from assms obtain chans where chans: "fit (length buf) v = Inr chans"
    and seq: "sequence_err (map2 fit2 buf chans) = Inr r"
    by (auto simp: fit3_def bind_err_def split: sum.splits)
  from fit_length[OF chans] have lr: "length chans = length buf" .
  from sequence_err_Inr[OF seq] lr have l: "length r = length buf"
    and each: "\<And>i. i < length buf \<Longrightarrow> fit2 (buf ! i) (chans ! i) = Inr (r ! i)"
    by auto
  show ?thesis
    unfolding same_shape3_def
    by (rule nth_equalityI) (use l fit2_result_shape[OF each] in auto)
qed

lemma conv_cell_shape: "same_shape3 (state_of (conv_cell self x i j k l out)) out"
  by (auto simp: conv_cell_def attempt_def dest: same_shape3_set3 split: sum.splits)

lemma add_bias_shape: "same_shape3 (state_of (add_bias self i out)) out"
  by (auto simp: add_bias_def attempt_def get1_def intro!: same_shape3_update split: sum.splits if_splits)

lemma Conv2D_feedforward_keeps:
  "\<exists>o'. state_of (Conv2D_feedforward self x) = self\<lparr>output := o'\<rparr> \<and> same_shape3 o' (output self)"
proof -
  let ?P = "\<lambda>out. same_shape3 out (output self)"
  have cell: "?P (state_of (conv_cell self y i j k l out))" if "?P out" for y i j k l out
    using same_shape3_trans[OF conv_cell_shape that] .
  have bias: "?P (state_of (add_bias self i out))" if "?P out" for i out
    using same_shape3_trans[OF add_bias_shape that] .
  have f0: "?P (fill0 (output self))"
    by (simp add: same_shape3_def fill0_def o_def)
  have act: "?P (state_of (attempt (fit3 out (activate (conv_activation self) out)) out Done))"
    if "?P out" for out
    by (rule attempt_invariant[where P = ?P, OF that])
      (use fit3_result_shape that in \<open>auto intro: same_shape3_trans\<close>)
  show ?thesis
    unfolding Conv2D_feedforward_def state_of_map_outcome
    apply (rule exI, rule conjI, rule refl)
    apply (rule then_do_invariant[where P = ?P])
     apply (rule for_loop_invariant[where P = ?P])
      apply (rule then_do_invariant[where P = ?P])
       apply (rule for_loop_invariant[where P = ?P])
        apply (rule attempt_invariant[where P = ?P], assumption)
        apply (rule for_loop_invariant[where P = ?P])
         apply (rule attempt_invariant[where P = ?P], assumption)
         apply (rule for_loop_invariant[where P = ?P])
          apply (erule cell)
         apply assumption
        apply assumption
       apply assumption
      apply (erule bias)
     apply (rule f0)
    apply (erule act)
    done
qed

lemma add_window_shape:
  assumes "add_window buf j k nr l nc rhs = Inr buf'"
  shows "same_shape3 buf' buf"
proof -
  from assms obtain view rhs' where view: "window buf j k nr l nc = Inr view"
    and b': "buf' = buf[j := map (\<lambda>r.
            if k \<le> r \<and> r < k + length view
            then map (\<lambda>c. if l \<le> c \<and> c < l + length (view ! (r - k))
                          then buf ! j ! r ! c + rhs' ! (r - k) ! (c - l)
                          else buf ! j ! r ! c) [0..<length (buf ! j ! r)]
            else buf ! j ! r) [0..<length (buf ! j)]]"
    by (auto simp: add_window_def bind_err_def split: sum.splits)
  from view have j: "j < length buf" by (auto simp: window_def split: if_splits)
  show ?thesis
    unfolding b' by (rule same_shape3_update[OF j], rule nth_equalityI) auto
qed

lemma deconv_cell_shape: "same_shape3 (state_of (deconv_cell self x wt i j k l buf)) buf"
  by (auto simp: deconv_cell_def attempt_def dest: add_window_shape split: sum.splits)

lemma Conv2D_deconvolve_keeps:
  "\<exists>d'. state_of (Conv2D_deconvolve self x_arg w_arg) = self\<lparr>deconv_output := d'\<rparr> \<and>
        same_shape3 d' (deconv_output self)"
proof -
  let ?P = "\<lambda>buf. same_shape3 buf (deconv_output self)"
  have cell: "?P (state_of (deconv_cell self y wt i j k l buf))" if "?P buf" for y wt i j k l buf
    using same_shape3_trans[OF deconv_cell_shape that] .
  have f0: "?P (fill0 (deconv_output self))"
    by (simp add: same_shape3_def fill0_def o_def)
  show ?thesis
    unfolding Conv2D_deconvolve_def Let_def state_of_map_outcome
    apply (rule exI, rule conjI, rule refl)
    apply (rule for_loop_invariant[where P = ?P])
     apply (rule for_loop_invariant[where P = ?P])
      apply (rule attempt_invariant[where P = ?P], assumption)
      apply (rule for_loop_invariant[where P = ?P])
       apply (rule attempt_invariant[where P = ?P], assumption)
       apply (rule for_loop_invariant[where P = ?P])
        apply (erule cell)
       apply assumption
      apply assumption
     apply assumption
    apply (rule f0)
    done
qed

lemma assign_all_result_shape:
  "assign_all a v = Inr a' \<Longrightarrow> shape a' = shape a \<and> is_array a'"
  by (auto simp: assign_all_def bind_err_def is_array_def dest: length_broadcast_to
      split: list.splits sum.splits)

lemma Dense_feedforward_keeps:
  "\<exists>v'. state_of (Dense_feedforward self x) = self\<lparr>output := v'\<rparr> \<and>
        shape v' = shape (output self) \<and> (is_array (output self) \<longrightarrow> is_array v')"
proof (cases "bind_err (dot x (dense_w self)) (\<lambda>xw.
              bind_err (add_vector xw (dense_b self)) (\<lambda>z.
              assign_all (output self) (activate (dense_activation self) z)))")
  case (Inl err)
  then have "state_of (Dense_feedforward self x) = self\<lparr>output := output self\<rparr>"
    by (simp add: Dense_feedforward_def)
  then show ?thesis by blast
next
  case (Inr new)
  then have "shape new = shape (output self) \<and> is_array new"
    by (auto simp: bind_err_def dest: assign_all_result_shape split: sum.splits)
  with Inr show ?thesis by (auto simp: Dense_feedforward_def)
qed

lemma Flatten_feedforward_keeps:
  "\<exists>v'. state_of (Flatten_feedforward self x) = self\<lparr>output := v'\<rparr> \<and>
        shape v' = shape (output self) \<and> (is_array (output self) \<longrightarrow> is_array v')"
proof (cases "assign_all (output self) \<lparr>shape = [1, length (cells x)], cells = cells x\<rparr>")
  case (Inl err)
  then have "state_of (Flatten_feedforward self x) = self\<lparr>output := output self\<rparr>"
    by (simp add: Flatten_feedforward_def)
  then show ?thesis by blast
next
  case (Inr new)
  with assign_all_result_shape[OF Inr] show ?thesis by (auto simp: Flatten_feedforward_def)
qed

lemma Dropout_feedforward_keeps:
  "\<exists>v'. state_of (Dropout_feedforward self x) = self\<lparr>output := v'\<rparr> \<and>
        shape v' = shape (output self) \<and> (is_array (output self) \<longrightarrow> is_array v')"
proof (cases "assign_all (output self) x")
  case (Inl err)
  then have "state_of (Dropout_feedforward self x) = self\<lparr>output := output self\<rparr>"
    by (simp add: Dropout_feedforward_def)
  then show ?thesis by blast
next
  case (Inr new)
  with assign_all_result_shape[OF Inr] show ?thesis by (auto simp: Dropout_feedforward_def)
qed

lemma assign_index0_result_shape:
  assumes "assign_index0 a i v = Inr a'"
  shows "shape a' = shape a \<and> (is_array a \<longrightarrow> is_array a')"
proof -
  from assms obtain n ds new where s: "shape a = n # ds" and i: "i < n"
    and new: "broadcast_to ds v = Inr new"
    and a': "a' = a\<lparr>cells := take (i * prod_list ds) (cells a) @ new @
                              drop (Suc i * prod_list ds) (cells a)\<rparr>"
    by (auto simp: assign_index0_def bind_err_def split: list.splits if_splits sum.splits)
  have l: "length new = prod_list ds" by (rule length_broadcast_to[OF new])
  have "is_array a'" if "is_array a"
  proof -
    from that s have len: "length (cells a) = n * prod_list ds" by (simp add: is_array_def)
    from i have "Suc i * prod_list ds \<le> n * prod_list ds" by (intro mult_le_mono1) simp
    then have "i * prod_list ds + prod_list ds + (n * prod_list ds - Suc i * prod_list ds) = n * prod_list ds"
      by simp
    moreover from i have "i * prod_list ds \<le> n * prod_list ds" by (intro mult_le_mono1) simp
    ultimately show ?thesis
      by (simp add: is_array_def a' s len l min_absorb2)
  qed
  then show ?thesis by (simp add: a')
qed

definition array_like :: "'a ndarray \<Rightarrow> 'a ndarray \<Rightarrow> bool" where
  "array_like b a = (shape a = shape b \<and> (is_array b \<longrightarrow> is_array a))"

lemma bn_channel_shape: "array_like b out \<Longrightarrow> array_like b (state_of (bn_channel self x i out))"
  by (auto simp: bn_channel_def attempt_def array_like_def dest: assign_index0_result_shape
      split: sum.splits)

lemma BatchNormalization_feedforward_keeps:
  "\<exists>o'. state_of (BatchNormalization_feedforward self x) = self\<lparr>output := o'\<rparr> \<and>
        shape o' = shape (output self) \<and> (is_array (output self) \<longrightarrow> is_array o')"
proof -
  let ?P = "array_like (output self)"
  have p0: "?P (output self)" by (simp add: array_like_def)
  have "\<exists>o'. state_of (BatchNormalization_feedforward self x) = self\<lparr>output := o'\<rparr> \<and> ?P o'"
    unfolding BatchNormalization_feedforward_def state_of_map_outcome
    apply (rule exI, rule conjI, rule refl)
    apply (rule attempt_invariant[where P = ?P], rule p0)
    apply (rule for_loop_invariant[where P = ?P])
     apply (erule bn_channel_shape)
    apply (rule p0)
    done
  then show ?thesis by (auto simp: array_like_def)
qed

definition pool_same :: "MaxPooling2D \<Rightarrow> MaxPooling2D \<Rightarrow> bool" where
  "pool_same s t =
     (\<exists>o' n' b'. t = s\<lparr>output := o', indices := n', deconvolutional_output := b'\<rparr> \<and>
        same_shape3 o' (output s) \<and> same_shape3 n' (indices s) \<and>
        same_shape3 b' (deconvolutional_output s))"

lemma pool_same_refl: "pool_same s s"
  unfolding pool_same_def
  by (rule exI[of _ "output s"], rule exI[of _ "indices s"], rule exI[of _ "deconvolutional_output s"]) simp

lemma pool_same_trans:
  assumes "pool_same s t" "pool_same t u"
  shows "pool_same s u"
proof -
  from assms(1) obtain o1 n1 b1 where
    t: "t = s\<lparr>output := o1, indices := n1, deconvolutional_output := b1\<rparr>"
    and s1: "same_shape3 o1 (output s)" "same_shape3 n1 (indices s)"
      "same_shape3 b1 (deconvolutional_output s)"
    unfolding pool_same_def by blast
  from assms(2) obtain o2 n2 b2 where
    u: "u = t\<lparr>output := o2, indices := n2, deconvolutional_output := b2\<rparr>"
    and s2: "same_shape3 o2 (output t)" "same_shape3 n2 (indices t)"
      "same_shape3 b2 (deconvolutional_output t)"
    unfolding pool_same_def by blast
  have "u = s\<lparr>output := o2, indices := n2, deconvolutional_output := b2\<rparr>"
    unfolding u t by simp
  moreover have "same_shape3 o2 (output s)"
    using same_shape3_trans[OF _ s1(1)] s2(1) by (simp add: t)
  moreover have "same_shape3 n2 (indices s)"
    using same_shape3_trans[OF _ s1(2)] s2(2) by (simp add: t)
  moreover have "same_shape3 b2 (deconvolutional_output s)"
    using same_shape3_trans[OF _ s1(3)] s2(3) by (simp add: t)
  ultimately show ?thesis unfolding pool_same_def by blast
qed

lemma pool_cell_same: "pool_same s (state_of (pool_cell x i k l s))"
proof -
  have a: "pool_same s (s\<lparr>output := out\<rparr>)" if "set3 (output s) i r q v = Inr out" for out r q v
    unfolding pool_same_def using same_shape3_set3[OF that]
    by (intro exI[of _ out] exI[of _ "indices s"] exI[of _ "deconvolutional_output s"]) simp
  have b: "pool_same s (s\<lparr>output := out, indices := ind\<rparr>)"
    if "set3 (output s) i r q v = Inr out" "set3 (indices s) i r q w = Inr ind" for out ind r q v w
    unfolding pool_same_def using same_shape3_set3[OF that(1)] same_shape3_set3[OF that(2)]
    by (intro exI[of _ out] exI[of _ ind] exI[of _ "deconvolutional_output s"]) simp
  show ?thesis
    by (auto simp: pool_cell_def attempt_def Let_def pool_same_refl a b split: sum.splits)
qed

lemma MaxPooling2D_feedforward_keeps: "pool_same self (state_of (MaxPooling2D_feedforward self x))"
proof -
  let ?P = "pool_same self"
  have cell: "?P (state_of (pool_cell y i k l s))" if "?P s" for y i k l s
    using pool_same_trans[OF that pool_cell_same] .
  show ?thesis
    unfolding MaxPooling2D_feedforward_def
    apply (rule for_loop_invariant[where P = ?P])
     apply (rule attempt_invariant[where P = ?P], assumption)
     apply (rule for_loop_invariant[where P = ?P])
      apply (rule attempt_invariant[where P = ?P], assumption)
      apply (rule for_loop_invariant[where P = ?P])
       apply (erule cell)
      apply assumption
     apply assumption
    apply (rule pool_same_refl)
    done
qed

lemma unpool_cell_same: "pool_same s (state_of (unpool_cell x i j k s))"
proof -
  have a: "pool_same s (s\<lparr>deconvolutional_output := buf\<rparr>)"
    if "set3 (deconvolutional_output s) i r q v = Inr buf" for buf r q v
    unfolding pool_same_def using same_shape3_set3[OF that]
    by (intro exI[of _ "output s"] exI[of _ "indices s"] exI[of _ buf]) simp
  show ?thesis
    by (auto simp: unpool_cell_def attempt_def pool_same_refl a split: sum.splits)
qed

lemma MaxPooling2D_deconvolve_keeps: "pool_same self (state_of (MaxPooling2D_deconvolve self x))"
proof -
  let ?P = "pool_same self"
  have cell: "?P (state_of (unpool_cell y i j k s))" if "?P s" for y i j k s
    using pool_same_trans[OF that unpool_cell_same] .
  show ?thesis
    unfolding MaxPooling2D_deconvolve_def
    apply (rule for_loop_invariant[where P = ?P])
     apply (rule for_loop_invariant[where P = ?P])
      apply (rule for_loop_invariant[where P = ?P])
       apply (erule cell)
      apply assumption
     apply assumption
    apply (rule pool_same_refl)
    done
qed

section \<open>Calls made in between\<close>

text \<open>
  \<open>Conv2D_calls s t\<close>: the layer \<open>s\<close> has become \<open>t\<close> by some calls of its methods, with
  any arguments, returning or raising. The same for the other classes.
\<close>

inductive Conv2D_calls :: "Conv2D \<Rightarrow> Conv2D \<Rightarrow> bool" where
  "Conv2D_calls s s"
| "Conv2D_calls s t \<Longrightarrow> Conv2D_calls s (state_of (Conv2D_feedforward t x))"
| "Conv2D_calls s t \<Longrightarrow> Conv2D_calls s (state_of (Conv2D_deconvolve t x_arg w_arg))"

inductive MaxPooling2D_calls :: "MaxPooling2D \<Rightarrow> MaxPooling2D \<Rightarrow> bool" where
  "MaxPooling2D_calls s s"
| "MaxPooling2D_calls s t \<Longrightarrow> MaxPooling2D_calls s (state_of (MaxPooling2D_feedforward t x))"
| "MaxPooling2D_calls s t \<Longrightarrow> MaxPooling2D_calls s (state_of (MaxPooling2D_deconvolve t x))"

inductive Dense_calls :: "Dense \<Rightarrow> Dense \<Rightarrow> bool" where
  "Dense_calls s s"
| "Dense_calls s t \<Longrightarrow> Dense_calls s (state_of (Dense_feedforward t x))"

inductive Flatten_calls :: "real ndarray Layer \<Rightarrow> real ndarray Layer \<Rightarrow> bool" where
  "Flatten_calls s s"
| "Flatten_calls s t \<Longrightarrow> Flatten_calls s (state_of (Flatten_feedforward t x))"

inductive Dropout_calls :: "real ndarray Layer \<Rightarrow> real ndarray Layer \<Rightarrow> bool" where
  "Dropout_calls s s"
| "Dropout_calls s t \<Longrightarrow> Dropout_calls s (state_of (Dropout_feedforward t x))"

inductive BatchNormalization_calls :: "BatchNormalization \<Rightarrow> BatchNormalization \<Rightarrow> bool" where
  "BatchNormalization_calls s s"
| "BatchNormalization_calls s t \<Longrightarrow>
     BatchNormalization_calls s (state_of (BatchNormalization_feedforward t x))"

lemma Conv2D_calls_keep:
  "Conv2D_calls s t \<Longrightarrow>
   \<exists>o' d'. t = s\<lparr>output := o', deconv_output := d'\<rparr> \<and> same_shape3 o' (output s) \<and>
           same_shape3 d' (deconv_output s)"
proof (induction rule: Conv2D_calls.induct)
  case (1 s)
  have "s = s\<lparr>output := output s, deconv_output := deconv_output s\<rparr>" by simp
  then show ?case using same_shape3_refl by blast
next
  case (2 s t x)
  then obtain o1 d1 where t: "t = s\<lparr>output := o1, deconv_output := d1\<rparr>"
    and sh: "same_shape3 o1 (output s)" "same_shape3 d1 (deconv_output s)" by blast
  obtain o2 where n: "state_of (Conv2D_feedforward t x) = t\<lparr>output := o2\<rparr>"
    and s2: "same_shape3 o2 (output t)"
    using Conv2D_feedforward_keeps by blast
  have "state_of (Conv2D_feedforward t x) = s\<lparr>output := o2, deconv_output := d1\<rparr>"
    using n unfolding t by simp
  moreover have "same_shape3 o2 (output s)"
    using same_shape3_trans[OF _ sh(1)] s2 by (simp add: t)
  ultimately show ?case using sh(2) by blast
next
  case (3 s t x_arg w_arg)
  then obtain o1 d1 where t: "t = s\<lparr>output := o1, deconv_output := d1\<rparr>"
    and sh: "same_shape3 o1 (output s)" "same_shape3 d1 (deconv_output s)" by blast
  obtain d2 where n: "state_of (Conv2D_deconvolve t x_arg w_arg) = t\<lparr>deconv_output := d2\<rparr>"
    and s2: "same_shape3 d2 (deconv_output t)"
    using Conv2D_deconvolve_keeps by blast
  have "state_of (Conv2D_deconvolve t x_arg w_arg) = s\<lparr>output := o1, deconv_output := d2\<rparr>"
    using n unfolding t by simp
  moreover have "same_shape3 d2 (deconv_output s)"
    using same_shape3_trans[OF _ sh(2)] s2 by (simp add: t)
  ultimately show ?case using sh(1) by blast
qed

lemma MaxPooling2D_calls_keep: "MaxPooling2D_calls s t \<Longrightarrow> pool_same s t"
proof (induction rule: MaxPooling2D_calls.induct)
  case (1 s)
  show ?case by (rule pool_same_refl)
next
  case (2 s t x)
  then show ?case using pool_same_trans[OF _ MaxPooling2D_feedforward_keeps] by blast
next
  case (3 s t x)
  then show ?case using pool_same_trans[OF _ MaxPooling2D_deconvolve_keeps] by blast
qed

lemma Dense_calls_keep:
  "Dense_calls s t \<Longrightarrow>
   \<exists>v'. t = s\<lparr>output := v'\<rparr> \<and> shape v' = shape (output s) \<and>
        (is_array (output s) \<longrightarrow> is_array v')"
proof (induction rule: Dense_calls.induct)
  case (1 s)
  have "s = s\<lparr>output := output s\<rparr>" by simp
  then show ?case by blast
next
  case (2 s t x)
  then obtain v1 where t: "t = s\<lparr>output := v1\<rparr>" and l: "shape v1 = shape (output s)"
    and a: "is_array (output s) \<longrightarrow> is_array v1" by blast
  obtain v2 where n: "state_of (Dense_feedforward t x) = t\<lparr>output := v2\<rparr>"
    and l2: "shape v2 = shape (output t)" and a2: "is_array (output t) \<longrightarrow> is_array v2"
    using Dense_feedforward_keeps by blast
  have "state_of (Dense_feedforward t x) = s\<lparr>output := v2\<rparr>" using n unfolding t by simp
  moreover have "shape v2 = shape (output s)" using l l2 by (simp add: t)
  moreover have "is_array (output s) \<longrightarrow> is_array v2" using a a2 by (simp add: t)
  ultimately show ?case by blast
qed

lemma Flatten_calls_keep:
  "Flatten_calls s t \<Longrightarrow>
   \<exists>v'. t = s\<lparr>output := v'\<rparr> \<and> shape v' = shape (output s) \<and>
        (is_array (output s) \<longrightarrow> is_array v')"
proof (induction rule: Flatten_calls.induct)
  case (1 s)
  have "s = s\<lparr>output := output s\<rparr>" by simp
  then show ?case by blast
next
  case (2 s t x)
  then obtain v1 where t: "t = s\<lparr>output := v1\<rparr>" and l: "shape v1 = shape (output s)"
    and a: "is_array (output s) \<longrightarrow> is_array v1" by blast
  obtain v2 where n: "state_of (Flatten_feedforward t x) = t\<lparr>output := v2\<rparr>"
    and l2: "shape v2 = shape (output t)" and a2: "is_array (output t) \<longrightarrow> is_array v2"
    using Flatten_feedforward_keeps by blast
  have "state_of (Flatten_feedforward t x) = s\<lparr>output := v2\<rparr>" using n unfolding t by simp
  moreover have "shape v2 = shape (output s)" using l l2 by (simp add: t)
  moreover have "is_array (output s) \<longrightarrow> is_array v2" using a a2 by (simp add: t)
  ultimately show ?case by blast
qed

lemma Dropout_calls_keep:
  "Dropout_calls s t \<Longrightarrow>
   \<exists>v'. t = s\<lparr>output := v'\<rparr> \<and> shape v' = shape (output s) \<and>
        (is_array (output s) \<longrightarrow> is_array v')"
proof (induction rule: Dropout_calls.induct)
  case (1 s)
  have "s = s\<lparr>output := output s\<rparr>" by simp
  then show ?case by blast
next
  case (2 s t x)
  then obtain v1 where t: "t = s\<lparr>output := v1\<rparr>" and l: "shape v1 = shape (output s)"
    and a: "is_array (output s) \<longrightarrow> is_array v1" by blast
  obtain v2 where n: "state_of (Dropout_feedforward t x) = t\<lparr>output := v2\<rparr>"
    and l2: "shape v2 = shape (output t)" and a2: "is_array (output t) \<longrightarrow> is_array v2"
    using Dropout_feedforward_keeps by blast
  have "state_of (Dropout_feedforward t x) = s\<lparr>output := v2\<rparr>" using n unfolding t by simp
  moreover have "shape v2 = shape (output s)" using l l2 by (simp add: t)
  moreover have "is_array (output s) \<longrightarrow> is_array v2" using a a2 by (simp add: t)
  ultimately show ?case by blast
qed

lemma BatchNormalization_calls_keep:
  "BatchNormalization_calls s t \<Longrightarrow>
   \<exists>v'. t = s\<lparr>output := v'\<rparr> \<and> shape v' = shape (output s) \<and>
        (is_array (output s) \<longrightarrow> is_array v')"
proof (induction rule: BatchNormalization_calls.induct)
  case (1 s)
  have "s = s\<lparr>output := output s\<rparr>" by simp
  then show ?case by blast
next
  case (2 s t x)
  then obtain v1 where t: "t = s\<lparr>output := v1\<rparr>" and l: "shape v1 = shape (output s)"
    and a: "is_array (output s) \<longrightarrow> is_array v1" by blast
  obtain v2 where n: "state_of (BatchNormalization_feedforward t x) = t\<lparr>output := v2\<rparr>"
    and l2: "shape v2 = shape (output t)" and a2: "is_array (output t) \<longrightarrow> is_array v2"
    using BatchNormalization_feedforward_keeps by blast
  have "state_of (BatchNormalization_feedforward t x) = s\<lparr>output := v2\<rparr>" using n unfolding t by simp
  moreover have "shape v2 = shape (output s)" using l l2 by (simp add: t)
  moreover have "is_array (output s) \<longrightarrow> is_array v2" using a a2 by (simp add: t)
  ultimately show ?case by blast
qed

lemma same_shape3_shaped3:
  assumes "same_shape3 a b" "shaped3 d b"
  shows "shaped3 d a"
proof -
  from assms(1) have m: "map (map length) a = map (map length) b" by (simp add: same_shape3_def)
  then have len: "length a = length b" by (rule map_eq_imp_length_eq)
  have "shaped2 (snd d) (a ! i)" if "i < length a" for i
  proof -
    from m that len have r: "map length (a ! i) = map length (b ! i)"
      by (metis nth_map)
    from assms(2) that len have "shaped2 (snd d) (b ! i)"
      by (simp add: shaped3_def list_all_length)
    then have "length (b ! i) = fst (snd d)" "list_all (\<lambda>n. n = snd (snd d)) (map length (b ! i))"
      by (simp_all add: shaped2_def list_all_length)
    with r have "length (a ! i) = fst (snd d)" "list_all (\<lambda>n. n = snd (snd d)) (map length (a ! i))"
      using map_eq_imp_length_eq[OF r] by simp_all
    then show ?thesis by (simp add: shaped2_def list_all_length)
  qed
  with len assms(2) show ?thesis by (simp add: shaped3_def list_all_length)
qed

lemma pool_same_inv:
  assumes "pool_same s t" "pool_inv ps d s"
  shows "pool_inv ps d t"
proof -
  from assms(1) obtain o' n' b' where
    t: "t = s\<lparr>output := o', indices := n', deconvolutional_output := b'\<rparr>"
    and sh: "same_shape3 o' (output s)" "same_shape3 n' (indices s)"
    unfolding pool_same_def by blast
  from assms(2) have "shaped3 d (output s)" "shaped3 d (indices s)"
    and p: "pool_size s = ps" "pool_strides s = ps"
    by (simp_all add: pool_inv_def)
  then have "shaped3 d o'" "shaped3 d n'"
    using same_shape3_shaped3[OF sh(1)] same_shape3_shaped3[OF sh(2)] by blast+
  with p show ?thesis by (simp add: pool_inv_def t)
qed

text \<open>
  C5. What a call returns does not depend on the calls made before it, with whatever
  arguments and whether they returned or raised, for these calls:
  \<^verbatim>\<open>Conv2D.feedforward\<close> on an array of rank 3 or on the layer's own output buffer;
  \<^verbatim>\<open>Conv2D.deconvolve\<close> with \<open>x\<close> given as an array of rank 3 that is not the buffer
  the method writes, and any \<open>w\<close>; \<^verbatim>\<open>feedforward\<close> of a dense, flatten or dropout
  layer on an array of any rank; \<^verbatim>\<open>feedforward\<close> of a batch normalization layer that
  has one parameter of each kind per channel, on an array of the shape of its buffer;
  \<^verbatim>\<open>feedforward\<close> of a pooling layer with strides equal to the pool size, on an array
  that the pool size tiles into the shape of the output buffer. In every class the calls
  made before leave the parameters as they were and change only the contents of the
  buffers, not their shapes.
\<close>

theorem repeated_calls_agree:
  "(Conv2D_calls cs ct \<longrightarrow>
      ct = cs\<lparr>output := output ct, deconv_output := deconv_output ct\<rparr> \<and>
      same_shape3 (output ct) (output cs) \<and> same_shape3 (deconv_output ct) (deconv_output cs) \<and>
      result output (Conv2D_feedforward ct cx) = result output (Conv2D_feedforward cs cx) \<and>
      result deconv_output (Conv2D_deconvolve ct (Some (Array cy)) w_arg) =
        result deconv_output (Conv2D_deconvolve cs (Some (Array cy)) w_arg)) \<and>
   (Dense_calls ds dt \<longrightarrow>
      dt = ds\<lparr>output := output dt\<rparr> \<and> shape (output dt) = shape (output ds) \<and>
      result output (Dense_feedforward dt dx) = result output (Dense_feedforward ds dx)) \<and>
   (Flatten_calls fs ft \<longrightarrow>
      ft = fs\<lparr>output := output ft\<rparr> \<and> shape (output ft) = shape (output fs) \<and>
      result output (Flatten_feedforward ft fx) = result output (Flatten_feedforward fs fx)) \<and>
   (Dropout_calls rs rt \<longrightarrow>
      rt = rs\<lparr>output := output rt\<rparr> \<and> shape (output rt) = shape (output rs) \<and>
      result output (Dropout_feedforward rt rx) = result output (Dropout_feedforward rs rx)) \<and>
   (BatchNormalization_calls bs bt \<longrightarrow>
      bt = bs\<lparr>output := output bt\<rparr> \<and> shape (output bt) = shape (output bs) \<and>
      (bn_ok bs bd \<and> shape bx = bd \<and> is_array bx \<longrightarrow>
         result output (BatchNormalization_feedforward bt bx) =
           result output (BatchNormalization_feedforward bs bx))) \<and>
   (MaxPooling2D_calls ms mt \<longrightarrow>
      pool_same ms mt \<and>
      (pool_inv mp (mc, mh div fst mp, mw div snd mp) ms \<and> shaped3 (mc, mh, mw) mx \<and>
       0 < fst mp \<and> 0 < snd mp \<longrightarrow>
         result output (MaxPooling2D_feedforward mt (Array mx)) =
           result output (MaxPooling2D_feedforward ms (Array mx))))"
proof -
  have conv: "ct = cs\<lparr>output := output ct, deconv_output := deconv_output ct\<rparr> \<and>
      same_shape3 (output ct) (output cs) \<and> same_shape3 (deconv_output ct) (deconv_output cs) \<and>
      result output (Conv2D_feedforward ct cx) = result output (Conv2D_feedforward cs cx) \<and>
      result deconv_output (Conv2D_deconvolve ct (Some (Array cy)) w_arg) =
        result deconv_output (Conv2D_deconvolve cs (Some (Array cy)) w_arg)" if "Conv2D_calls cs ct"
  proof -
    from Conv2D_calls_keep[OF that] obtain o' d' where
      t: "ct = cs\<lparr>output := o', deconv_output := d'\<rparr>"
      and sh: "same_shape3 o' (output cs)" "same_shape3 d' (deconv_output cs)" by blast
    have "result deconv_output (Conv2D_deconvolve ct (Some (Array cy)) w_arg) =
        result deconv_output (Conv2D_deconvolve cs (Some (Array cy)) w_arg)"
      unfolding t by (rule Conv2D_deconvolve_buffers[OF sh(2)])
    moreover have "result output (Conv2D_feedforward ct cx) = result output (Conv2D_feedforward cs cx)"
      unfolding t by (rule Conv2D_feedforward_buffers[OF sh(1)])
    moreover have "ct = cs\<lparr>output := output ct, deconv_output := deconv_output ct\<rparr>"
      by (simp add: t)
    ultimately show ?thesis using sh by (simp add: t)
  qed
  have dense: "dt = ds\<lparr>output := output dt\<rparr> \<and> shape (output dt) = shape (output ds) \<and>
      result output (Dense_feedforward dt dx) = result output (Dense_feedforward ds dx)"
    if "Dense_calls ds dt"
  proof -
    from Dense_calls_keep[OF that] obtain v' where
      t: "dt = ds\<lparr>output := v'\<rparr>" and l: "shape v' = shape (output ds)" by blast
    have "result output (Dense_feedforward dt dx) = result output (Dense_feedforward ds dx)"
      unfolding t by (rule Dense_feedforward_buffers[OF l])
    then show ?thesis using l by (simp add: t)
  qed
  have flatten: "ft = fs\<lparr>output := output ft\<rparr> \<and> shape (output ft) = shape (output fs) \<and>
      result output (Flatten_feedforward ft fx) = result output (Flatten_feedforward fs fx)"
    if "Flatten_calls fs ft"
  proof -
    from Flatten_calls_keep[OF that] obtain v' where
      t: "ft = fs\<lparr>output := v'\<rparr>" and l: "shape v' = shape (output fs)" by blast
    have "result output (Flatten_feedforward ft fx) = result output (Flatten_feedforward fs fx)"
      unfolding t by (rule Flatten_feedforward_buffers[OF l])
    then show ?thesis using l by (simp add: t)
  qed
  have dropout: "rt = rs\<lparr>output := output rt\<rparr> \<and> shape (output rt) = shape (output rs) \<and>
      result output (Dropout_feedforward rt rx) = result output (Dropout_feedforward rs rx)"
    if "Dropout_calls rs rt"
  proof -
    from Dropout_calls_keep[OF that] obtain v' where
      t: "rt = rs\<lparr>output := v'\<rparr>" and l: "shape v' = shape (output rs)" by blast
    have "result output (Dropout_feedforward rt rx) = result output (Dropout_feedforward rs rx)"
      unfolding t by (rule Dropout_feedforward_buffers[OF l])
    then show ?thesis using l by (simp add: t)
  qed
  have bn: "bt = bs\<lparr>output := output bt\<rparr> \<and> shape (output bt) = shape (output bs) \<and>
      (bn_ok bs bd \<and> shape bx = bd \<and> is_array bx \<longrightarrow>
         result output (BatchNormalization_feedforward bt bx) =
           result output (BatchNormalization_feedforward bs bx))"
    if "BatchNormalization_calls bs bt"
  proof -
    from BatchNormalization_calls_keep[OF that] obtain o' where
      t: "bt = bs\<lparr>output := o'\<rparr>" and l: "shape o' = shape (output bs)"
      and a: "is_array (output bs) \<longrightarrow> is_array o'" by blast
    have "result output (BatchNormalization_feedforward bt bx) =
        result output (BatchNormalization_feedforward bs bx)"
      if ok: "bn_ok bs bd" and x: "shape bx = bd" "is_array bx"
    proof -
      from ok l a have "shape o' = bd" "is_array o'" by (simp_all add: bn_ok_def)
      then show ?thesis unfolding t by (rule BatchNormalization_feedforward_buffers[OF ok x])
    qed
    then show ?thesis using l by (simp add: t)
  qed
  have pool: "pool_same ms mt \<and>
      (pool_inv mp (mc, mh div fst mp, mw div snd mp) ms \<and> shaped3 (mc, mh, mw) mx \<and>
       0 < fst mp \<and> 0 < snd mp \<longrightarrow>
         result output (MaxPooling2D_feedforward mt (Array mx)) =
           result output (MaxPooling2D_feedforward ms (Array mx)))"
    if "MaxPooling2D_calls ms mt"
  proof -
    have same: "pool_same ms mt" by (rule MaxPooling2D_calls_keep[OF that])
    have "result output (MaxPooling2D_feedforward mt (Array mx)) =
        result output (MaxPooling2D_feedforward ms (Array mx))"
      if inv: "pool_inv mp (mc, mh div fst mp, mw div snd mp) ms" and x: "shaped3 (mc, mh, mw) mx"
        and p: "0 < fst mp" "0 < snd mp"
    proof -
      have inv': "pool_inv mp (mc, mh div fst mp, mw div snd mp) mt"
        by (rule pool_same_inv[OF same inv])
      show ?thesis
        unfolding MaxPooling2D_feedforward_general[OF inv x p]
          MaxPooling2D_feedforward_general[OF inv' x p] by simp
    qed
    with same show ?thesis by blast
  qed
  from conv dense flatten dropout bn pool show ?thesis by blast
qed

text \<open>
  One layer of each class, and the same layer after some calls, among them calls on the
  layer's own buffer and calls that raise.
\<close>

definition sample_conv :: Conv2D where
  "sample_conv =
     \<lparr>name = ''conv'', output = [[[0]]],
      conv_w = [[[[2]]]], conv_b = [0], conv_activation = Returns_argument,
      kernel_size = (1, 1), strides = (1, 1), deconv_output = [[[0]]]\<rparr>"

definition sample_conv_later :: Conv2D where
  "sample_conv_later =
     state_of (Conv2D_deconvolve
       (state_of (Conv2D_feedforward (state_of (Conv2D_feedforward sample_conv (Array [[[3]]])))
          Own_buffer)) None None)"

definition sample_dense :: Dense where
  "sample_dense =
     \<lparr>name = ''fc'', output = \<lparr>shape = [1], cells = [0]\<rparr>, dense_w = [[1]], dense_b = [0],
      dense_activation = Returns_argument\<rparr>"

definition sample_dense_later :: Dense where
  "sample_dense_later =
     state_of (Dense_feedforward
       (state_of (Dense_feedforward sample_dense \<lparr>shape = [1], cells = [7]\<rparr>))
       \<lparr>shape = [2], cells = [1, 2]\<rparr>)"

definition sample_flatten :: "real ndarray Layer" where
  "sample_flatten = \<lparr>name = ''flat'', output = \<lparr>shape = [2], cells = [0, 0]\<rparr>\<rparr>"

definition sample_flatten_later :: "real ndarray Layer" where
  "sample_flatten_later =
     state_of (Flatten_feedforward sample_flatten \<lparr>shape = [1, 1, 2], cells = [1, 2]\<rparr>)"

definition sample_dropout :: "real ndarray Layer" where
  "sample_dropout = \<lparr>name = ''drop'', output = \<lparr>shape = [1, 1, 1], cells = [0]\<rparr>\<rparr>"

definition sample_dropout_later :: "real ndarray Layer" where
  "sample_dropout_later =
     state_of (Dropout_feedforward sample_dropout \<lparr>shape = [1, 1, 1], cells = [4]\<rparr>)"

definition sample_bn :: BatchNormalization where
  "sample_bn =
     \<lparr>name = ''bn'', output = \<lparr>shape = [2], cells = [Finite 0, Finite 0]\<rparr>,
      bn_g = [1, 2], bn_b = [0, 1], bn_m = [0, 0], bn_v = [1, 4], bn_e = 0\<rparr>"

definition sample_bn_later :: BatchNormalization where
  "sample_bn_later =
     state_of (BatchNormalization_feedforward sample_bn \<lparr>shape = [2], cells = [Finite 3, PosInf]\<rparr>)"

definition sample_pool :: MaxPooling2D where
  "sample_pool =
     MaxPooling2D_init
       \<lparr>keras_name = ''pool'', input_shape = (1, 1, 2, 2), output_shape = (1, 1, 1, 1)\<rparr>
       (2, 2) (2, 2)"

definition sample_pool_later :: MaxPooling2D where
  "sample_pool_later =
     state_of (MaxPooling2D_deconvolve
       (state_of (MaxPooling2D_feedforward sample_pool (Array [[[1, 0], [0, 0]]]))) (Array [[[5]]]))"

theorem repeated_calls_agree_witness:
  "Conv2D_calls sample_conv sample_conv_later \<and>
   result output (Conv2D_feedforward sample_conv_later (Array [[[5]]])) =
     result output (Conv2D_feedforward sample_conv (Array [[[5]]])) \<and>
   result deconv_output (Conv2D_deconvolve sample_conv_later (Some (Array [[[5]]])) None) =
     result deconv_output (Conv2D_deconvolve sample_conv (Some (Array [[[5]]])) None) \<and>
   Dense_calls sample_dense sample_dense_later \<and>
   result output (Dense_feedforward sample_dense_later \<lparr>shape = [1], cells = [5]\<rparr>) =
     result output (Dense_feedforward sample_dense \<lparr>shape = [1], cells = [5]\<rparr>) \<and>
   Flatten_calls sample_flatten sample_flatten_later \<and>
   result output (Flatten_feedforward sample_flatten_later \<lparr>shape = [2, 1], cells = [5, 6]\<rparr>) =
     result output (Flatten_feedforward sample_flatten \<lparr>shape = [2, 1], cells = [5, 6]\<rparr>) \<and>
   Dropout_calls sample_dropout sample_dropout_later \<and>
   result output (Dropout_feedforward sample_dropout_later \<lparr>shape = [1, 1, 1], cells = [5]\<rparr>) =
     result output (Dropout_feedforward sample_dropout \<lparr>shape = [1, 1, 1], cells = [5]\<rparr>) \<and>
   BatchNormalization_calls sample_bn sample_bn_later \<and>
   bn_ok sample_bn [2] \<and> is_array \<lparr>shape = [2], cells = [Finite 5, Finite 6]\<rparr> \<and>
   result output (BatchNormalization_feedforward sample_bn_later \<lparr>shape = [2], cells = [Finite 5, Finite 6]\<rparr>) =
     result output (BatchNormalization_feedforward sample_bn \<lparr>shape = [2], cells = [Finite 5, Finite 6]\<rparr>) \<and>
   MaxPooling2D_calls sample_pool sample_pool_later \<and>
   pool_inv (2, 2) (1, 2 div fst (2 :: nat, 2 :: nat), 2 div snd (2 :: nat, 2 :: nat)) sample_pool \<and>
   shaped3 (1, 2, 2) ([[[0, 0], [0, 1]]] :: tensor3) \<and>
   result output (MaxPooling2D_feedforward sample_pool_later (Array [[[0, 0], [0, 1]]])) =
     result output (MaxPooling2D_feedforward sample_pool (Array [[[0, 0], [0, 1]]]))"
proof -
  have conv: "Conv2D_calls sample_conv sample_conv_later"
    unfolding sample_conv_later_def by (intro Conv2D_calls.intros)
  have dense: "Dense_calls sample_dense sample_dense_later"
    unfolding sample_dense_later_def by (intro Dense_calls.intros)
  have flatten: "Flatten_calls sample_flatten sample_flatten_later"
    unfolding sample_flatten_later_def by (intro Flatten_calls.intros)
  have dropout: "Dropout_calls sample_dropout sample_dropout_later"
    unfolding sample_dropout_later_def by (intro Dropout_calls.intros)
  have bn: "BatchNormalization_calls sample_bn sample_bn_later"
    unfolding sample_bn_later_def by (intro BatchNormalization_calls.intros)
  have pool: "MaxPooling2D_calls sample_pool sample_pool_later"
    unfolding sample_pool_later_def by (intro MaxPooling2D_calls.intros)
  have bn_ok: "bn_ok sample_bn [2]"
    by (simp add: bn_ok_def sample_bn_def is_array_def)
  have bx: "shape \<lparr>shape = [2], cells = [Finite 5, Finite 6]\<rparr> = [2]"
    "is_array \<lparr>shape = [2], cells = [Finite 5, Finite 6]\<rparr>"
    by (simp_all add: is_array_def)
  have inv: "pool_inv (2, 2) (1, 2 div fst (2 :: nat, 2 :: nat), 2 div snd (2 :: nat, 2 :: nat)) sample_pool"
    by (simp add: pool_inv_def sample_pool_def MaxPooling2D_init_def zeros3_def
        zeros2_def shaped3_def shaped2_def)
  have mx: "shaped3 (1, 2, 2) ([[[0, 0], [0, 1]]] :: tensor3)"
    by (simp add: shaped3_def shaped2_def)
  have p: "0 < fst (2 :: nat, 2 :: nat) \<and> 0 < snd (2 :: nat, 2 :: nat)"
    by simp
  from repeated_calls_agree[where cs = sample_conv and ct = sample_conv_later and cx = "Array [[[5]]]"
      and cy = "[[[5]]]" and w_arg = None
      and ds = sample_dense and dt = sample_dense_later and dx = "\<lparr>shape = [1], cells = [5]\<rparr>"
      and fs = sample_flatten and ft = sample_flatten_later and fx = "\<lparr>shape = [2, 1], cells = [5, 6]\<rparr>"
      and rs = sample_dropout and rt = sample_dropout_later and rx = "\<lparr>shape = [1, 1, 1], cells = [5]\<rparr>"
      and bs = sample_bn and bt = sample_bn_later and bd = "[2]"
      and bx = "\<lparr>shape = [2], cells = [Finite 5, Finite 6]\<rparr>"
      and ms = sample_pool and mt = sample_pool_later and mp = "(2, 2)" and mc = 1 and mh = 2
      and mw = 2 and mx = "[[[0, 0], [0, 1]]]"]
    conv dense flatten dropout bn pool bn_ok bx inv mx p
  show ?thesis by blast
qed

text \<open>
  The same pooling layer, asked twice to unpool the value 5: after a pass whose maximum
  is at (0, 0) the 5 goes to (0, 0); after another pass whose maximum is at (1, 1) it
  goes to (1, 1), next to the 5 of the first call. The position comes from the indices
  that the last pass recorded, so the two equal calls return different arrays.
\<close>

theorem maxpool_deconvolve_depends_on_last_pass:
  "(let layer = MaxPooling2D_init
         \<lparr>keras_name = ''pool'', input_shape = (1, 1, 2, 2), output_shape = (1, 1, 1, 1)\<rparr>
         (2, 2) (2, 2);
        s1 = state_of (MaxPooling2D_feedforward layer (Array [[[1, 0], [0, 0]]]));
        first_call = MaxPooling2D_deconvolve s1 (Array [[[5]]]);
        s2 = state_of (MaxPooling2D_feedforward (state_of first_call) (Array [[[0, 0], [0, 1]]]));
        second_call = MaxPooling2D_deconvolve s2 (Array [[[5]]])
    in (map_outcome deconvolutional_output first_call,
        map_outcome deconvolutional_output second_call))
   = (Done [[[5, 0], [0, 0]]], Done [[[5, 0], [0, 5]]])"
  by code_simp

section \<open>What a pooling layer records\<close>

lemma pool_used_same:
  "pool_used cfg pool pstrides s \<Longrightarrow> pool_same (MaxPooling2D_init cfg pool pstrides) s"
proof (induction rule: pool_used.induct)
  case 1
  show ?case by (rule pool_same_refl)
next
  case (2 s x)
  then show ?case using pool_same_trans[OF _ MaxPooling2D_feedforward_keeps] by blast
next
  case (3 s y)
  then show ?case using pool_same_trans[OF _ MaxPooling2D_deconvolve_keeps] by blast
qed

lemma pool_used_inv:
  assumes "pool_used cfg pool pool s" and "output_shape cfg = (n', c, oh, ow)"
  shows "pool_inv pool (c, oh, ow) s"
proof (rule pool_same_inv[OF pool_used_same[OF assms(1)]])
  show "pool_inv pool (c, oh, ow) (MaxPooling2D_init cfg pool pool)"
    using assms(2) shaped3_zeros3[of "(c, oh, ow)"]
    by (simp add: pool_inv_def MaxPooling2D_init_def)
      (simp add: shaped3_def shaped2_def list_all_length)
qed

text \<open>
  C10, for a layer that has only been given inputs of its declared shape. The layer is
  built from a description whose input and output have the same number of channels and
  whose input has a row and a column at least. In every state it reaches by
  \<^verbatim>\<open>feedforward\<close> calls on arrays of the declared input shape, returning or raising, and
  by \<^verbatim>\<open>deconvolve\<close> calls, every pair in \<^verbatim>\<open>indices\<close> is a position inside the input, and
  \<^verbatim>\<open>deconvolve\<close> returns on every argument that has the declared output shape: all its
  reads and writes are in range. When moreover the strides equal the pool size and the
  declared output has \<open>h div pool rows\<close> rows and \<open>wd div pool columns\<close> columns, a
  \<^verbatim>\<open>feedforward\<close> call in such a state on an array of the declared input shape returns,
  and the pair it records for an output cell is the position in the input of the first
  maximum of that cell's window.
\<close>

theorem maxpool_indices_in_bounds:
  assumes "pool_used cfg pool pstrides s"
    and "input_shape cfg = (n, c, h, wd)" and "output_shape cfg = (n', c, oh, ow)"
    and "0 < h" and "0 < wd"
  shows "indices_in_bounds (h, wd) (indices s) \<and>
         (\<forall>y. shaped3 (c, oh, ow) (arg_value y (deconvolutional_output s)) \<longrightarrow>
              returns (MaxPooling2D_deconvolve s y)) \<and>
         (pstrides = pool \<and> 0 < fst pool \<and> 0 < snd pool \<and>
          oh = h div fst pool \<and> ow = wd div snd pool \<longrightarrow>
            (\<forall>x. shaped3 (c, h, wd) x \<longrightarrow>
               MaxPooling2D_feedforward s (Array x) =
                 Done (s\<lparr>output := tabulate3 (c, oh, ow) (pool_max x pool),
                         indices := tabulate3 (c, oh, ow) (pool_argmax x pool)\<rparr>)))"
proof -
  from pool_used_ok[OF assms]
  have ok: "pool_ok s (c, h, wd) (c, oh, ow)" .
  then have "indices_in_bounds (h, wd) (indices s)"
    by (simp add: pool_ok_def)
  moreover have "returns (MaxPooling2D_deconvolve s y)"
    if "shaped3 (c, oh, ow) (arg_value y (deconvolutional_output s))" for y
    using MaxPooling2D_deconvolve_returns[OF ok that] by auto
  moreover have "MaxPooling2D_feedforward s (Array x) =
      Done (s\<lparr>output := tabulate3 (c, oh, ow) (pool_max x pool),
              indices := tabulate3 (c, oh, ow) (pool_argmax x pool)\<rparr>)"
    if eq: "pstrides = pool" and p: "0 < fst pool" "0 < snd pool"
      and o: "oh = h div fst pool" "ow = wd div snd pool" and x: "shaped3 (c, h, wd) x" for x
  proof -
    from assms(1) eq have "pool_used cfg pool pool s" by simp
    from pool_used_inv[OF this assms(3)]
    have "pool_inv pool (c, h div fst pool, wd div snd pool) s" by (simp add: o)
    from MaxPooling2D_feedforward_general[OF this x p] show ?thesis by (simp add: o)
  qed
  ultimately show ?thesis by blast
qed

text \<open>
  A layer that pools four by four cells to two by two, after a pass on an input of that
  shape and an unpooling.
\<close>

definition pool_example :: "shape4 keras_config" where
  "pool_example = \<lparr>keras_name = ''pool'', input_shape = (1, 1, 4, 4), output_shape = (1, 1, 2, 2)\<rparr>"

definition pool_example_used :: MaxPooling2D where
  "pool_example_used =
     state_of (MaxPooling2D_deconvolve
       (state_of (MaxPooling2D_feedforward (MaxPooling2D_init pool_example (2, 2) (2, 2))
          (Array [[[1, 2, 3, 4], [5, 6, 7, 8], [9, 8, 7, 6], [5, 4, 3, 2]]])))
       (Array [[[1, 0], [0, 1]]]))"

theorem maxpool_indices_in_bounds_witness:
  "pool_used pool_example (2, 2) (2, 2) pool_example_used \<and>
   input_shape pool_example = (1, 1, 4, 4) \<and> output_shape pool_example = (1, 1, 2, 2) \<and>
   indices_in_bounds (4, 4) (indices pool_example_used) \<and>
   shaped3 (1, 2, 2) (arg_value (Array [[[3, 0], [0, 4]]]) (deconvolutional_output pool_example_used)) \<and>
   returns (MaxPooling2D_deconvolve pool_example_used (Array [[[3, 0], [0, 4]]])) \<and>
   shaped3 (1, 4, 4) ([[[0, 0, 0, 9], [0, 1, 0, 0], [2, 2, 0, 0], [0, 2, 0, 3]]] :: tensor3) \<and>
   result (\<lambda>s. (output s, indices s))
     (MaxPooling2D_feedforward pool_example_used
        (Array [[[0, 0, 0, 9], [0, 1, 0, 0], [2, 2, 0, 0], [0, 2, 0, 3]]])) =
     Inr ([[[1, 9], [2, 3]]], [[[(1, 1), (0, 3)], [(2, 0), (3, 3)]]])"
proof -
  have x: "shaped3 (snd (input_shape pool_example))
      [[[1, 2, 3, 4], [5, 6, 7, 8], [9, 8, 7, 6], [5, 4, 3, 2::real]]]"
    by (simp add: pool_example_def shaped3_def shaped2_def)
  have u: "pool_used pool_example (2, 2) (2, 2) pool_example_used"
    unfolding pool_example_used_def
    by (intro pool_used.intros x)
  have i: "input_shape pool_example = (1, 1, 4, 4)" and o: "output_shape pool_example = (1, 1, 2, 2)"
    by (simp_all add: pool_example_def)
  have d: "shaped3 (1, 2, 2)
      (arg_value (Array [[[3, 0], [0, 4::real]]]) (deconvolutional_output pool_example_used))"
    by (simp add: shaped3_def shaped2_def)
  have x2: "shaped3 (1, 4, 4) ([[[0, 0, 0, 9], [0, 1, 0, 0], [2, 2, 0, 0], [0, 2, 0, 3]]] :: tensor3)"
    by (simp add: shaped3_def shaped2_def)
  have p: "(2::nat, 2::nat) = (2, 2) \<and> 0 < fst (2::nat, 2::nat) \<and> 0 < snd (2::nat, 2::nat) \<and>
      (2::nat) = 4 div fst (2::nat, 2::nat) \<and> (2::nat) = 4 div snd (2::nat, 2::nat)"
    by simp
  have mx: "tabulate3 (Suc 0, 2, 2) (pool_max [[[0, 0, 0, 9], [0, 1, 0, 0], [2, 2, 0, 0], [0, 2, 0, 3]]] (2, 2)) =
      [[[1, 9], [2, 3]]]"
    by code_simp
  have am: "tabulate3 (Suc 0, 2, 2) (pool_argmax [[[0, 0, 0, 9], [0, 1, 0, 0], [2, 2, 0, 0], [0, 2, 0, 3]]] (2, 2)) =
      [[[(1, 1), (0, 3)], [(2, 0), (3, 3)]]]"
    by code_simp
  have pos: "(0::nat) < 4" by simp
  from maxpool_indices_in_bounds[OF u i o pos pos] p x2
  have "MaxPooling2D_feedforward pool_example_used
        (Array [[[0, 0, 0, 9], [0, 1, 0, 0], [2, 2, 0, 0], [0, 2, 0, 3]]]) =
      Done (pool_example_used\<lparr>output := tabulate3 (1, 2, 2) (pool_max [[[0, 0, 0, 9], [0, 1, 0, 0], [2, 2, 0, 0], [0, 2, 0, 3]]] (2, 2)),
              indices := tabulate3 (1, 2, 2) (pool_argmax [[[0, 0, 0, 9], [0, 1, 0, 0], [2, 2, 0, 0], [0, 2, 0, 3]]] (2, 2))\<rparr>)"
    by blast
  then have r: "result (\<lambda>s. (output s, indices s))
     (MaxPooling2D_feedforward pool_example_used
        (Array [[[0, 0, 0, 9], [0, 1, 0, 0], [2, 2, 0, 0], [0, 2, 0, 3]]])) =
     Inr ([[[1, 9], [2, 3]]], [[[(1, 1), (0, 3)], [(2, 0), (3, 3)]]])"
    by (simp add: mx am)
  from maxpool_indices_in_bounds[OF u i o pos pos] d u i o x2 r show ?thesis by simp
qed

text \<open>
  C10 as stated fails on a layer that was given a larger input before. A layer with a
  pool of two by two and strides of one, declared for four by four cells and an output of
  three by three, takes six by six cells without an error and records positions up to
  (5, 5). A pass on an input of the declared shape then writes only the first two rows
  and columns of \<^verbatim>\<open>indices\<close>; the last row and column keep positions outside the four by
  four input, and \<^verbatim>\<open>deconvolve\<close> on an array of the output's shape raises
  \<^verbatim>\<open>IndexError\<close>.
\<close>

theorem maxpool_stale_indices_counterexample:
  "(let layer = MaxPooling2D_init
         \<lparr>keras_name = ''pool'', input_shape = (1, 1, 4, 4), output_shape = (1, 1, 3, 3)\<rparr>
         (2, 2) (1, 1);
        large = MaxPooling2D_feedforward layer
           (Array [[[1, 2, 3, 4, 5, 6], [1, 2, 3, 4, 5, 6], [1, 2, 3, 4, 5, 6],
                    [1, 2, 3, 4, 5, 6], [1, 2, 3, 4, 5, 6], [1, 2, 3, 4, 5, 6]]]);
        declared = MaxPooling2D_feedforward (state_of large)
           (Array [[[1, 2, 3, 4], [5, 6, 7, 8], [9, 10, 11, 12], [13, 14, 15, 16]]])
    in (returns large, returns declared, indices (state_of declared),
        indices_in_bounds (4, 4) (indices (state_of declared)),
        result deconvolutional_output
          (MaxPooling2D_deconvolve (state_of declared) (Array [[[1, 1, 1], [1, 1, 1], [1, 1, 1]]]))))
   = (True, True,
      [[[(2, 2), (2, 3), (1, 5)], [(3, 2), (3, 3), (3, 5)], [(5, 2), (5, 4), (5, 5)]]],
      False, Inl IndexError)"
  by code_simp

end
